(* ===== verification/Prelude.thy ===== *)
theory Prelude
  imports Main "HOL-Library.Word"
begin

text \<open>
  What every component of the development shares: the C names of the unsigned machine
  types, buffers of bytes read as little-endian numbers, the splitting of a number into
  bit fields, and the collections of rewrite rules the component proofs use.
\<close>

unbundle bit_operations_syntax

type_synonym u8 = "8 word"
type_synonym u32 = "32 word"
type_synonym u64 = "64 word"

named_theorems limb_simps "arithmetic of limb lists"
named_theorems byte_simps "bytes, buffers and their values"

section \<open>Lists with constant indices\<close>

lemma list_update_commute:
  "i \<noteq> j \<Longrightarrow> xs[i := x, j := y] = xs[j := y, i := x]"
  by (simp add: list_update_swap)

lemma upt_0_Suc_snoc: "[0..<Suc n] = [0..<n] @ [n]"
  by simp

lemma nth_map_upt0 [simp]: "i < n \<Longrightarrow> map f [0..<n] ! i = f i"
  by simp

lemma list_eq_map_nth: "length xs = n \<Longrightarrow> xs = map (\<lambda>i. xs ! i) [0..<n]"
  by (auto intro: nth_equalityI)

section \<open>Buffers of bytes as numbers\<close>

text \<open>\<open>le_val s\<close> is \<open>s[0] + 256 * s[1] + 256^2 * s[2] + \<dots>\<close>, as the comments of
  crypto-ops.c write it.\<close>

fun le_val :: "u8 list \<Rightarrow> int" where
  "le_val [] = 0"
| "le_val (b # bs) = uint b + 256 * le_val bs"

lemma le_val_nonneg [simp]: "0 \<le> le_val bs"
  by (induction bs) auto

lemma le_val_append: "le_val (xs @ ys) = le_val xs + 256 ^ length xs * le_val ys"
  by (induction xs) (auto simp: algebra_simps)

lemma le_val_less: "le_val bs < 256 ^ length bs"
proof (induction bs)
  case (Cons b bs)
  have "uint b < 256" using uint_bounded [of b] by simp
  moreover have "le_val bs + 1 \<le> 256 ^ length bs" using Cons by simp
  ultimately show ?case by simp
qed simp

lemma le_val_drop_take:
  "le_val (drop k bs) = le_val bs div 256 ^ k" "le_val (take k bs) = le_val bs mod 256 ^ k"
proof -
  have split: "le_val bs = le_val (take k bs) + 256 ^ length (take k bs) * le_val (drop k bs)"
    by (subst append_take_drop_id [of k bs, symmetric]) (simp only: le_val_append)
  have small: "le_val (take k bs) < 256 ^ length (take k bs)"
    by (rule le_val_less)
  show "le_val (drop k bs) = le_val bs div 256 ^ k"
  proof (cases "k \<le> length bs")
    case True
    then show ?thesis using split small by simp
  next
    case False
    then have "le_val bs < 256 ^ k"
      using le_val_less [of bs] power_increasing [of "length bs" k "256::int"] by linarith
    with False show ?thesis by simp
  qed
  show "le_val (take k bs) = le_val bs mod 256 ^ k"
  proof (cases "k \<le> length bs")
    case True
    then show ?thesis using split small by simp
  next
    case False
    then have "le_val bs < 256 ^ k"
      using le_val_less [of bs] power_increasing [of "length bs" k "256::int"] by linarith
    with False show ?thesis by simp
  qed
qed

lemma le_val_inject:
  "length xs = length ys \<Longrightarrow> le_val xs = le_val ys \<Longrightarrow> xs = ys"
proof (induction xs ys rule: list_induct2)
  case (Cons x xs y ys)
  have "uint x < 256" "uint y < 256" using uint_bounded [of x] uint_bounded [of y] by simp_all
  with Cons.prems have "uint x = uint y \<and> le_val xs = le_val ys"
    by simp (smt (verit) uint_ge_0)
  with Cons.IH show ?case by (simp add: word_uint_eq_iff)
qed simp

text \<open>The number of byte \<open>k\<close> of a value, and the buffer of the first \<open>n\<close> bytes.\<close>

definition le_bytes :: "nat \<Rightarrow> int \<Rightarrow> u8 list" where
  "le_bytes n N = map (\<lambda>k. word_of_int (drop_bit (8 * k) N)) [0..<n]"

lemma length_le_bytes [simp]: "length (le_bytes n N) = n"
  by (simp add: le_bytes_def)

lemma le_bytes_0 [simp]: "le_bytes 0 N = []"
  by (simp add: le_bytes_def)

lemma le_bytes_Suc: "le_bytes (Suc n) N = word_of_int N # le_bytes n (N div 256)"
proof -
  have "map (\<lambda>k. word_of_int (drop_bit (8 * k) N) :: u8) [1..<Suc n]
      = map (\<lambda>k. word_of_int (drop_bit (8 * k) (N div 256))) [0..<n]"
    by (rule nth_equalityI)
      (simp_all add: drop_bit_eq_div zdiv_zmult2_eq [symmetric] power_add [symmetric] del: upt_Suc,
       simp add: power_add)
  then show ?thesis
    by (simp add: le_bytes_def upt_conv_Cons del: upt_Suc)
qed

lemma le_val_le_bytes: "le_val (le_bytes n N) = N mod 256 ^ n"
proof (induction n arbitrary: N)
  case (Suc n)
  have "N mod (256 * 256 ^ n) = 256 * (N div 256 mod 256 ^ n) + N mod 256"
    by (simp add: zmod_zmult2_eq)
  with Suc show ?case
    by (simp add: le_bytes_Suc unsigned_of_int take_bit_eq_mod)
qed simp

lemma le_bytes_le_val: "length bs = n \<Longrightarrow> le_bytes n (le_val bs) = bs"
  by (rule le_val_inject) (use le_val_less [of bs] in \<open>auto simp: le_val_le_bytes\<close>)

lemma le_val_field:
  "take_bit (8 * n) (drop_bit (8 * p) (le_val s)) = le_val (take n (drop p s))"
  by (simp add: le_val_drop_take take_bit_eq_mod drop_bit_eq_div power_mult)

lemma take_Suc_drop_nth:
  "p < length s \<Longrightarrow> take (Suc n) (drop p s) = s ! p # take n (drop (Suc p) s)"
  by (simp add: Cons_nth_drop_Suc [symmetric])

section \<open>Bit fields\<close>

lemma take_bit_byte: "8 \<le> n \<Longrightarrow> take_bit n (uint (b :: u8)) = uint b"
proof -
  assume "8 \<le> n"
  then have "(2::int) ^ 8 \<le> 2 ^ n" by (rule power_increasing) simp
  with uint_bounded [of b] show ?thesis
    by (intro take_bit_int_eq_self) simp_all
qed

lemma or_push_bit_add:
  "0 \<le> x \<Longrightarrow> x < 2 ^ k \<Longrightarrow> x OR push_bit k y = x + 2 ^ k * (y :: int)"
  using concat_bit_eq [of k x y] concat_bit_def [of k x y]
  by (simp add: take_bit_int_eq_self push_bit_eq_mult mult.commute)

lemma bit_low_high:
  fixes x y :: int
  assumes "0 \<le> x" "x < 2 ^ k"
  shows "bit (x + 2 ^ k * y) m \<longleftrightarrow> (if m < k then bit x m else bit y (m - k))"
proof -
  have "x + 2 ^ k * y = concat_bit k x y"
    using assms by (simp add: concat_bit_eq push_bit_eq_mult take_bit_int_eq_self)
  then show ?thesis by (simp add: bit_concat_bit_iff)
qed

lemma byte_eqI:
  fixes a b :: u8
  assumes "bit a 0 = bit b 0" "bit a 1 = bit b 1" "bit a 2 = bit b 2" "bit a 3 = bit b 3"
    "bit a 4 = bit b 4" "bit a 5 = bit b 5" "bit a 6 = bit b 6" "bit a 7 = bit b 7"
  shows "a = b"
proof (rule bit_word_eqI)
  fix n assume "n < LENGTH(8)"
  then have "n = 0 \<or> n = 1 \<or> n = 2 \<or> n = 3 \<or> n = 4 \<or> n = 5 \<or> n = 6 \<or> n = 7" by auto
  with assms show "bit a n = bit b n" by (elim disjE) simp_all
qed

lemma bit_int_above: "0 \<le> x \<Longrightarrow> x < 2 ^ k \<Longrightarrow> k \<le> n \<Longrightarrow> \<not> bit (x :: int) n"
  using bit_take_bit_iff [of k x n] by (simp add: take_bit_int_eq_self)

lemma drop_bit_int_le: "0 \<le> (a::int) \<Longrightarrow> 0 \<le> drop_bit m a \<and> drop_bit m a \<le> a"
  using zdiv_mono2 [of a 1 "2 ^ m"] by (simp add: drop_bit_eq_div pos_imp_zdiv_nonneg_iff)

lemma word_of_int_xor: "(word_of_int (x XOR y) :: 'a::len word) = word_of_int x XOR word_of_int y"
  by (rule bit_word_eqI) (simp add: bit_simps)

text \<open>A rotation written as two shifts.\<close>

lemma rotl_shifts:
  fixes w :: "'a::len word"
  assumes "n < LENGTH('a)"
  shows "push_bit n w OR drop_bit (LENGTH('a) - n) w = word_rotl n w"
proof (rule bit_word_eqI)
  fix z assume z: "z < LENGTH('a)"
  have "bit (word_rotl n w) z = bit w ((z + (LENGTH('a) - n)) mod LENGTH('a))"
    using z assms by (simp add: word_rotl_eq_word_rotr bit_word_rotr_iff)
  moreover have "(z + (LENGTH('a) - n)) mod LENGTH('a) = (if n \<le> z then z - n else z + (LENGTH('a) - n))"
    using z assms by (auto simp: mod_if)
  moreover have "\<not> bit w (z + (LENGTH('a) - n))" if "n \<le> z"
    using that assms by (auto dest: bit_imp_le_length)
  ultimately show "bit (push_bit n w OR drop_bit (LENGTH('a) - n) w) z = bit (word_rotl n w) z"
    using z assms by (auto simp: bit_simps add.commute)
qed

lemma uint_drop_bit: "uint (drop_bit m w) = drop_bit m (uint w)"
  using take_bit_int_eq_self [OF uint_ge_0 uint_bounded, of w] by (simp add: unsigned_drop_bit_eq)

lemma uint_take_bit: "uint (take_bit m w) = take_bit m (uint w)"
  by (simp add: unsigned_take_bit_eq)

section \<open>Optional results\<close>

text \<open>A list of fallible results succeeds when each of them does.\<close>

fun opts :: "'a option list \<Rightarrow> 'a list option" where
  "opts [] = Some []"
| "opts (None # _) = None"
| "opts (Some x # xs) = map_option ((#) x) (opts xs)"

lemma opts_map_Some [simp]: "opts (map Some xs) = Some xs"
  by (induction xs) auto

lemma opts_Some_iff: "opts xs = Some ys \<longleftrightarrow> xs = map Some ys"
proof (induction xs arbitrary: ys rule: opts.induct)
  case (3 x xs)
  then show ?case by (cases ys) auto
qed auto

section \<open>Zero buffers\<close>

lemma fold_or_zero_iff:
  "fold (\<lambda>i acc. acc OR f i) is a = (0 :: 'b::len word) \<longleftrightarrow> a = 0 \<and> (\<forall>i\<in>set is. f i = 0)"
proof (induction "is" arbitrary: a)
  case (Cons i "is")
  have "(a OR f i = 0) \<longleftrightarrow> a = 0 \<and> f i = 0" by (auto simp: or_eq_0_iff)
  with Cons show ?case by auto
qed simp

lemma le_val_zero_iff: "le_val s = 0 \<longleftrightarrow> (\<forall>b\<in>set s. b = 0)"
proof (induction s)
  case (Cons b s)
  have "uint b = 0 \<longleftrightarrow> b = 0" by (fact uint_0_iff)
  moreover have "uint b + 256 * le_val s = 0 \<longleftrightarrow> uint b = 0 \<and> le_val s = 0"
    using uint_ge_0 [of b] le_val_nonneg [of s] by linarith
  ultimately show ?case using Cons by simp
qed simp

end
