(* ===== verification/CInt.thy ===== *)
theory CInt
  imports Prelude
begin

text \<open>
  Signed C integers with undefined behaviour made explicit. A value of type \<open>'w cint\<close>
  is a \<open>w\<close>-bit signed integer of the source (\<open>32 cint\<close> is \<open>int32_t\<close>,
  \<open>64 cint\<close> is \<open>int64_t\<close>) or \<open>UB\<close>, the result of an operation whose exact result
  does not fit: C11 leaves signed overflow undefined, so no wrap-around is modelled,
  and \<open>UB\<close> is absorbed by every later operation. A theorem that says an operation
  returns \<open>CI v\<close> thus says that no step of it overflowed.

  Three points are fixed as GCC and Clang implement them, because the code relies on it:
  \<open>>>\<close> of a negative value is arithmetic; \<open><<\<close> shifts the bits of the two's complement
  representation, negative values and overflowing shifts included (C11 leaves both
  undefined); and a conversion to a narrower signed type keeps the low bits.
\<close>

section \<open>Values and operations\<close>

datatype 'w cint = CI int | UB

type_synonym i32 = "32 cint"
type_synonym i64 = "64 cint"

definition fits :: "nat \<Rightarrow> int \<Rightarrow> bool" where
  "fits w n \<longleftrightarrow> - (2 ^ (w - 1)) \<le> n \<and> n < 2 ^ (w - 1)"

definition mk :: "int \<Rightarrow> 'w::len cint" where
  "mk n = (if fits LENGTH('w) n then CI n else UB)"

fun lift1 :: "(int \<Rightarrow> int) \<Rightarrow> 'w::len cint \<Rightarrow> 'w cint" where
  "lift1 f (CI a) = mk (f a)"
| "lift1 f UB = UB"

fun lift2 :: "(int \<Rightarrow> int \<Rightarrow> int) \<Rightarrow> 'w::len cint \<Rightarrow> 'w cint \<Rightarrow> 'w cint" where
  "lift2 f (CI a) (CI b) = mk (f a b)"
| "lift2 f _ _ = UB"

instantiation cint :: (len) "{plus, minus, times, uminus}"
begin

definition plus_cint :: "'a cint \<Rightarrow> 'a cint \<Rightarrow> 'a cint" where
  "plus_cint = lift2 (+)"

definition minus_cint :: "'a cint \<Rightarrow> 'a cint \<Rightarrow> 'a cint" where
  "minus_cint = lift2 (-)"

definition times_cint :: "'a cint \<Rightarrow> 'a cint \<Rightarrow> 'a cint" where
  "times_cint = lift2 (*)"

definition uminus_cint :: "'a cint \<Rightarrow> 'a cint" where
  "uminus_cint = lift1 uminus"

instance ..

end

text \<open>Shifts, the bitwise operators of two's complement, and conversions.\<close>

definition shr :: "'w::len cint \<Rightarrow> nat \<Rightarrow> 'w cint" where
  "shr x n = lift1 (drop_bit n) x"

fun shl :: "'w::len cint \<Rightarrow> nat \<Rightarrow> 'w cint" where
  "shl (CI a) n = CI (signed_take_bit (LENGTH('w) - 1) (push_bit n a))"
| "shl UB n = UB"

definition cor :: "'w::len cint \<Rightarrow> 'w cint \<Rightarrow> 'w cint" where
  "cor = lift2 (OR)"

definition cand :: "'w::len cint \<Rightarrow> 'w cint \<Rightarrow> 'w cint" where
  "cand = lift2 (AND)"

definition cxor :: "'w::len cint \<Rightarrow> 'w cint \<Rightarrow> 'w cint" where
  "cxor = lift2 (XOR)"

fun ccast :: "'v::len cint \<Rightarrow> 'w::len cint" where
  "ccast (CI a) = CI (signed_take_bit (LENGTH('w) - 1) a :: int)"
| "ccast UB = UB"

text \<open>An unsigned word assigned to a signed variable, and a signed value stored in an
  unsigned one (always the low bits; nothing can be stored from \<open>UB\<close>).\<close>

definition of_unsigned :: "'v::len word \<Rightarrow> 'w::len cint" where
  "of_unsigned a = CI (signed_take_bit (LENGTH('w) - 1) (uint a))"

fun to_unsigned :: "'w::len cint \<Rightarrow> 'v::len word option" where
  "to_unsigned (CI a) = Some (word_of_int a)"
| "to_unsigned UB = None"

abbreviation to_u8 :: "'w::len cint \<Rightarrow> u8 option" where
  "to_u8 \<equiv> to_unsigned"

fun ci_val :: "'w cint \<Rightarrow> int" where
  "ci_val (CI a) = a"
| "ci_val UB = 0"

lemma fits_iff: "fits w n \<longleftrightarrow> - (2 ^ (w - 1)) \<le> n \<and> n < 2 ^ (w - 1)"
  by (fact fits_def)

lemma fits_between: "fits w a \<Longrightarrow> fits w b \<Longrightarrow> a \<le> v \<Longrightarrow> v \<le> b \<Longrightarrow> fits w v"
  by (auto simp: fits_def)

lemma mk_fits: "fits LENGTH('w) n \<Longrightarrow> (mk n :: 'w::len cint) = CI n"
  by (simp add: mk_def)

lemma signed_take_bit_fits: "fits (Suc k) a \<Longrightarrow> signed_take_bit k a = (a::int)"
  by (simp add: fits_def signed_take_bit_int_eq_self)

lemma ccast_fits: "fits LENGTH('w) a \<Longrightarrow> (ccast (CI a :: 'v::len cint) :: 'w::len cint) = CI a"
  using signed_take_bit_fits [of "LENGTH('w) - 1" a] by simp

declare shl.simps(1) [simp del]

lemma shl_fits: "fits LENGTH('w) (push_bit n a) \<Longrightarrow> shl (CI a :: 'w::len cint) n = CI (push_bit n a)"
  using signed_take_bit_fits [of "LENGTH('w) - 1" "push_bit n a"] by (simp add: shl.simps)

lemma shl_fits_mult: "fits LENGTH('w) (a * 2 ^ n) \<Longrightarrow> shl (CI a :: 'w::len cint) n = CI (a * 2 ^ n)"
  using shl_fits [where 'w = 'w, of n a] by (simp add: push_bit_eq_mult)

lemma fits_or: "fits w a \<Longrightarrow> fits w b \<Longrightarrow> fits w (a OR b)"
  unfolding fits_def signed_take_bit_int_eq_self_iff [symmetric]
  by (rule bit_eqI) (metis bit_or_iff bit_signed_take_bit_iff)

lemma fits_signed_take_bit: "fits LENGTH('w::len) (signed_take_bit (LENGTH('w) - 1) a)"
  unfolding fits_def signed_take_bit_int_eq_self_iff [symmetric] by simp

lemma of_unsigned_less:
  "uint a < 2 ^ (LENGTH('w) - 1) \<Longrightarrow> (of_unsigned a :: 'w::len cint) = CI (uint a)"
  unfolding of_unsigned_def by (subst signed_take_bit_fits) (auto simp: fits_def intro: order_trans [OF _ uint_ge_0])

section \<open>Exact values with symmetric bounds\<close>

text \<open>
  \<open>mag x v m\<close>: the C value \<open>x\<close> is defined, it is the mathematical value \<open>v\<close>, and \<open>v\<close> is at
  most \<open>m\<close> in absolute value. The rules below compute \<open>v\<close> and \<open>m\<close> from an expression
  of the source, with a side condition for each operation that may overflow.
\<close>

definition mag :: "'w::len cint \<Rightarrow> int \<Rightarrow> int \<Rightarrow> bool" where
  "mag x v m \<longleftrightarrow> x = CI v \<and> \<bar>v\<bar> \<le> m"

lemma mag_CI: "mag (CI v) v \<bar>v\<bar>"
  by (simp add: mag_def)

lemma mag_weaken: "mag x v m \<Longrightarrow> m \<le> m' \<Longrightarrow> mag x v m'"
  by (simp add: mag_def)

lemma mag_value: "mag x v m \<Longrightarrow> x = CI v"
  by (simp add: mag_def)

lemma fits_mag: "\<bar>v\<bar> \<le> m \<Longrightarrow> m < 2 ^ (w - 1) \<Longrightarrow> fits w v"
  by (auto simp: fits_def abs_le_iff)

lemma mag_mk: "\<bar>v\<bar> \<le> m \<Longrightarrow> m < 2 ^ (LENGTH('w) - 1) \<Longrightarrow> mag (mk v :: 'w::len cint) v m"
  by (simp add: mag_def mk_fits fits_mag)

lemma mag_plus:
  "mag x v m \<Longrightarrow> mag y w n \<Longrightarrow> m + n < 2 ^ (LENGTH('w) - 1) \<Longrightarrow>
   mag (x + y :: 'w::len cint) (v + w) (m + n)"
  using mag_mk [of "v + w" "m + n", where 'w = 'w] by (auto simp: mag_def plus_cint_def)

lemma mag_minus:
  "mag x v m \<Longrightarrow> mag y w n \<Longrightarrow> m + n < 2 ^ (LENGTH('w) - 1) \<Longrightarrow>
   mag (x - y :: 'w::len cint) (v - w) (m + n)"
  using mag_mk [of "v - w" "m + n", where 'w = 'w] by (auto simp: mag_def minus_cint_def)

lemma mag_times:
  "mag x v m \<Longrightarrow> mag y w n \<Longrightarrow> m * n < 2 ^ (LENGTH('w) - 1) \<Longrightarrow>
   mag (x * y :: 'w::len cint) (v * w) (m * n)"
  using mag_mk [of "v * w" "m * n", where 'w = 'w] mult_mono [of "\<bar>v\<bar>" m "\<bar>w\<bar>" n]
  by (auto simp: mag_def times_cint_def abs_mult)

lemma mag_uminus:
  "mag x v m \<Longrightarrow> m < 2 ^ (LENGTH('w) - 1) \<Longrightarrow> mag (- x :: 'w::len cint) (- v) m"
  using mag_mk [of "- v" m, where 'w = 'w] by (auto simp: mag_def uminus_cint_def)

lemma mag_ccast:
  "mag x v m \<Longrightarrow> m < 2 ^ (LENGTH('w) - 1) \<Longrightarrow> mag (ccast x :: 'w::len cint) v m"
  by (auto simp: mag_def ccast_fits fits_mag simp del: ccast.simps)

lemmas mag_intros = mag_plus mag_minus mag_times mag_uminus mag_ccast mag_CI

section \<open>Arrays of limbs and their intervals\<close>

text \<open>
  The field and scalar code keeps a number as an array of limbs and moves carries
  between them. \<open>within s v B\<close>: every element of the array \<open>s\<close> is defined, \<open>v\<close> holds the
  values, and \<open>B\<close> holds for each of them an interval. Each operation on arrays comes
  with its effect on the values and with an executable operation on the intervals
  that returns \<open>None\<close> when a result might not fit.
\<close>

type_synonym ival = "int \<times> int"

definition within :: "'w cint list \<Rightarrow> int list \<Rightarrow> ival list \<Rightarrow> bool" where
  "within s v B \<longleftrightarrow> s = map CI v \<and> list_all2 (\<lambda>x (l, h). l \<le> x \<and> x \<le> h) v B"

lemma within_length: "within s v B \<Longrightarrow> length v = length B" "within s v B \<Longrightarrow> length s = length B"
  by (auto simp: within_def list_all2_lengthD)

lemma within_nth:
  "within s v B \<Longrightarrow> i < length B \<Longrightarrow> fst (B ! i) \<le> v ! i \<and> v ! i \<le> snd (B ! i)"
  by (auto simp: within_def case_prod_beta dest: list_all2_nthD2)

lemma within_nth_CI: "within s v B \<Longrightarrow> i < length B \<Longrightarrow> s ! i = CI (v ! i)"
  by (auto simp: within_def dest: list_all2_lengthD)

lemma within_update:
  "within s v B \<Longrightarrow> l \<le> a \<Longrightarrow> a \<le> h \<Longrightarrow> within (s[i := CI a]) (v[i := a]) (B[i := (l, h)])"
  by (auto simp: within_def map_update intro!: list_all2_update_cong)

lemma withinI:
  "length s = length B \<Longrightarrow> length v = length B \<Longrightarrow>
   (\<And>i. i < length B \<Longrightarrow> s ! i = CI (v ! i) \<and> fst (B ! i) \<le> v ! i \<and> v ! i \<le> snd (B ! i)) \<Longrightarrow>
   within s v B"
  unfolding within_def case_prod_beta
  by (intro conjI nth_equalityI list_all2_all_nthI) simp_all

text \<open>Arithmetic of intervals.\<close>

fun iv_add :: "ival \<Rightarrow> ival \<Rightarrow> ival" where
  "iv_add (a, b) (c, d) = (a + c, b + d)"

fun iv_scale :: "int \<Rightarrow> ival \<Rightarrow> ival" where
  "iv_scale k (a, b) = (if 0 \<le> k then (k * a, k * b) else (k * b, k * a))"

fun iv_shr :: "nat \<Rightarrow> ival \<Rightarrow> ival" where
  "iv_shr n (a, b) = (a div 2 ^ n, b div 2 ^ n)"

fun iv_fits :: "nat \<Rightarrow> ival \<Rightarrow> bool" where
  "iv_fits w (a, b) \<longleftrightarrow> fits w a \<and> fits w b"

definition iv_in :: "int \<Rightarrow> ival \<Rightarrow> bool" where
  "iv_in x I \<longleftrightarrow> fst I \<le> x \<and> x \<le> snd I"

lemma iv_in_add: "iv_in x I \<Longrightarrow> iv_in y J \<Longrightarrow> iv_in (x + y) (iv_add I J)"
  by (cases I; cases J) (auto simp: iv_in_def)

lemma iv_in_scale: "iv_in x I \<Longrightarrow> iv_in (k * x) (iv_scale k I)"
  by (cases I) (auto simp: iv_in_def mult_left_mono mult_left_mono_neg)

lemma iv_in_shr: "iv_in x I \<Longrightarrow> iv_in (x div 2 ^ n) (iv_shr n I)"
  by (cases I) (auto simp: iv_in_def zdiv_mono1)

lemma iv_in_fits: "iv_in x I \<Longrightarrow> iv_fits w I \<Longrightarrow> fits w x"
  by (cases I) (auto simp: iv_in_def intro: fits_between)

lemma iv_in_const: "iv_in c (c, c)"
  by (simp add: iv_in_def)

lemma within_iv_in: "within s v B \<Longrightarrow> i < length B \<Longrightarrow> iv_in (v ! i) (B ! i)"
  using within_nth by (auto simp: iv_in_def)

lemma within_set:
  "within s v B \<Longrightarrow> iv_in a I \<Longrightarrow> within (s[i := CI a]) (v[i := a]) (B[i := I])"
  by (cases I) (auto simp: iv_in_def intro: within_update)

subsection \<open>Adding a multiple of one limb to another\<close>

text \<open>\<open>s[j] += s[i] * k\<close>.\<close>

definition addmul :: "nat \<Rightarrow> nat \<Rightarrow> int \<Rightarrow> 'w::len cint list \<Rightarrow> 'w cint list" where
  "addmul j i k s = s[j := s ! j + s ! i * CI k]"

text \<open>\<open>s[j] -= s[i] * k\<close>.\<close>

definition submul :: "nat \<Rightarrow> nat \<Rightarrow> int \<Rightarrow> 'w::len cint list \<Rightarrow> 'w cint list" where
  "submul j i k s = s[j := s ! j - s ! i * CI k]"

definition addmul_int :: "nat \<Rightarrow> nat \<Rightarrow> int \<Rightarrow> int list \<Rightarrow> int list" where
  "addmul_int j i k v = v[j := v ! j + k * v ! i]"

definition addmul_iv :: "nat \<Rightarrow> nat \<Rightarrow> nat \<Rightarrow> int \<Rightarrow> ival list \<Rightarrow> ival list option" where
  "addmul_iv w j i k B =
     (let P = iv_scale k (B ! i); S = iv_add (B ! j) P in
      if i < length B \<and> j < length B \<and> iv_fits w P \<and> iv_fits w (iv_scale (- 1) P) \<and> iv_fits w S
      then Some (B[j := S]) else None)"

lemma addmul_within:
  fixes s :: "'w::len cint list"
  assumes "within s v B" "addmul_iv LENGTH('w) j i k B = Some B'"
  shows "within (addmul j i k s) (addmul_int j i k v) B'"
    and "within (submul j i (- k) s) (addmul_int j i k v) B'"
proof -
  let ?P = "iv_scale k (B ! i)"
  from assms(2) have lt: "i < length B" "j < length B"
    and fit: "iv_fits LENGTH('w) ?P" "iv_fits LENGTH('w) (iv_scale (- 1) ?P)"
      "iv_fits LENGTH('w) (iv_add (B ! j) ?P)"
    and B': "B' = B[j := iv_add (B ! j) ?P]"
    by (auto simp: addmul_iv_def Let_def split: if_splits)
  have P: "iv_in (k * v ! i) ?P"
    using assms(1) lt by (intro iv_in_scale within_iv_in)
  have S: "iv_in (v ! j + k * v ! i) (iv_add (B ! j) ?P)"
    using assms(1) lt P by (intro iv_in_add within_iv_in)
  have f1: "fits LENGTH('w) (k * v ! i)" using iv_in_fits [OF P fit(1)] .
  have f2: "fits LENGTH('w) (- (k * v ! i))" using iv_in_fits [OF iv_in_scale [OF P, of "- 1"] fit(2)] by simp
  have f3: "fits LENGTH('w) (v ! j + k * v ! i)" using iv_in_fits [OF S fit(3)] .
  have nth: "s ! i = CI (v ! i)" "s ! j = CI (v ! j)"
    using within_nth_CI [OF assms(1)] lt by auto
  have "addmul j i k s = s[j := CI (v ! j + k * v ! i)]"
    using f1 f3 by (simp add: addmul_def nth times_cint_def plus_cint_def mult.commute mk_fits)
  then show "within (addmul j i k s) (addmul_int j i k v) B'"
    unfolding addmul_int_def B' using within_set [OF assms(1) S] by simp
  have "submul j i (- k) s = s[j := CI (v ! j + k * v ! i)]"
    using f2 f3 by (simp add: submul_def nth times_cint_def minus_cint_def mult.commute mk_fits)
  then show "within (submul j i (- k) s) (addmul_int j i k v) B'"
    unfolding addmul_int_def B' using within_set [OF assms(1) S] by simp
qed

subsection \<open>Moving a carry\<close>

text \<open>
  \<open>carry = (s[i] + r) >> b; s[j] += carry; s[i] -= carry << b;\<close> with \<open>r\<close> the rounding
  term (\<open>1 << (b - 1)\<close> or absent), and the variant with \<open>s[j] += carry * k\<close>.
\<close>

definition carry_round :: "nat \<Rightarrow> nat \<Rightarrow> nat \<Rightarrow> 'w::len cint list \<Rightarrow> 'w cint list" where
  "carry_round b i j s =
     (let carry = shr (s ! i + CI (2 ^ (b - 1))) b;
          s = s[j := s ! j + carry]
      in s[i := s ! i - shl carry b])"

definition carry_floor :: "nat \<Rightarrow> nat \<Rightarrow> nat \<Rightarrow> 'w::len cint list \<Rightarrow> 'w cint list" where
  "carry_floor b i j s =
     (let carry = shr (s ! i) b;
          s = s[j := s ! j + carry]
      in s[i := s ! i - shl carry b])"

definition carry_round_mul :: "nat \<Rightarrow> nat \<Rightarrow> nat \<Rightarrow> int \<Rightarrow> 'w::len cint list \<Rightarrow> 'w cint list" where
  "carry_round_mul b i j k s =
     (let carry = shr (s ! i + CI (2 ^ (b - 1))) b;
          s = s[j := s ! j + carry * CI k]
      in s[i := s ! i - shl carry b])"

definition carry_int :: "int \<Rightarrow> nat \<Rightarrow> nat \<Rightarrow> nat \<Rightarrow> int \<Rightarrow> int list \<Rightarrow> int list" where
  "carry_int r b i j k v =
     (let c = (v ! i + r) div 2 ^ b in v[j := v ! j + k * c, i := v ! i - 2 ^ b * c])"

definition carry_iv :: "nat \<Rightarrow> int \<Rightarrow> nat \<Rightarrow> nat \<Rightarrow> nat \<Rightarrow> int \<Rightarrow> ival list \<Rightarrow> ival list option" where
  "carry_iv w r b i j k B =
     (let R = iv_add (B ! i) (r, r);
          C = iv_shr b R;
          P = iv_scale k C;
          S = iv_add (B ! j) P;
          D = (if fst C = snd C then iv_add (B ! i) (- (2 ^ b) * fst C, - (2 ^ b) * fst C)
               else (- r, 2 ^ b - 1 - r))
      in if i < length B \<and> j < length B \<and> i \<noteq> j \<and>
            iv_fits w R \<and> iv_fits w C \<and> iv_fits w P \<and> iv_fits w S \<and> iv_fits w D \<and>
            iv_fits w (iv_scale (2 ^ b) C)
         then Some (B[j := S, i := D]) else None)"

lemma carry_iv_facts:
  assumes w: "within s v B" and iv: "carry_iv w r b i j k B = Some B'"
  defines "c \<equiv> (v ! i + r) div 2 ^ b"
  shows "i < length B" "j < length B" "i \<noteq> j"
    "fits w (v ! i + r)" "fits w c" "fits w (k * c)" "fits w (v ! j + k * c)"
    "fits w (v ! i - 2 ^ b * c)" "fits w (2 ^ b * c)"
    "within (s[j := CI (v ! j + k * c), i := CI (v ! i - 2 ^ b * c)]) (carry_int r b i j k v) B'"
proof -
  let ?R = "iv_add (B ! i) (r, r)"
  let ?C = "iv_shr b ?R"
  let ?P = "iv_scale k ?C"
  let ?S = "iv_add (B ! j) ?P"
  let ?D = "if fst ?C = snd ?C then iv_add (B ! i) (- (2 ^ b) * fst ?C, - (2 ^ b) * fst ?C)
            else (- r, 2 ^ b - 1 - r)"
  from iv show lt: "i < length B" "j < length B" "i \<noteq> j"
    by (auto simp: carry_iv_def Let_def split: if_splits)
  from iv have fit: "iv_fits w ?R" "iv_fits w ?C" "iv_fits w ?P" "iv_fits w ?S" "iv_fits w ?D"
      "iv_fits w (iv_scale (2 ^ b) ?C)" and B': "B' = B[j := ?S, i := ?D]"
    unfolding carry_iv_def Let_def by (simp_all only: option.distinct option.inject split: if_split_asm)
  have R: "iv_in (v ! i + r) ?R"
    using w lt by (intro iv_in_add within_iv_in iv_in_const)
  have C: "iv_in c ?C" unfolding c_def using R by (rule iv_in_shr)
  have P: "iv_in (k * c) ?P" using C by (rule iv_in_scale)
  have S: "iv_in (v ! j + k * c) ?S" using w lt P by (intro iv_in_add within_iv_in)
  have D: "iv_in (v ! i - 2 ^ b * c) ?D"
  proof (cases "fst ?C = snd ?C")
    case True
    with C have "c = fst ?C" by (auto simp: iv_in_def)
    with True show ?thesis
      using iv_in_add [OF within_iv_in [OF w lt(1)] iv_in_const [of "- (2 ^ b) * c"]] by simp
  next
    case False
    have "v ! i + r - 2 ^ b * c = (v ! i + r) mod 2 ^ b"
      unfolding c_def by (simp add: minus_mult_div_eq_mod)
    then have "0 \<le> v ! i + r - 2 ^ b * c" "v ! i + r - 2 ^ b * c < 2 ^ b" by simp_all
    with False show ?thesis by (auto simp: iv_in_def)
  qed
  show "fits w (v ! i + r)" using iv_in_fits [OF R fit(1)] .
  show "fits w c" using iv_in_fits [OF C fit(2)] .
  show "fits w (k * c)" using iv_in_fits [OF P fit(3)] .
  show "fits w (v ! j + k * c)" using iv_in_fits [OF S fit(4)] .
  show "fits w (v ! i - 2 ^ b * c)" using iv_in_fits [OF D fit(5)] .
  show "fits w (2 ^ b * c)" using iv_in_fits [OF iv_in_scale [OF C] fit(6)] .
  show "within (s[j := CI (v ! j + k * c), i := CI (v ! i - 2 ^ b * c)]) (carry_int r b i j k v) B'"
    unfolding carry_int_def Let_def B' c_def [symmetric]
    by (intro within_set w S D)
qed

lemma carry_within:
  fixes s :: "'w::len cint list"
  assumes w: "within s v B"
  shows "carry_iv LENGTH('w) (2 ^ (b - 1)) b i j 1 B = Some B' \<Longrightarrow>
      within (carry_round b i j s) (carry_int (2 ^ (b - 1)) b i j 1 v) B'"
    and "carry_iv LENGTH('w) 0 b i j 1 B = Some B' \<Longrightarrow>
      within (carry_floor b i j s) (carry_int 0 b i j 1 v) B'"
    and "carry_iv LENGTH('w) (2 ^ (b - 1)) b i j k B = Some B' \<Longrightarrow>
      within (carry_round_mul b i j k s) (carry_int (2 ^ (b - 1)) b i j k v) B'"
proof -
  note nth = within_nth_CI [OF w] and len = within_length [OF w]
  note cdefs = plus_cint_def minus_cint_def times_cint_def shr_def shl_fits_mult
    drop_bit_eq_div mk_fits Let_def
  {
    assume iv: "carry_iv LENGTH('w) (2 ^ (b - 1)) b i j 1 B = Some B'"
    note f = carry_iv_facts [OF w iv]
    have "carry_round b i j s = s[j := CI (v ! j + 1 * ((v ! i + 2 ^ (b - 1)) div 2 ^ b)),
        i := CI (v ! i - 2 ^ b * ((v ! i + 2 ^ (b - 1)) div 2 ^ b))]"
      using f(1-9) len by (simp add: carry_round_def cdefs nth mult.commute)
    then show "within (carry_round b i j s) (carry_int (2 ^ (b - 1)) b i j 1 v) B'"
      using f(10) by simp
  next
    assume iv: "carry_iv LENGTH('w) 0 b i j 1 B = Some B'"
    note f = carry_iv_facts [OF w iv]
    have "carry_floor b i j s = s[j := CI (v ! j + 1 * ((v ! i + 0) div 2 ^ b)),
        i := CI (v ! i - 2 ^ b * ((v ! i + 0) div 2 ^ b))]"
      using f(1-9) len by (simp add: carry_floor_def cdefs nth mult.commute)
    then show "within (carry_floor b i j s) (carry_int 0 b i j 1 v) B'"
      using f(10) by simp
  next
    assume iv: "carry_iv LENGTH('w) (2 ^ (b - 1)) b i j k B = Some B'"
    note f = carry_iv_facts [OF w iv]
    have "carry_round_mul b i j k s = s[j := CI (v ! j + k * ((v ! i + 2 ^ (b - 1)) div 2 ^ b)),
        i := CI (v ! i - 2 ^ b * ((v ! i + 2 ^ (b - 1)) div 2 ^ b))]"
      using f(1-9) len by (simp add: carry_round_mul_def cdefs nth mult.commute)
    then show "within (carry_round_mul b i j k s) (carry_int (2 ^ (b - 1)) b i j k v) B'"
      using f(10) by simp
  }
qed

subsection \<open>Sequences of steps\<close>

text \<open>
  A step on arrays, its effect on the values and its effect on the intervals, together.
  Steps compose, and a loop over constant indices is a fold.
\<close>

definition step_ok ::
  "('w::len cint list \<Rightarrow> 'w cint list) \<Rightarrow> (int list \<Rightarrow> int list) \<Rightarrow> (ival list \<Rightarrow> ival list option) \<Rightarrow> bool" where
  "step_ok F V A \<longleftrightarrow> (\<forall>s v B B'. within s v B \<longrightarrow> A B = Some B' \<longrightarrow> within (F s) (V v) B')"

definition seq_iv ::
  "(ival list \<Rightarrow> ival list option) \<Rightarrow> (ival list \<Rightarrow> ival list option) \<Rightarrow> ival list \<Rightarrow> ival list option" where
  "seq_iv A A' B = (case A B of None \<Rightarrow> None | Some B' \<Rightarrow> A' B')"

fun fold_iv :: "(nat \<Rightarrow> ival list \<Rightarrow> ival list option) \<Rightarrow> nat list \<Rightarrow> ival list \<Rightarrow> ival list option" where
  "fold_iv A [] B = Some B"
| "fold_iv A (i # is) B = (case A i B of None \<Rightarrow> None | Some B' \<Rightarrow> fold_iv A is B')"

definition set_iv :: "nat \<Rightarrow> int \<Rightarrow> ival list \<Rightarrow> ival list option" where
  "set_iv i c B = Some (B[i := (c, c)])"

lemma step_okD: "step_ok F V A \<Longrightarrow> within s v B \<Longrightarrow> A B = Some B' \<Longrightarrow> within (F s) (V v) B'"
  by (auto simp: step_ok_def)

lemma step_okI:
  "(\<And>s v B B'. within s v B \<Longrightarrow> A B = Some B' \<Longrightarrow> within (F s) (V v) B') \<Longrightarrow> step_ok F V A"
  unfolding step_ok_def by blast

lemma step_ok_seq:
  fixes F F' :: "'w::len cint list \<Rightarrow> 'w cint list"
  assumes "step_ok F V A" "step_ok F' V' A'"
  shows "step_ok (F' \<circ> F) (V' \<circ> V) (seq_iv A A')"
proof (rule step_okI)
  fix s :: "'w cint list" and v B B'
  assume w: "within s v B" and "seq_iv A A' B = Some B'"
  then obtain C where "A B = Some C" "A' C = Some B'"
    by (auto simp: seq_iv_def split: option.split_asm)
  with assms w show "within ((F' \<circ> F) s) ((V' \<circ> V) v) B'"
    by (auto intro: step_okD)
qed

lemma step_ok_fold:
  assumes "\<And>i. step_ok (F i) (V i) (A i)"
  shows "step_ok (fold F is) (fold V is) (fold_iv A is)"
proof (induction "is")
  case Nil
  then show ?case by (simp add: step_ok_def)
next
  case (Cons i "is")
  have "fold_iv A (i # is) = seq_iv (A i) (fold_iv A is)"
    by (rule ext) (simp add: seq_iv_def)
  with step_ok_seq [OF assms Cons] show ?case by (simp add: comp_def)
qed

lemma step_ok_set: "step_ok (\<lambda>s. s[i := CI c]) (\<lambda>v. v[i := c]) (set_iv i c)"
  by (auto simp: step_ok_def set_iv_def intro: within_set iv_in_const)

lemma step_ok_addmul:
  "step_ok (addmul j i k :: 'w::len cint list \<Rightarrow> _) (addmul_int j i k) (addmul_iv LENGTH('w) j i k)"
  by (auto simp: step_ok_def intro: addmul_within)

lemma step_ok_submul:
  "step_ok (submul j i k :: 'w::len cint list \<Rightarrow> _) (addmul_int j i (- k)) (addmul_iv LENGTH('w) j i (- k))"
  using addmul_within(2) [where k = "- k" and 'w = 'w] by (auto simp: step_ok_def)

lemma step_ok_carry_round:
  "step_ok (carry_round b i j :: 'w::len cint list \<Rightarrow> _)
     (carry_int (2 ^ (b - 1)) b i j 1) (carry_iv LENGTH('w) (2 ^ (b - 1)) b i j 1)"
  by (rule step_okI, rule carry_within)

lemma step_ok_carry_floor:
  "step_ok (carry_floor b i j :: 'w::len cint list \<Rightarrow> _)
     (carry_int 0 b i j 1) (carry_iv LENGTH('w) 0 b i j 1)"
  by (rule step_okI, rule carry_within)

lemma step_ok_carry_round_mul:
  "step_ok (carry_round_mul b i j k :: 'w::len cint list \<Rightarrow> _)
     (carry_int (2 ^ (b - 1)) b i j k) (carry_iv LENGTH('w) (2 ^ (b - 1)) b i j k)"
  by (rule step_okI, rule carry_within)

lemmas step_oks = step_ok_seq step_ok_fold step_ok_set step_ok_addmul step_ok_submul
  step_ok_carry_round step_ok_carry_floor step_ok_carry_round_mul

lemma within_mono:
  assumes "within s v B" "length B = length B'"
    and "\<forall>i<length B. fst (B' ! i) \<le> fst (B ! i) \<and> snd (B ! i) \<le> snd (B' ! i)"
  shows "within s v B'"
proof (rule withinI)
  show "length s = length B'" "length v = length B'"
    using assms(1,2) by (auto dest: within_length)
  fix i assume "i < length B'"
  with assms show "s ! i = CI (v ! i) \<and> fst (B' ! i) \<le> v ! i \<and> v ! i \<le> snd (B' ! i)"
    using within_nth [of s v B i] within_nth_CI [of s v B i] by (force)
qed

section \<open>The number an array of limbs stands for\<close>

text \<open>Limb \<open>i\<close> has weight \<open>2 ^ e i\<close>; \<open>wsum e n v\<close> is the number in the first \<open>n\<close> limbs.\<close>

definition wsum :: "(nat \<Rightarrow> nat) \<Rightarrow> nat \<Rightarrow> int list \<Rightarrow> int" where
  "wsum e n v = (\<Sum>i<n. 2 ^ e i * v ! i)"

lemma wsum_0 [simp]: "wsum e 0 v = 0"
  by (simp add: wsum_def)

lemma wsum_Suc: "wsum e (Suc n) v = wsum e n v + 2 ^ e n * v ! n"
  by (simp add: wsum_def)

lemma wsum_update:
  assumes "i < length v"
  shows "wsum e n (v[i := x]) = wsum e n v + (if i < n then 2 ^ e i * (x - v ! i) else 0)"
proof (induction n)
  case (Suc n)
  then show ?case using assms
    by (cases "i = n") (auto simp: wsum_Suc algebra_simps)
qed simp

lemma length_carry_int [simp]: "length (carry_int r b i j k v) = length v"
  by (simp add: carry_int_def Let_def)

lemma length_addmul_int [simp]: "length (addmul_int j i k v) = length v"
  by (simp add: addmul_int_def)

lemma wsum_carry:
  assumes "i < n" "j < n" "n \<le> length v" "i \<noteq> j" "e j = e i + b"
  shows "wsum e n (carry_int r b i j 1 v) = wsum e n v"
  using assms by (simp add: carry_int_def Let_def wsum_update power_add algebra_simps)

lemma wsum_carry_wrap:
  assumes "i < n" "j < n" "n \<le> length v" "i \<noteq> j"
  shows "wsum e n (carry_int r b i j k v) =
    wsum e n v - (2 ^ (e i + b) - 2 ^ e j * k) * ((v ! i + r) div 2 ^ b)"
  using assms by (simp add: carry_int_def Let_def wsum_update power_add algebra_simps)

lemma wsum_addmul:
  assumes "j < n" "n \<le> length v"
  shows "wsum e n (addmul_int j i k v) = wsum e n v + 2 ^ e j * (k * v ! i)"
  using assms by (simp add: addmul_int_def wsum_update algebra_simps)

lemma addmul_int_nth [simp]: "i \<noteq> j \<Longrightarrow> addmul_int j i' k v ! i = v ! i"
  by (simp add: addmul_int_def)

lemma carry_int_nth_other [simp]: "m \<noteq> i \<Longrightarrow> m \<noteq> j \<Longrightarrow> carry_int r b i j k v ! m = v ! m"
  by (simp add: carry_int_def Let_def)

lemma carry_int_nth_src: "i < length v \<Longrightarrow> carry_int 0 b i j k v ! i = v ! i mod 2 ^ b"
  by (simp add: carry_int_def Let_def minus_mult_div_eq_mod)

lemma wsum_range:
  assumes "e 0 = 0" and "\<And>i. i < n \<Longrightarrow> 0 \<le> v ! i \<and> 2 ^ e i * (v ! i + 1) \<le> 2 ^ e (Suc i)"
  shows "0 \<le> wsum e n v \<and> wsum e n v < 2 ^ e n"
  using assms(2)
proof (induction n)
  case (Suc n)
  then have "0 \<le> wsum e n v" "wsum e n v < 2 ^ e n" "0 \<le> v ! n"
    "2 ^ e n * (v ! n + 1) \<le> 2 ^ e (Suc n)" by simp_all
  moreover have "0 \<le> 2 ^ e n * v ! n" using \<open>0 \<le> v ! n\<close> by simp
  ultimately show ?case unfolding wsum_Suc distrib_left by linarith
qed (simp add: assms)

text \<open>The bits of the number, limb by limb, when the limbs do not overlap.\<close>

lemma bit_wsum_Suc:
  assumes "e 0 = 0" and "\<And>i. i < n \<Longrightarrow> 0 \<le> v ! i \<and> 2 ^ e i * (v ! i + 1) \<le> 2 ^ e (Suc i)"
  shows "bit (wsum e (Suc n) v) m \<longleftrightarrow> (if m < e n then bit (wsum e n v) m else bit (v ! n) (m - e n))"
  using wsum_range [of e n v, OF assms] unfolding wsum_Suc by (simp add: bit_low_high)

text \<open>An output byte assembled from parts of two limbs.\<close>

lemma fits_nonneg: "0 \<le> a \<Longrightarrow> a < 2 ^ (w - 1) \<Longrightarrow> fits w a"
  by (auto simp: fits_def intro: order_trans [of _ 0])

lemma to_u8_shr:
  assumes "0 \<le> a" "a < 2 ^ (LENGTH('w) - 1)"
  shows "to_u8 (shr (CI a :: 'w::len cint) m) = Some (word_of_int (drop_bit m a))"
proof -
  have "fits LENGTH('w) (drop_bit m a)"
    using drop_bit_int_le [OF assms(1), of m] assms(2) by (intro fits_nonneg) linarith+
  then show ?thesis by (simp add: shr_def mk_fits)
qed

lemma to_u8_cor:
  assumes "0 \<le> a" "a < 2 ^ (LENGTH('w) - 1)" "8 < LENGTH('w)"
  shows "to_u8 (cor (shr (CI a :: 'w::len cint) m) (shl (CI b) n))
      = Some (word_of_int (drop_bit m a OR push_bit n b))"
proof -
  let ?s = "signed_take_bit (LENGTH('w) - 1) (push_bit n b)"
  have a: "fits LENGTH('w) (drop_bit m a)"
    using drop_bit_int_le [OF assms(1), of m] assms(2) by (intro fits_nonneg) linarith+
  then have "fits LENGTH('w) (drop_bit m a OR ?s)"
    by (intro fits_or fits_signed_take_bit)
  with a have "to_u8 (cor (shr (CI a :: 'w cint) m) (shl (CI b) n)) = Some (word_of_int (drop_bit m a OR ?s))"
    by (simp add: shr_def cor_def shl.simps mk_fits)
  also have "(word_of_int (drop_bit m a OR ?s) :: u8) = word_of_int (drop_bit m a OR push_bit n b)"
  proof (rule bit_word_eqI)
    fix k assume "k < LENGTH(8)"
    then have "min k (LENGTH('w) - 1) = k" "min (LENGTH('w) - 1) k = k" "k < LENGTH('w)"
      using assms(3) by simp_all
    then show "bit (word_of_int (drop_bit m a OR ?s) :: u8) k
        = bit (word_of_int (drop_bit m a OR push_bit n b) :: u8) k"
      by (auto simp: bit_simps)
  qed
  finally show ?thesis .
qed

section \<open>Comparing boxes, adding arrays\<close>

lemma length_fold [simp]: "(\<And>i v. length (f i v) = length v) \<Longrightarrow> length (fold f is v) = length v"
  by (induction "is" arbitrary: v) auto

lemma within_wsum:
  assumes "within s v B" "n \<le> length B"
  shows "wsum e n (map fst B) \<le> wsum e n v" "wsum e n v \<le> wsum e n (map snd B)"
  unfolding wsum_def using assms within_nth [OF assms(1)]
  by (auto intro!: sum_mono mult_left_mono)

lemma bit_mult_2: "bit (x * 2 :: int) n \<longleftrightarrow> n \<noteq> 0 \<and> bit x (n - 1)"
  using bit_double_iff [of x n] by (simp add: mult.commute)

text \<open>Whether every interval of one array lies in the corresponding interval of another.\<close>

fun iv_sub :: "ival list \<Rightarrow> ival list \<Rightarrow> bool" where
  "iv_sub [] [] = True"
| "iv_sub ((l, h) # B) ((l', h') # B') \<longleftrightarrow> l' \<le> l \<and> h \<le> h' \<and> iv_sub B B'"
| "iv_sub _ _ = False"

lemma within_iv_sub: "within s v B \<Longrightarrow> iv_sub B B' \<Longrightarrow> within s v B'"
  unfolding within_def
  by (induction B B' arbitrary: s v rule: iv_sub.induct) (auto simp: list_all2_Cons2)

fun step_into :: "ival list option \<Rightarrow> ival list \<Rightarrow> bool" where
  "step_into None B' = False"
| "step_into (Some B) B' = iv_sub B B'"

lemma step_ok_into: "step_ok F V A \<Longrightarrow> within s v B \<Longrightarrow> step_into (A B) B' \<Longrightarrow> within (F s) (V v) B'"
  by (cases "A B") (auto intro: within_iv_sub step_okD)

lemma within_map2_add:
  fixes s t :: "'w::len cint list"
  assumes "within s v B" "within t u C" "length B = length C"
    and "list_all (iv_fits LENGTH('w)) (map2 iv_add B C)"
  shows "within (map2 (+) s t) (map2 (+) v u) (map2 iv_add B C)"
proof (rule withinI)
  fix i assume i: "i < length (map2 iv_add B C)"
  have len: "length s = length B" "length v = length B" "length t = length C" "length u = length C"
    using assms(1,2) by (auto dest: within_length)
  have "iv_in (v ! i + u ! i) (iv_add (B ! i) (C ! i))"
    using assms i by (intro iv_in_add within_iv_in) auto
  moreover have "iv_fits LENGTH('w) (iv_add (B ! i) (C ! i))"
    using assms(4) i by (simp add: list_all_length)
  ultimately have "fits LENGTH('w) (v ! i + u ! i)" by (rule iv_in_fits)
  then show "map2 (+) s t ! i = CI (map2 (+) v u ! i) \<and> fst (map2 iv_add B C ! i) \<le> map2 (+) v u ! i
      \<and> map2 (+) v u ! i \<le> snd (map2 iv_add B C ! i)"
    using \<open>iv_in _ _\<close> i len within_nth_CI [OF assms(1)] within_nth_CI [OF assms(2)]
    by (simp add: iv_in_def plus_cint_def mk_fits)
qed (use within_length [OF assms(1)] within_length [OF assms(2)] assms(3) in simp_all)

lemma within_map2_minus:
  fixes s t :: "'w::len cint list"
  assumes "within s v B" "within t u C" "length B = length C"
    and "list_all (iv_fits LENGTH('w)) (map2 (\<lambda>I J. iv_add I (iv_scale (- 1) J)) B C)"
  shows "within (map2 (-) s t) (map2 (-) v u) (map2 (\<lambda>I J. iv_add I (iv_scale (- 1) J)) B C)"
proof (rule withinI)
  let ?D = "map2 (\<lambda>I J. iv_add I (iv_scale (- 1) J)) B C"
  fix i assume i: "i < length ?D"
  have len: "length s = length B" "length v = length B" "length t = length C" "length u = length C"
    using assms(1,2) by (auto dest: within_length)
  have "iv_in (v ! i + - 1 * u ! i) (iv_add (B ! i) (iv_scale (- 1) (C ! i)))"
    using assms i by (intro iv_in_add iv_in_scale within_iv_in) auto
  moreover have "iv_fits LENGTH('w) (iv_add (B ! i) (iv_scale (- 1) (C ! i)))"
    using assms(4) i by (simp add: list_all_length)
  ultimately have "fits LENGTH('w) (v ! i + - 1 * u ! i)" by (rule iv_in_fits)
  then show "map2 (-) s t ! i = CI (map2 (-) v u ! i) \<and> fst (?D ! i) \<le> map2 (-) v u ! i
      \<and> map2 (-) v u ! i \<le> snd (?D ! i)"
    using \<open>iv_in _ _\<close> i len within_nth_CI [OF assms(1)] within_nth_CI [OF assms(2)]
    by (simp add: iv_in_def minus_cint_def mk_fits)
qed (use within_length [OF assms(1)] within_length [OF assms(2)] assms(3) in simp_all)

lemma wsum_map2:
  "n \<le> length v \<Longrightarrow> n \<le> length u \<Longrightarrow> wsum e n (map2 (+) v u) = wsum e n v + wsum e n u"
  "n \<le> length v \<Longrightarrow> n \<le> length u \<Longrightarrow> wsum e n (map2 (-) v u) = wsum e n v - wsum e n u"
  by (simp_all add: wsum_def sum.distrib [symmetric] sum_subtractf [symmetric] algebra_simps)

end
