(* ===== verification/Scalars.thy ===== *)
theory Scalars
  imports CInt
begin

text \<open>
  The scalar arithmetic of crypto-ops.c: integers modulo the group order
  \<open>l = 2^252 + 27742317777372353535851937790883648493\<close>, kept in 32 bytes and computed
  with in limbs of 21 bits held in \<open>int64_t\<close>.
\<close>

section \<open>Loading limbs from bytes\<close>

definition load_3 :: "u8 list \<Rightarrow> nat \<Rightarrow> u64" where
  "load_3 s p =
     (let result = ucast (s ! p);
          result = result OR push_bit 8 (ucast (s ! (p + 1)));
          result = result OR push_bit 16 (ucast (s ! (p + 2)))
      in result)"

definition load_4 :: "u8 list \<Rightarrow> nat \<Rightarrow> u64" where
  "load_4 s p =
     (let result = ucast (s ! p);
          result = result OR push_bit 8 (ucast (s ! (p + 1)));
          result = result OR push_bit 16 (ucast (s ! (p + 2)));
          result = result OR push_bit 24 (ucast (s ! (p + 3)))
      in result)"

text \<open>The declarations \<open>int64_t s0 = 2097151 & load_3(s); \<dots>\<close>: the eleven limbs every
  operation on 32 bytes masks alike, then the limb above, unmasked, and the sixteen
  limbs \<open>sc_reduce\<close> loads from the upper half of its 64 bytes.\<close>

definition sc_load11 :: "u8 list \<Rightarrow> i64 list" where
  "sc_load11 s = map of_unsigned
     [2097151 AND load_3 s 0,
      2097151 AND drop_bit 5 (load_4 s 2),
      2097151 AND drop_bit 2 (load_3 s 5),
      2097151 AND drop_bit 7 (load_4 s 7),
      2097151 AND drop_bit 4 (load_4 s 10),
      2097151 AND drop_bit 1 (load_3 s 13),
      2097151 AND drop_bit 6 (load_4 s 15),
      2097151 AND drop_bit 3 (load_3 s 18),
      2097151 AND load_3 s 21,
      2097151 AND drop_bit 5 (load_4 s 23),
      2097151 AND drop_bit 2 (load_3 s 26)]"

definition sc_load32 :: "u8 list \<Rightarrow> i64 list" where
  "sc_load32 s = sc_load11 s @ [of_unsigned (drop_bit 7 (load_4 s 28))]"

definition sc_load64 :: "u8 list \<Rightarrow> i64 list" where
  "sc_load64 s = sc_load11 s @ map of_unsigned
     [2097151 AND drop_bit 7 (load_4 s 28),
      2097151 AND drop_bit 4 (load_4 s 31),
      2097151 AND drop_bit 1 (load_3 s 34),
      2097151 AND drop_bit 6 (load_4 s 36),
      2097151 AND drop_bit 3 (load_3 s 39),
      2097151 AND load_3 s 42,
      2097151 AND drop_bit 5 (load_4 s 44),
      2097151 AND drop_bit 2 (load_3 s 47),
      2097151 AND drop_bit 7 (load_4 s 49),
      2097151 AND drop_bit 4 (load_4 s 52),
      2097151 AND drop_bit 1 (load_3 s 55),
      2097151 AND drop_bit 6 (load_4 s 57),
      drop_bit 3 (load_4 s 60)]"

section \<open>Reduction steps\<close>

text \<open>\<open>s_{i-12} += s_i * 666643; \<dots>; s_{i-7} -= s_i * 683901;\<close>: since
  \<open>2^252 = - 27742317777372353535851937790883648493 (mod l)\<close>, limb \<open>i\<close> is moved 12 limbs down.\<close>

definition sc_fold :: "nat \<Rightarrow> i64 list \<Rightarrow> i64 list" where
  "sc_fold i s =
     (let s = addmul (i - 12) i 666643 s;
          s = addmul (i - 11) i 470296 s;
          s = addmul (i - 10) i 654183 s;
          s = submul (i - 9) i 997805 s;
          s = addmul (i - 8) i 136657 s;
          s = submul (i - 7) i 683901 s
      in s)"

text \<open>\<open>carry = (s_i + (1<<20)) >> 21; s_{i+1} += carry; s_i -= carry << 21;\<close> and the same
  without the rounding term.\<close>

definition sc_round :: "nat \<Rightarrow> i64 list \<Rightarrow> i64 list" where
  "sc_round i s = carry_round 21 i (Suc i) s"

definition sc_floor :: "nat \<Rightarrow> i64 list \<Rightarrow> i64 list" where
  "sc_floor i s = carry_floor 21 i (Suc i) s"

text \<open>The upper twelve of 24 limbs are folded into the lower ones (\<open>sc_reduce\<close>, and
  the same statements of \<open>sc_mulsub\<close>).\<close>

definition sc_head :: "i64 list \<Rightarrow> i64 list" where
  "sc_head s =
     (let s = fold sc_fold [23, 22, 21, 20, 19, 18] s;
          s = fold sc_round [6, 8, 10, 12, 14, 16] s;
          s = fold sc_round [7, 9, 11, 13, 15] s;
          s = fold sc_fold [17, 16, 15, 14, 13, 12] s
      in s[12 := CI 0])"

text \<open>Carries through the limbs 0 to 11, with limb 12 folded back twice (the end of every
  \<open>sc_\<close> operation).\<close>

definition sc_tail :: "i64 list \<Rightarrow> i64 list" where
  "sc_tail s =
     (let s = fold sc_round [0, 2, 4, 6, 8, 10] s;
          s = fold sc_round [1, 3, 5, 7, 9, 11] s;
          s = sc_fold 12 s;
          s = s[12 := CI 0];
          s = fold sc_floor [0..<12] s;
          s = sc_fold 12 s;
          s = fold sc_floor [0..<11] s
      in s)"

text \<open>\<open>s[0] = s0 >> 0; \<dots>; s[31] = s11 >> 17;\<close>\<close>

definition sc_pack :: "i64 list \<Rightarrow> u8 list option" where
  "sc_pack s = opts (map to_u8
     [shr (s ! 0) 0, shr (s ! 0) 8, cor (shr (s ! 0) 16) (shl (s ! 1) 5),
      shr (s ! 1) 3, shr (s ! 1) 11, cor (shr (s ! 1) 19) (shl (s ! 2) 2),
      shr (s ! 2) 6, cor (shr (s ! 2) 14) (shl (s ! 3) 7),
      shr (s ! 3) 1, shr (s ! 3) 9, cor (shr (s ! 3) 17) (shl (s ! 4) 4),
      shr (s ! 4) 4, shr (s ! 4) 12, cor (shr (s ! 4) 20) (shl (s ! 5) 1),
      shr (s ! 5) 7, cor (shr (s ! 5) 15) (shl (s ! 6) 6),
      shr (s ! 6) 2, shr (s ! 6) 10, cor (shr (s ! 6) 18) (shl (s ! 7) 3),
      shr (s ! 7) 5, shr (s ! 7) 13,
      shr (s ! 8) 0, shr (s ! 8) 8, cor (shr (s ! 8) 16) (shl (s ! 9) 5),
      shr (s ! 9) 3, shr (s ! 9) 11, cor (shr (s ! 9) 19) (shl (s ! 10) 2),
      shr (s ! 10) 6, cor (shr (s ! 10) 14) (shl (s ! 11) 7),
      shr (s ! 11) 1, shr (s ! 11) 9, shr (s ! 11) 17])"

section \<open>The operations\<close>

definition sc_reduce :: "u8 list \<Rightarrow> u8 list option" where
  "sc_reduce s = sc_pack (sc_tail (sc_head (sc_load64 s)))"

definition sc_reduce32 :: "u8 list \<Rightarrow> u8 list option" where
  "sc_reduce32 s = sc_pack (sc_tail (sc_load32 s @ [CI 0]))"

definition sc_add :: "u8 list \<Rightarrow> u8 list \<Rightarrow> u8 list option" where
  "sc_add a b = sc_pack (sc_tail (map2 (+) (sc_load32 a) (sc_load32 b) @ [CI 0]))"

definition sc_sub :: "u8 list \<Rightarrow> u8 list \<Rightarrow> u8 list option" where
  "sc_sub a b = sc_pack (sc_tail (map2 (-) (sc_load32 a) (sc_load32 b) @ [CI 0]))"

definition sc_0 :: "u8 list" where
  "sc_0 = map (\<lambda>i. 0) [0..<32]"

text \<open>The products of \<open>sc_mulsub\<close>, \<open>s0 = c0 - a0*b0; \<dots>; s22 = -a11*b11; s23 = 0\<close>.
  \<open>col a b is j\<close> is the sum \<open>a_{i} * b_{j-i} + \<dots>\<close> over the indices \<open>is\<close> in the source's order.\<close>

fun col :: "i64 list \<Rightarrow> i64 list \<Rightarrow> nat \<Rightarrow> nat list \<Rightarrow> i64" where
  "col a b k [] = CI 0"
| "col a b k (i # is) = fold (\<lambda>i acc. acc + a ! i * b ! (k - i)) is (a ! i * b ! (k - i))"

definition sc_mulsub_products :: "i64 list \<Rightarrow> i64 list \<Rightarrow> i64 list \<Rightarrow> i64 list" where
  "sc_mulsub_products a b c =
     map (\<lambda>k. c ! k - col a b k [0..<Suc k]) [0..<12] @
     map (\<lambda>k. - col a b k [k - 11..<12]) [12..<22] @
     [- (a ! 11) * b ! 11, CI 0]"

definition sc_mulsub_carry :: "i64 list \<Rightarrow> i64 list" where
  "sc_mulsub_carry s =
     (let s = fold sc_round [0, 2, 4, 6, 8, 10, 12, 14, 16, 18, 20, 22] s
      in fold sc_round [1, 3, 5, 7, 9, 11, 13, 15, 17, 19, 21] s)"

text \<open>The rest of \<open>sc_mulsub\<close> repeats the statements of \<open>sc_reduce\<close>.\<close>

definition sc_mulsub_finish :: "i64 list \<Rightarrow> u8 list option" where
  "sc_mulsub_finish s = sc_pack (sc_tail (sc_head s))"

definition sc_mulsub :: "u8 list \<Rightarrow> u8 list \<Rightarrow> u8 list \<Rightarrow> u8 list option" where
  "sc_mulsub a b c =
     sc_mulsub_finish (sc_mulsub_carry (sc_mulsub_products (sc_load32 a) (sc_load32 b) (sc_load32 c)))"

text \<open>\<open>signum\<close>, \<open>sc_check\<close> and \<open>sc_isnonzero\<close>. The first two compute in \<open>int64_t\<close>.\<close>

definition signum :: "i64 \<Rightarrow> i64" where
  "signum a = shr a 63 - shr (- a) 63"

definition sc_check :: "u8 list \<Rightarrow> i32" where
  "sc_check s =
     (let s0 = of_unsigned (load_4 s 0);
          s1 = of_unsigned (load_4 s 4);
          s2 = of_unsigned (load_4 s 8);
          s3 = of_unsigned (load_4 s 12);
          s4 = of_unsigned (load_4 s 16);
          s5 = of_unsigned (load_4 s 20);
          s6 = of_unsigned (load_4 s 24);
          s7 = of_unsigned (load_4 s 28)
      in ccast (shr (signum (CI 1559614444 - s0) + shl (signum (CI 1477600026 - s1)) 1 +
              shl (signum (CI 2734136534 - s2)) 2 + shl (signum (CI 350157278 - s3)) 3 +
              shl (signum (- s4)) 4 + shl (signum (- s5)) 5 + shl (signum (- s6)) 6 +
              shl (signum (CI 268435456 - s7)) 7) 8))"

definition sc_isnonzero :: "u8 list \<Rightarrow> i32" where
  "sc_isnonzero s =
     shr (of_unsigned (fold (\<lambda>i acc. acc OR s ! i) [1..<32] (s ! 0)) - CI 1) 8 + CI 1"

section \<open>What the limbs are\<close>

lemma load_3_bytes:
  assumes "p + 3 \<le> length s"
  shows "uint (load_3 s p) = le_val (take 3 (drop p s))"
proof -
  have b: "uint (s ! i) < 2 ^ 8" for i using uint_bounded [of "s ! i"] by simp
  have "uint (load_3 s p) = (uint (s ! p) OR push_bit 8 (uint (s ! (p + 1)))) OR push_bit 16 (uint (s ! (p + 2)))"
    by (simp add: load_3_def unsigned_or_eq unsigned_ucast_eq unsigned_push_bit_eq take_bit_push_bit take_bit_byte)
  then show ?thesis
    using assms b [of p] b [of "p + 1"]
    by (simp add: or_push_bit_add take_Suc_drop_nth numeral_3_eq_3)
qed

lemma load_3_field:
  assumes "p + 3 \<le> length s"
  shows "uint (load_3 s p) = take_bit 24 (drop_bit (8 * p) (le_val s))"
  using le_val_field [of 3 p s] load_3_bytes [OF assms] by simp

lemma load_4_field:
  assumes "p + 4 \<le> length s"
  shows "uint (load_4 s p) = take_bit 32 (drop_bit (8 * p) (le_val s))"
proof -
  have l3: "uint (load_3 s p) = le_val (take 3 (drop p s))"
    using assms by (intro load_3_bytes) simp
  have small: "le_val (take 3 (drop p s)) < 2 ^ 24"
    using le_val_less [of "take 3 (drop p s)"] assms by simp
  have "load_4 s p = load_3 s p OR push_bit 24 (ucast (s ! (p + 3)))"
    by (simp add: load_4_def load_3_def Let_def)
  then have "uint (load_4 s p) = le_val (take 3 (drop p s)) OR push_bit 24 (uint (s ! (p + 3)))"
    by (simp add: unsigned_or_eq unsigned_ucast_eq unsigned_push_bit_eq take_bit_push_bit take_bit_byte l3)
  also have "\<dots> = le_val (take 3 (drop p s)) + 2 ^ 24 * uint (s ! (p + 3))"
    using small by (rule or_push_bit_add [OF le_val_nonneg])
  also have "\<dots> = le_val (take 4 (drop p s))"
    using assms by (simp add: take_Suc_drop_nth eval_nat_numeral)
  finally show ?thesis using le_val_field [of 4 p s] by simp
qed

lemma limb_field:
  fixes w :: u64
  assumes "uint w = take_bit a (drop_bit p N)" "m + 21 \<le> a"
  shows "(of_unsigned (2097151 AND drop_bit m w) :: i64) = CI (take_bit 21 (drop_bit (p + m) N))"
proof -
  have "21 \<le> a - m" using assms(2) by simp
  have "(2097151 :: u64) AND drop_bit m w = take_bit 21 (drop_bit m w)"
    by (simp add: take_bit_eq_mask mask_eq_exp_minus_1 and.commute)
  then have "uint (2097151 AND drop_bit m w) = take_bit 21 (drop_bit m (uint w))"
    by (simp only: uint_take_bit uint_drop_bit)
  also have "\<dots> = take_bit 21 (drop_bit (p + m) N)"
    using assms(1) \<open>21 \<le> a - m\<close> by (simp add: drop_bit_take_bit add.commute min_absorb1)
  finally have u: "uint (2097151 AND drop_bit m w) = take_bit 21 (drop_bit (p + m) N)" .
  have "take_bit 21 (drop_bit (p + m) N) < 2 ^ 21" by (rule take_bit_int_less_exp)
  with u show ?thesis by (subst of_unsigned_less) simp_all
qed

lemma top_field:
  fixes w :: u64
  assumes "uint w = take_bit a (drop_bit p N)" "N < 2 ^ (p + a)" "0 \<le> N" "a \<le> 32"
  shows "(of_unsigned (drop_bit m w) :: i64) = CI (drop_bit (p + m) N)"
proof -
  have "uint w = drop_bit p (take_bit (p + a) N)"
    using assms(1) by (simp add: drop_bit_take_bit)
  then have w: "uint w = drop_bit p N"
    using assms(2,3) by (simp add: take_bit_int_eq_self)
  have "uint w < 2 ^ a" using assms(1) by simp
  also have "\<dots> \<le> (2::int) ^ 32" using assms(4) by (intro power_increasing) simp_all
  finally have "uint w < 2 ^ 32" .
  then have "uint (drop_bit m w) < 2 ^ 63"
    using drop_bit_int_le [of "uint w" m] by (simp add: uint_drop_bit)
  moreover have "uint (drop_bit m w) = drop_bit (p + m) N"
    by (simp add: uint_drop_bit w add.commute)
  ultimately show ?thesis by (subst of_unsigned_less) simp_all
qed

lemma sc_load11_fields:
  "length s \<ge> 32 \<Longrightarrow> sc_load11 s = map (\<lambda>i. CI (take_bit 21 (drop_bit (21 * i) (le_val s)))) [0..<11]"
  using limb_field [OF load_3_field, where m = 0, of 0 s] limb_field [OF load_3_field, where m = 0, of 21 s]
  by (simp add: sc_load11_def limb_field [OF load_3_field] limb_field [OF load_4_field] upt_conv_Cons)

lemma sc_load32_fields:
  assumes "length s = 32"
  shows "sc_load32 s = map (\<lambda>i. CI (take_bit 21 (drop_bit (21 * i) (le_val s)))) [0..<11]
    @ [CI (drop_bit 231 (le_val s))]"
  using le_val_less [of s] assms
  by (simp add: sc_load32_def sc_load11_fields top_field [OF load_4_field])

lemma sc_load64_fields:
  assumes "length s = 64"
  shows "sc_load64 s = map (\<lambda>i. CI (take_bit 21 (drop_bit (21 * i) (le_val s)))) [0..<23]
    @ [CI (drop_bit 483 (le_val s))]"
  using le_val_less [of s] assms limb_field [OF load_3_field, where m = 0, of 42 s]
  by (simp add: sc_load64_def sc_load11_fields top_field [OF load_4_field] 
      limb_field [OF load_3_field] limb_field [OF load_4_field] upt_conv_Cons)
end
