(* ===== verification/Scalar_Proofs.thy ===== *)
theory Scalar_Proofs
  imports Scalars
begin

text \<open>
  The scalar operations compute modulo \<open>l\<close>. Each phase of \<open>Scalars\<close> has an integer
  version (\<open>sc_\<dots>_int\<close>, the effect on the limb values) and an interval version
  (\<open>sc_\<dots>_iv\<close>, an analysis that also checks that every intermediate value fits
  \<open>int64_t\<close>); \<open>step_ok\<close> connects the three. The number in the limbs is kept modulo \<open>l\<close> by
  every phase, and the last one makes it canonical.
\<close>

section \<open>The phases on integers and on intervals\<close>

definition sc_fold_int :: "nat \<Rightarrow> int list \<Rightarrow> int list" where
  "sc_fold_int i = addmul_int (i - 7) i (- 683901) \<circ> addmul_int (i - 8) i 136657 \<circ>
     addmul_int (i - 9) i (- 997805) \<circ> addmul_int (i - 10) i 654183 \<circ>
     addmul_int (i - 11) i 470296 \<circ> addmul_int (i - 12) i 666643"

definition sc_fold_iv :: "nat \<Rightarrow> ival list \<Rightarrow> ival list option" where
  "sc_fold_iv i = seq_iv (addmul_iv 64 (i - 12) i 666643) (seq_iv (addmul_iv 64 (i - 11) i 470296)
     (seq_iv (addmul_iv 64 (i - 10) i 654183) (seq_iv (addmul_iv 64 (i - 9) i (- 997805))
     (seq_iv (addmul_iv 64 (i - 8) i 136657) (addmul_iv 64 (i - 7) i (- 683901))))))"

lemma step_ok_addmul64: "step_ok (addmul j i k :: i64 list \<Rightarrow> _) (addmul_int j i k) (addmul_iv 64 j i k)"
  using step_ok_addmul [where 'w = 64] by simp

lemma step_ok_submul64: "step_ok (submul j i k :: i64 list \<Rightarrow> _) (addmul_int j i (- k)) (addmul_iv 64 j i (- k))"
  using step_ok_submul [where 'w = 64] by simp

lemma sc_fold_comp: "sc_fold i = submul (i - 7) i 683901 \<circ> addmul (i - 8) i 136657 \<circ>
     submul (i - 9) i 997805 \<circ> addmul (i - 10) i 654183 \<circ>
     addmul (i - 11) i 470296 \<circ> addmul (i - 12) i 666643"
  by (rule ext) (simp add: sc_fold_def)

lemma step_ok_sc_fold: "step_ok (sc_fold i) (sc_fold_int i) (sc_fold_iv i)"
  unfolding sc_fold_comp sc_fold_int_def sc_fold_iv_def
  by (intro step_ok_seq step_ok_addmul64 step_ok_submul64)

definition sc_round_int where "sc_round_int i = carry_int (2 ^ 20) 21 i (Suc i) 1"

definition sc_floor_int where "sc_floor_int i = carry_int 0 21 i (Suc i) 1"

definition sc_round_iv where "sc_round_iv i = carry_iv 64 (2 ^ 20) 21 i (Suc i) 1"

definition sc_floor_iv where "sc_floor_iv i = carry_iv 64 0 21 i (Suc i) 1"

lemma step_ok_sc_round: "step_ok (sc_round i) (sc_round_int i) (sc_round_iv i)"
  using step_ok_carry_round [of 21 i "Suc i", where 'w = 64]
  by (simp add: sc_round_def [abs_def] sc_round_int_def sc_round_iv_def)

lemma step_ok_sc_floor: "step_ok (sc_floor i) (sc_floor_int i) (sc_floor_iv i)"
  using step_ok_carry_floor [of 21 i "Suc i", where 'w = 64]
  by (simp add: sc_floor_def [abs_def] sc_floor_int_def sc_floor_iv_def)

lemmas sc_steps = step_ok_seq step_ok_fold step_ok_set step_ok_sc_fold step_ok_sc_round step_ok_sc_floor

definition sc_head_int where
  "sc_head_int = (\<lambda>v. v[12 := 0]) \<circ> fold sc_fold_int [17, 16, 15, 14, 13, 12] \<circ>
     fold sc_round_int [7, 9, 11, 13, 15] \<circ> fold sc_round_int [6, 8, 10, 12, 14, 16] \<circ>
     fold sc_fold_int [23, 22, 21, 20, 19, 18]"

definition sc_head_iv where
  "sc_head_iv = seq_iv (fold_iv sc_fold_iv [23, 22, 21, 20, 19, 18])
     (seq_iv (fold_iv sc_round_iv [6, 8, 10, 12, 14, 16])
     (seq_iv (fold_iv sc_round_iv [7, 9, 11, 13, 15])
     (seq_iv (fold_iv sc_fold_iv [17, 16, 15, 14, 13, 12]) (set_iv 12 0))))"

lemma sc_head_comp:
  "sc_head = (\<lambda>s. s[12 := CI 0]) \<circ> fold sc_fold [17, 16, 15, 14, 13, 12] \<circ>
     fold sc_round [7, 9, 11, 13, 15] \<circ> fold sc_round [6, 8, 10, 12, 14, 16] \<circ>
     fold sc_fold [23, 22, 21, 20, 19, 18]"
  by (rule ext) (simp add: sc_head_def)

lemma step_ok_sc_head: "step_ok sc_head sc_head_int sc_head_iv"
  unfolding sc_head_comp sc_head_int_def sc_head_iv_def by (intro sc_steps)

definition sc_tail1_int where
  "sc_tail1_int = (\<lambda>v. v[12 := 0]) \<circ> sc_fold_int 12 \<circ>
     fold sc_round_int [1, 3, 5, 7, 9, 11] \<circ> fold sc_round_int [0, 2, 4, 6, 8, 10]"

definition sc_tail1_iv where
  "sc_tail1_iv = seq_iv (fold_iv sc_round_iv [0, 2, 4, 6, 8, 10])
     (seq_iv (fold_iv sc_round_iv [1, 3, 5, 7, 9, 11]) (seq_iv (sc_fold_iv 12) (set_iv 12 0)))"

definition sc_tail2_int where
  "sc_tail2_int = fold sc_floor_int [0..<11] \<circ> sc_fold_int 12 \<circ> fold sc_floor_int [0..<12]"

definition sc_tail2_iv where
  "sc_tail2_iv = seq_iv (fold_iv sc_floor_iv [0..<12])
     (seq_iv (sc_fold_iv 12) (fold_iv sc_floor_iv [0..<11]))"

lemma sc_tail_comp:
  "sc_tail = (fold sc_floor [0..<11] \<circ> sc_fold 12 \<circ> fold sc_floor [0..<12]) \<circ>
     ((\<lambda>s. s[12 := CI 0]) \<circ> sc_fold 12 \<circ>
     fold sc_round [1, 3, 5, 7, 9, 11] \<circ> fold sc_round [0, 2, 4, 6, 8, 10])"
  by (rule ext) (simp only: sc_tail_def Let_def comp_apply)

lemma step_ok_sc_tail: "step_ok sc_tail (sc_tail2_int \<circ> sc_tail1_int) (seq_iv sc_tail1_iv sc_tail2_iv)"
  unfolding sc_tail_comp sc_tail1_int_def sc_tail1_iv_def sc_tail2_int_def sc_tail2_iv_def
  by (intro sc_steps)

lemma step_ok_sc_tail1: "step_ok ((\<lambda>s. s[12 := CI 0]) \<circ> sc_fold 12 \<circ>
     fold sc_round [1, 3, 5, 7, 9, 11] \<circ> fold sc_round [0, 2, 4, 6, 8, 10]) sc_tail1_int sc_tail1_iv"
  unfolding sc_tail1_int_def sc_tail1_iv_def by (intro sc_steps)

abbreviation sc_num :: "nat \<Rightarrow> int list \<Rightarrow> int" where
  "sc_num \<equiv> wsum (\<lambda>i. 21 * i)"

definition sc_l :: int where
  "sc_l = 2 ^ 252 + 27742317777372353535851937790883648493"

lemma length_sc_ints [simp]:
  "length (sc_fold_int i v) = length v" "length (sc_round_int i v) = length v"
  "length (sc_floor_int i v) = length v"
  by (simp_all add: sc_fold_int_def sc_round_int_def sc_floor_int_def)

lemma sc_num_round: "Suc i < n \<Longrightarrow> n \<le> length v \<Longrightarrow> sc_num n (sc_round_int i v) = sc_num n v"
  "Suc i < n \<Longrightarrow> n \<le> length v \<Longrightarrow> sc_num n (sc_floor_int i v) = sc_num n v"
  by (simp_all add: sc_round_int_def sc_floor_int_def wsum_carry)

lemma sc_num_fold_round:
  "\<forall>i\<in>set is. Suc i < n \<Longrightarrow> n \<le> length v \<Longrightarrow> sc_num n (fold sc_round_int is v) = sc_num n v"
  "\<forall>i\<in>set is. Suc i < n \<Longrightarrow> n \<le> length v \<Longrightarrow> sc_num n (fold sc_floor_int is v) = sc_num n v"
  by (induction "is" arbitrary: v) (simp_all add: sc_num_round)

lemma sc_num_fold:
  assumes "12 \<le> i" "i < length v"
  shows "sc_num i (sc_fold_int i v) = sc_num (Suc i) v - 2 ^ (21 * (i - 12)) * sc_l * v ! i"
proof -
  obtain k where k: "i = k + 12" using assms(1) by (metis add.commute le_Suc_ex)
  have p: "(2::int) ^ (21 * (k + 12)) = 2 ^ (21 * k) * 2 ^ 252" for k
    by (simp add: power_add distrib_left)
  show ?thesis
    using assms wsum_Suc [of "\<lambda>i. 21 * i" "k + 12" v] unfolding sc_fold_int_def k
    by (simp add: wsum_addmul sc_l_def p distrib_left power_add algebra_simps)
qed

lemma sc_fold_mod:
  assumes "12 \<le> i" "i < length v"
  shows "sc_num i (sc_fold_int i v) mod sc_l = sc_num (i + 1) v mod sc_l"
proof -
  have "sc_num i (sc_fold_int i v) = sc_num (i + 1) v + (- (2 ^ (21 * (i - 12)) * v ! i)) * sc_l"
    using sc_num_fold [OF assms] by simp
  then show ?thesis by (simp only: mod_mult_self1)
qed

lemma sc_head_mod:
  assumes "length v = 24"
  shows "sc_num 13 (sc_head_int v) mod sc_l = sc_num 24 v mod sc_l"
proof -
  have "sc_head_int v ! 12 = 0" using assms by (simp add: sc_head_int_def)
  then have "sc_num 13 (sc_head_int v) = sc_num 12 (sc_head_int v)"
    using wsum_Suc [of "\<lambda>i. 21 * i" 12 "sc_head_int v"] by simp
  then show ?thesis
    using assms by (simp add: sc_head_int_def sc_fold_mod sc_num_round wsum_update)
qed

lemma sc_floor_limbs:
  assumes "n < length v" "i < n"
  shows "0 \<le> fold sc_floor_int [0..<n] v ! i \<and> fold sc_floor_int [0..<n] v ! i < 2 ^ 21"
  using assms
proof (induction n)
  case (Suc n)
  let ?w = "fold sc_floor_int [0..<n] v"
  have eq: "fold sc_floor_int [0..<Suc n] v = sc_floor_int n ?w" by simp
  show ?case
  proof (cases "i = n")
    case True
    then show ?thesis using Suc.prems unfolding eq
      by (simp add: sc_floor_int_def carry_int_nth_src)
  next
    case False
    then have "sc_floor_int n ?w ! i = ?w ! i"
      using Suc.prems by (simp add: sc_floor_int_def [of n])
    with False show ?thesis using Suc unfolding eq by simp
  qed
qed simp

text \<open>The last phase: the value lies in \<open>[- 2^252, 2^252)\<close>, limb 12 receives its quotient by
  \<open>2^252\<close>, 0 or -1, and folding it back makes the value canonical.\<close>

lemma sc_tail2_canonical:
  assumes len: "13 \<le> length v" and z: "v ! 12 = 0"
    and V: "- (2 ^ 252) \<le> sc_num 12 v" "sc_num 12 v < 2 ^ 252"
  defines "w \<equiv> sc_tail2_int v"
  shows "sc_num 12 w = sc_num 12 v mod sc_l"
    and "\<And>i. i < 11 \<Longrightarrow> 0 \<le> w ! i \<and> w ! i < 2 ^ 21" "0 \<le> w ! 11 \<and> w ! 11 < 2 ^ 22"
proof -
  define a where "a = fold sc_floor_int [0..<12] v"
  define b where "b = sc_fold_int 12 a"
  have w: "w = fold sc_floor_int [0..<11] b"
    by (simp only: w_def a_def b_def sc_tail2_int_def comp_apply)
  have lens: "length a = length v" "length b = length v" by (simp_all add: a_def b_def)
  let ?V = "sc_num 12 v"
  have r21: "2 ^ (21 * i) * (x + 1) \<le> (2::int) ^ (21 * Suc i)" if "x < 2 ^ 21" for i x
    using that by (simp add: power_add)
  have "0 \<le> sc_num 12 a \<and> sc_num 12 a < 2 ^ (21 * 12)"
    using sc_floor_limbs [of 12 v] len r21 by (intro wsum_range) (auto simp: a_def)
  then have a12: "0 \<le> sc_num 12 a" "sc_num 12 a < 2 ^ 252" by simp_all
  have "sc_num 13 a = sc_num 13 v"
    unfolding a_def using len by (intro sc_num_fold_round) auto
  also have "\<dots> = ?V" using wsum_Suc [of "\<lambda>i. 21 * i" 12 v] z by simp
  finally have a13: "sc_num 13 a = ?V" .
  then have split: "?V = sc_num 12 a + 2 ^ 252 * a ! 12"
    using wsum_Suc [of "\<lambda>i. 21 * i" 12 a] by simp
  have "sc_num 12 w = sc_num 12 b"
    unfolding w using len lens by (intro sc_num_fold_round) auto
  also have "\<dots> = ?V - sc_l * a ! 12"
    using sc_num_fold [of 12 a] a13 len lens by (simp add: b_def)
  finally have val: "sc_num 12 w = ?V - sc_l * a ! 12" .
  have "- 1 \<le> a ! 12" "a ! 12 \<le> 0" using split a12 V by simp_all
  then have "a ! 12 = 0 \<or> a ! 12 = - 1" by linarith
  then have rng: "0 \<le> sc_num 12 w \<and> sc_num 12 w < sc_l"
    using val split a12 V by (auto simp: sc_l_def)
  then have "sc_num 12 w = sc_num 12 w mod sc_l" by simp
  also have "\<dots> = (?V + (- (a ! 12)) * sc_l) mod sc_l" unfolding val by (simp add: mult.commute [of sc_l])
  also have "\<dots> = ?V mod sc_l" by (rule mod_mult_self1)
  finally show "sc_num 12 w = sc_num 12 v mod sc_l" .
  show lo: "0 \<le> w ! i \<and> w ! i < 2 ^ 21" if "i < 11" for i
    unfolding w using sc_floor_limbs [of 11 b i] len lens that by simp
  have "0 \<le> sc_num 11 w \<and> sc_num 11 w < 2 ^ (21 * 11)"
    using lo r21 by (intro wsum_range) auto
  moreover have "sc_num 12 w = sc_num 11 w + 2 ^ 231 * w ! 11"
    using wsum_Suc [of "\<lambda>i. 21 * i" 11 w] by simp
  ultimately show "0 \<le> w ! 11 \<and> w ! 11 < 2 ^ 22"
    using rng unfolding sc_l_def by simp
qed

lemma sc_pack_bytes:
  assumes len: "12 \<le> length v"
    and lo: "\<And>i. i < 11 \<Longrightarrow> 0 \<le> v ! i \<and> v ! i < 2 ^ 21" and hi: "0 \<le> v ! 11 \<and> v ! 11 < 2 ^ 22"
  shows "sc_pack (map CI v) = Some (le_bytes 32 (sc_num 12 v))"
proof -
  have nth: "map CI v ! i = CI (v ! i)" if "i < 12" for i using that len by simp
  have rng: "0 \<le> v ! i" "v ! i < 2 ^ 22" if "i < 12" for i
    using lo [of i] hi that by (cases "i = 11"; simp)+
  have top: "\<not> bit (v ! i) m" if "i < 11" "21 \<le> m" for i m
    using lo [of i] bit_int_above [of "v ! i" 21 m] that by simp
  have r21: "2 ^ (21 * i) * (x + 1) \<le> (2::int) ^ (21 * Suc i)" if "x < 2 ^ 21" for i x
    using that by (simp add: power_add)
  have bits: "bit (sc_num (Suc n) v) m \<longleftrightarrow>
      (if m < 21 * n then bit (sc_num n v) m else bit (v ! n) (m - 21 * n))" if "n < 12" for n m
    using lo r21 that by (intro bit_wsum_Suc) auto
  have one: "to_u8 (shr (CI (v ! i) :: i64) m) = Some (word_of_int (drop_bit m (v ! i)))"
    if "i < 12" for i m
    using rng [of i] that by (intro to_u8_shr) simp_all
  have two: "to_u8 (cor (shr (CI (v ! i) :: i64) m) (shl (CI (v ! j)) k))
       = Some (word_of_int (drop_bit m (v ! i) OR push_bit k (v ! j)))"
    if "i < 12" for i j k m
    using rng [of i] that by (intro to_u8_cor) simp_all
  have b2: "bit (sc_num 2 v) m \<longleftrightarrow> (if m < 21 then bit (sc_num (Suc 0) v) m else bit (v ! Suc 0) (m - 21))" for m
    using bits [of 1 m] by (simp add: numeral_2_eq_2)
  note limbs = bits [of 0, simplified] b2 bits [of 2, simplified]
    bits [of 3, simplified] bits [of 4, simplified] bits [of 5, simplified] bits [of 6, simplified]
    bits [of 7, simplified] bits [of 8, simplified] bits [of 9, simplified] bits [of 10, simplified]
    bits [of 11, simplified]
  show ?thesis
    by (simp add: sc_pack_def nth one two le_bytes_def upt_conv_Cons del: to_unsigned.simps)
      (intro conjI; rule byte_eqI; simp add: bit_simps limbs top bit_mult_2;
        simp add: numeral_2_eq_2 numeral_3_eq_3)
qed

text \<open>The bounds under which the final phases are exact, as an executable check.\<close>

definition sc_tail_check :: "ival list \<Rightarrow> bool" where
  "sc_tail_check B = (case sc_tail1_iv B of None \<Rightarrow> False
     | Some C \<Rightarrow> 13 \<le> length C \<and> C ! 12 = (0, 0) \<and> - (2 ^ 252) \<le> sc_num 12 (map fst C) \<and>
         sc_num 12 (map snd C) < 2 ^ 252 \<and> sc_tail2_iv C \<noteq> None)"

lemma length_sc_tail [simp]: "length (sc_tail1_int v) = length v" "length (sc_tail2_int v) = length v"
  by (simp_all add: sc_tail1_int_def sc_tail2_int_def)

lemma sc_tail1_mod:
  "13 \<le> length v \<Longrightarrow> sc_num 12 (sc_tail1_int v) mod sc_l = sc_num 13 v mod sc_l"
  by (simp add: sc_tail1_int_def sc_fold_mod sc_num_round wsum_update)

lemma sc_tail_pack:
  assumes w: "within s v B" and ok: "sc_tail_check B"
  shows "sc_pack (sc_tail s) = Some (le_bytes 32 (sc_num 13 v mod sc_l))"
proof -
  from ok obtain C D where C: "sc_tail1_iv B = Some C" "13 \<le> length C" "C ! 12 = (0, 0)"
      "- (2 ^ 252) \<le> sc_num 12 (map fst C)" "sc_num 12 (map snd C) < 2 ^ 252"
    and D: "sc_tail2_iv C = Some D"
    by (auto simp: sc_tail_check_def split: option.splits)
  let ?u = "sc_tail1_int v"
  have wu: "within (((\<lambda>s. s[12 := CI 0]) \<circ> sc_fold 12 \<circ> fold sc_round [1, 3, 5, 7, 9, 11]
      \<circ> fold sc_round [0, 2, 4, 6, 8, 10]) s) ?u C"
    using step_okD [OF step_ok_sc_tail1 w C(1)] .
  have "seq_iv sc_tail1_iv sc_tail2_iv B = Some D" by (simp add: seq_iv_def C D)
  from step_okD [OF step_ok_sc_tail w this]
  have s': "sc_tail s = map CI (sc_tail2_int ?u)" by (simp add: within_def)
  have len: "13 \<le> length v" using within_length [OF wu] C(2) by simp
  have u12: "?u ! 12 = 0" using within_nth [OF wu, of 12] C by simp
  have V: "- (2 ^ 252) \<le> sc_num 12 ?u" "sc_num 12 ?u < 2 ^ 252"
    using within_wsum [OF wu, of 12 "\<lambda>i. 21 * i"] C by simp_all
  note c = sc_tail2_canonical [OF _ u12 V]
  have "sc_pack (map CI (sc_tail2_int ?u)) = Some (le_bytes 32 (sc_num 12 (sc_tail2_int ?u)))"
    using c(2,3) len by (intro sc_pack_bytes) simp_all
  also have "sc_num 12 (sc_tail2_int ?u) = sc_num 13 v mod sc_l"
    using c(1) len sc_tail1_mod [OF len] by simp
  finally show ?thesis unfolding s' .
qed

definition tail_box :: "ival list" where
  "tail_box = replicate 12 (- (2 ^ 58), 2 ^ 58) @ [(0, 0)]"

definition tail_box24 :: "ival list" where
  "tail_box24 = tail_box @ replicate 11 (- (2 ^ 62), 2 ^ 62)"

lemma sc_tail_check_boxes: "sc_tail_check tail_box" "sc_tail_check tail_box24"
  by code_simp+

subsection \<open>Loaded values\<close>

definition int_limbs :: "nat \<Rightarrow> int \<Rightarrow> int list" where
  "int_limbs n N = map (\<lambda>i. take_bit 21 (drop_bit (21 * i) N)) [0..<n] @ [drop_bit (21 * n) N]"

lemma sc_num_int_limbs: "sc_num (Suc n) (int_limbs n N) = N"
proof -
  have "sc_num k (int_limbs n N) = take_bit (21 * k) N" if "k \<le> n" for k
    using that
  proof (induction k)
    case (Suc k)
    have "take_bit (21 * Suc k) N = take_bit (21 * k) N + 2 ^ (21 * k) * take_bit 21 (drop_bit (21 * k) N)"
      using zmod_zmult2_eq [of "2 ^ 21" N "2 ^ (21 * k)"]
      by (simp add: take_bit_eq_mod drop_bit_eq_div power_add mult.commute)
    then show ?case using Suc by (simp add: wsum_Suc int_limbs_def nth_append)
  qed simp
  from this [of n] show ?thesis
    by (simp add: wsum_Suc int_limbs_def nth_append take_bit_eq_mod drop_bit_eq_div)
qed

lemma int_limbs_within:
  assumes "0 \<le> N" "N < 2 ^ (21 * n + k)"
  shows "within (map CI (int_limbs n N)) (int_limbs n N) (replicate n (0, 2 ^ 21 - 1) @ [(0, 2 ^ k - 1)])"
proof (rule withinI)
  have top: "drop_bit (21 * n) N < 2 ^ k" "0 \<le> drop_bit (21 * n) N"
  proof -
    have "drop_bit (21 * n) N = take_bit k (drop_bit (21 * n) N)"
      using assms drop_bit_take_bit [of "21 * n" "21 * n + k" N] by (simp add: take_bit_int_eq_self)
    then show "drop_bit (21 * n) N < 2 ^ k" by (metis take_bit_int_less_exp)
  qed (use assms in simp)
  have fld: "0 \<le> take_bit 21 (x::int) \<and> take_bit 21 x \<le> 2097151" for x
    using take_bit_int_less_exp [of 21 x] by simp
  let ?B = "replicate n (0, 2 ^ 21 - 1) @ [(0, 2 ^ k - 1)] :: ival list"
  fix i assume "i < length ?B"
  then show "map CI (int_limbs n N) ! i = CI (int_limbs n N ! i) \<and>
      fst (?B ! i) \<le> int_limbs n N ! i \<and> int_limbs n N ! i \<le> snd (?B ! i)"
    using top fld by (cases "i < n") (auto simp: int_limbs_def nth_append less_Suc_eq)
qed (simp_all add: int_limbs_def)

lemma sc_load32_limbs: "length s = 32 \<Longrightarrow> sc_load32 s = map CI (int_limbs 11 (le_val s))"
  by (simp add: sc_load32_fields int_limbs_def)

lemma sc_load64_limbs: "length s = 64 \<Longrightarrow> sc_load64 s = map CI (int_limbs 23 (le_val s))"
  by (simp add: sc_load64_fields int_limbs_def)

lemma sc_reduce_value:
  assumes "length s = 64"
  shows "sc_reduce s = Some (le_bytes 32 (le_val s mod sc_l))"
proof -
  have w: "within (sc_load64 s) (int_limbs 23 (le_val s)) (replicate 23 (0, 2 ^ 21 - 1) @ [(0, 2 ^ 29 - 1)])"
    using le_val_less [of s] assms int_limbs_within [of "le_val s" 23 29] by (simp add: sc_load64_limbs)
  have "step_into (sc_head_iv (replicate 23 (0, 2 ^ 21 - 1) @ [(0, 2 ^ 29 - 1)])) tail_box24"
    by code_simp
  from step_ok_into [OF step_ok_sc_head w this]
  have "within (sc_head (sc_load64 s)) (sc_head_int (int_limbs 23 (le_val s))) tail_box24" .
  from sc_tail_pack [OF this sc_tail_check_boxes(2)]
  have "sc_reduce s = Some (le_bytes 32 (sc_num 13 (sc_head_int (int_limbs 23 (le_val s))) mod sc_l))"
    by (simp add: sc_reduce_def)
  also have "sc_num 13 (sc_head_int (int_limbs 23 (le_val s))) mod sc_l = le_val s mod sc_l"
    using sc_head_mod [of "int_limbs 23 (le_val s)"] sc_num_int_limbs [of 23 "le_val s"] by (simp add: int_limbs_def)
  finally show ?thesis .
qed

lemma sc_tail_pack32:
  assumes "within s v B" "iv_sub (B @ [(0, 0)]) tail_box"
  shows "sc_pack (sc_tail (s @ [CI 0])) = Some (le_bytes 32 (sc_num 12 v mod sc_l))"
proof -
  have len: "length v = 12"
    using assms within_length [OF assms(1)] by (auto simp: tail_box_def eval_nat_numeral elim!: iv_sub.elims)
  have "within (s @ [CI 0]) (v @ [0]) (B @ [(0, 0)])"
    using assms(1) by (auto simp: within_def intro!: list_all2_appendI)
  from sc_tail_pack [OF within_iv_sub [OF this assms(2)] sc_tail_check_boxes(1)]
  have "sc_pack (sc_tail (s @ [CI 0])) = Some (le_bytes 32 (sc_num 13 (v @ [0]) mod sc_l))" .
  also have "sc_num 13 (v @ [0]) = sc_num 12 v"
    using wsum_Suc [of "\<lambda>i. 21 * i" 12 "v @ [0]"] len by (simp add: wsum_def nth_append)
  finally show ?thesis .
qed

lemma sc_reduce32_value:
  assumes "length s = 32"
  shows "sc_reduce32 s = Some (le_bytes 32 (le_val s mod sc_l))"
proof -
  have w: "within (sc_load32 s) (int_limbs 11 (le_val s)) (replicate 11 (0, 2 ^ 21 - 1) @ [(0, 2 ^ 25 - 1)])"
    using le_val_less [of s] assms int_limbs_within [of "le_val s" 11 25] by (simp add: sc_load32_limbs)
  have "iv_sub ((replicate 11 (0, 2 ^ 21 - 1) @ [(0, 2 ^ 25 - 1)]) @ [(0, 0)]) tail_box"
    by code_simp
  from sc_tail_pack32 [OF w this] show ?thesis
    using sc_num_int_limbs [of 11 "le_val s"] by (simp add: sc_reduce32_def)
qed

lemma within_load32:
  "length s = 32 \<Longrightarrow>
   within (sc_load32 s) (int_limbs 11 (le_val s)) (replicate 11 (0, 2 ^ 21 - 1) @ [(0, 2 ^ 25 - 1)])"
  using le_val_less [of s] int_limbs_within [of "le_val s" 11 25] by (simp add: sc_load32_limbs)

lemma length_int_limbs [simp]: "length (int_limbs n N) = Suc n"
  by (simp add: int_limbs_def)

lemma sc_add_value:
  assumes "length a = 32" "length b = 32"
  shows "sc_add a b = Some (le_bytes 32 ((le_val a + le_val b) mod sc_l))"
proof -
  let ?B = "replicate 11 (0, 2 ^ 21 - 1) @ [(0, 2 ^ 25 - 1)] :: ival list"
  have "list_all (iv_fits 64) (map2 iv_add ?B ?B)" by code_simp
  then have w: "within (map2 (+) (sc_load32 a) (sc_load32 b))
      (map2 (+) (int_limbs 11 (le_val a)) (int_limbs 11 (le_val b))) (map2 iv_add ?B ?B)"
    by (intro within_map2_add within_load32 assms) simp_all
  have "iv_sub (map2 iv_add ?B ?B @ [(0, 0)]) tail_box" by code_simp
  from sc_tail_pack32 [OF w this] show ?thesis
    using sc_num_int_limbs [of 11] by (simp add: sc_add_def wsum_map2)
qed

lemma sc_sub_value:
  assumes "length a = 32" "length b = 32"
  shows "sc_sub a b = Some (le_bytes 32 ((le_val a - le_val b) mod sc_l))"
proof -
  let ?B = "replicate 11 (0, 2 ^ 21 - 1) @ [(0, 2 ^ 25 - 1)] :: ival list"
  let ?D = "map2 (\<lambda>I J. iv_add I (iv_scale (- 1) J)) ?B ?B"
  have "list_all (iv_fits 64) ?D" by code_simp
  then have w: "within (map2 (-) (sc_load32 a) (sc_load32 b))
      (map2 (-) (int_limbs 11 (le_val a)) (int_limbs 11 (le_val b))) ?D"
    by (intro within_map2_minus within_load32 assms) simp_all
  have "iv_sub (?D @ [(0, 0)]) tail_box" by code_simp
  from sc_tail_pack32 [OF w this] show ?thesis
    using sc_num_int_limbs [of 11] by (simp add: sc_sub_def wsum_map2)
qed

subsection \<open>Products\<close>

definition col_int :: "int list \<Rightarrow> int list \<Rightarrow> nat \<Rightarrow> nat list \<Rightarrow> int" where
  "col_int a b k is = (\<Sum>i\<leftarrow>is. a ! i * b ! (k - i))"

definition products_int :: "int list \<Rightarrow> int list \<Rightarrow> int list \<Rightarrow> int list" where
  "products_int a b c =
     map (\<lambda>k. (if k < 12 then c ! k else 0) - col_int a b k [k - 11..<min (Suc k) 12]) [0..<23] @ [0]"

lemma mag_col_fold:
  assumes "\<forall>i\<in>set is. mag (a ! i * b ! (k - i)) (x ! i * y ! (k - i)) m" "mag acc v n"
    "n + m * int (length is) < 2 ^ (LENGTH(64) - 1)" "0 \<le> m"
  shows "mag (fold (\<lambda>i acc. acc + a ! i * b ! (k - i)) is (acc :: i64))
    (v + col_int x y k is) (n + m * int (length is))"
  using assms
proof (induction "is" arbitrary: acc v n)
  case (Cons i "is")
  have le: "n + m < 2 ^ (LENGTH(64) - 1)"
    using Cons.prems(3,4) by (simp add: algebra_simps) (smt (verit) mult_nonneg_nonneg of_nat_0_le_iff)
  have "mag (acc + a ! i * b ! (k - i)) (v + x ! i * y ! (k - i)) (n + m)"
    using Cons.prems le by (intro mag_plus) auto
  from Cons.IH [OF _ this] Cons.prems show ?case
    by (simp add: col_int_def algebra_simps)
qed (simp add: col_int_def)

lemma mag_col:
  assumes "is \<noteq> []" "length is \<le> 12"
    "\<forall>i\<in>set is. mag (a ! i) (x ! i) (2 ^ 25) \<and> mag (b ! (k - i)) (y ! (k - i)) (2 ^ 25)"
  shows "mag (col a b k is) (col_int x y k is) (2 ^ 54)"
proof -
  obtain i js where is_: "is = i # js" using assms(1) by (cases "is") auto
  have prod: "mag (a ! i * b ! (k - i)) (x ! i * y ! (k - i)) (2 ^ 50)" if "i \<in> set is" for i
    using mag_times [of "a ! i" "x ! i" "2 ^ 25" "b ! (k - i)" "y ! (k - i)" "2 ^ 25"] assms(3) that by simp
  have len: "int (length js) \<le> 11" using assms(2) is_ by simp
  have "mag (fold (\<lambda>i acc. acc + a ! i * b ! (k - i)) js (a ! i * b ! (k - i)))
    (x ! i * y ! (k - i) + col_int x y k js) (2 ^ 50 + 2 ^ 50 * int (length js))"
    using prod len is_ by (intro mag_col_fold) auto
  then show ?thesis using len by (auto simp: is_ col_int_def intro: mag_weaken)
qed

lemma sum_by_total:
  fixes G :: "nat \<Rightarrow> nat \<Rightarrow> int"
  shows "(\<Sum>k<23. \<Sum>i\<in>{k - 11..<min (Suc k) 12}. G i (k - i)) = (\<Sum>i<12. \<Sum>j<12. G i j)"
proof -
  let ?S = "{..<12} \<times> {..<12} :: (nat \<times> nat) set"
  have "(\<Sum>i<12. \<Sum>j<12. G i j) = (\<Sum>p\<in>?S. G (fst p) (snd p))"
    by (simp add: sum.cartesian_product case_prod_beta)
  also have "\<dots> = (\<Sum>k<23. \<Sum>p\<in>{p\<in>?S. fst p + snd p = k}. G (fst p) (snd p))"
    by (subst sum.group [of ?S "{..<23}"]) auto
  also have "\<dots> = (\<Sum>k<23. \<Sum>i\<in>{k - 11..<min (Suc k) 12}. G i (k - i))"
  proof (rule sum.cong [OF refl])
    fix k :: nat assume "k \<in> {..<23}"
    show "(\<Sum>p\<in>{p\<in>?S. fst p + snd p = k}. G (fst p) (snd p)) = (\<Sum>i\<in>{k - 11..<min (Suc k) 12}. G i (k - i))"
      by (rule sum.reindex_bij_witness [of _ "\<lambda>i. (i, k - i)" fst]) auto
  qed
  finally show ?thesis by simp
qed

lemma sc_num_products:
  assumes "length a = 12" "length b = 12" "length c = 12"
  shows "sc_num 24 (products_int a b c) = sc_num 12 c - sc_num 12 a * sc_num 12 b"
proof -
  have "sc_num 24 (products_int a b c) = sc_num 23 (products_int a b c)"
    using wsum_Suc [of "\<lambda>i. 21 * i" 23 "products_int a b c"] by (simp add: products_int_def nth_append)
  also have "\<dots> = (\<Sum>k<23. 2 ^ (21 * k) * (if k < 12 then c ! k else 0)) -
      (\<Sum>k<23. 2 ^ (21 * k) * col_int a b k [k - 11..<min (Suc k) 12])"
  proof -
    have nth: "products_int a b c ! k = (if k < 12 then c ! k else 0) - col_int a b k [k - 11..<min (Suc k) 12]"
      if "k < 23" for k
      using that by (simp add: products_int_def nth_append del: upt_Suc)
    show ?thesis
      unfolding wsum_def sum_subtractf [symmetric] right_diff_distrib [symmetric]
      by (intro sum.cong refl) (simp add: nth)
  qed
  also have "(\<Sum>k<23. 2 ^ (21 * k) * (if k < 12 then c ! k else 0)) = sc_num 12 c"
    unfolding wsum_def by (rule sum.mono_neutral_cong_right) auto
  also have "(\<Sum>k<23. 2 ^ (21 * k) * col_int a b k [k - 11..<min (Suc k) 12]) =
      (\<Sum>k<23. \<Sum>i\<in>{k - 11..<min (Suc k) 12}. (2 ^ (21 * i) * a ! i) * (2 ^ (21 * (k - i)) * b ! (k - i)))"
  proof (rule sum.cong [OF refl])
    fix k :: nat
    have "(2::int) ^ (21 * k) * (a ! i * b ! (k - i)) =
        (2 ^ (21 * i) * a ! i) * (2 ^ (21 * (k - i)) * b ! (k - i))"
      if "i \<in> {k - 11..<min (Suc k) 12}" for i
    proof -
      have "21 * k = 21 * i + 21 * (k - i)" using that by auto
      then show ?thesis by (simp only: power_add) (simp add: algebra_simps)
    qed
    then show "2 ^ (21 * k) * col_int a b k [k - 11..<min (Suc k) 12] =
      (\<Sum>i\<in>{k - 11..<min (Suc k) 12}. (2 ^ (21 * i) * a ! i) * (2 ^ (21 * (k - i)) * b ! (k - i)))"
      unfolding col_int_def interv_sum_list_conv_sum_set_nat sum_distrib_left set_upt
      by (intro sum.cong refl)
  qed
  also have "\<dots> = sc_num 12 a * sc_num 12 b"
    using sum_by_total [of "\<lambda>i j. (2 ^ (21 * i) * a ! i) * (2 ^ (21 * j) * b ! j)"]
    by (simp only: wsum_def sum_product)
  finally show ?thesis .
qed

lemma sc_products_within:
  assumes "length a = 32" "length b = 32" "length c = 32"
  defines "x \<equiv> int_limbs 11 (le_val a)" and "y \<equiv> int_limbs 11 (le_val b)" and "z \<equiv> int_limbs 11 (le_val c)"
  shows "within (sc_mulsub_products (sc_load32 a) (sc_load32 b) (sc_load32 c)) (products_int x y z)
    (replicate 23 (- (2 ^ 55), 2 ^ 55) @ [(0, 0)])"
proof -
  have m: "mag (sc_load32 s ! i) (int_limbs 11 (le_val s) ! i) (2 ^ 25)" if "length s = 32" "i < 12" for s i
    using within_nth_CI [OF within_load32 [OF that(1)], of i] within_nth [OF within_load32 [OF that(1)], of i] that
    by (auto simp: mag_def nth_append split: if_splits)
  note ma = m [OF assms(1), folded x_def] and mb = m [OF assms(2), folded y_def]
    and mc = m [OF assms(3), folded z_def]
  have col: "mag (col (sc_load32 a) (sc_load32 b) k [k - 11..<min (Suc k) 12])
      (col_int x y k [k - 11..<min (Suc k) 12]) (2 ^ 54)" if "k < 23" for k
    using that ma mb by (intro mag_col) auto
  have elem: "mag (sc_mulsub_products (sc_load32 a) (sc_load32 b) (sc_load32 c) ! k) (products_int x y z ! k) (2 ^ 55)"
    if k: "k < 23" for k
  proof -
    consider "k < 12" | "12 \<le> k" "k < 22" | "k = 22" using k by linarith
    then show ?thesis
    proof cases
      case 1
      then have "mag (sc_load32 c ! k - col (sc_load32 a) (sc_load32 b) k [k - 11..<min (Suc k) 12])
          (z ! k - col_int x y k [k - 11..<min (Suc k) 12]) (2 ^ 25 + 2 ^ 54)"
        using mc [of k] col [of k] by (intro mag_minus) auto
      with 1 show ?thesis
        by (auto simp: sc_mulsub_products_def products_int_def nth_append min_def intro: mag_weaken simp del: upt_Suc upt_rec_numeral)
    next
      case 2
      then have "mag (- col (sc_load32 a) (sc_load32 b) k [k - 11..<min (Suc k) 12])
          (- col_int x y k [k - 11..<min (Suc k) 12]) (2 ^ 54)"
        using col [of k] by (intro mag_uminus) auto
      with 2 show ?thesis
        by (auto simp: sc_mulsub_products_def products_int_def nth_append min_def intro: mag_weaken simp del: upt_Suc upt_rec_numeral)
    next
      case 3
      have "mag (- (sc_load32 a ! 11) * sc_load32 b ! 11) (- (x ! 11) * y ! 11) (2 ^ 25 * 2 ^ 25)"
        using ma [of 11] mb [of 11] by (intro mag_times mag_uminus) auto
      with 3 show ?thesis
        by (auto simp: sc_mulsub_products_def products_int_def nth_append col_int_def intro: mag_weaken)
    qed
  qed
  show ?thesis
  proof (rule withinI)
    let ?B = "replicate 23 (- (2 ^ 55), 2 ^ 55) @ [(0, 0)] :: ival list"
    fix i assume "i < length ?B"
    then have "i < 23 \<or> i = 23" by auto
    then consider "i < 23" | "i = 23" by blast
    then show "sc_mulsub_products (sc_load32 a) (sc_load32 b) (sc_load32 c) ! i = CI (products_int x y z ! i) \<and>
        fst (?B ! i) \<le> products_int x y z ! i \<and> products_int x y z ! i \<le> snd (?B ! i)"
    proof cases
      case 1
      with elem [OF 1] show ?thesis by (auto simp: mag_def nth_append abs_le_iff)
    next
      case 2
      then show ?thesis by (simp add: sc_mulsub_products_def products_int_def nth_append)
    qed
  qed (simp_all add: sc_mulsub_products_def products_int_def)
qed

definition sc_mulsub_carry_int where
  "sc_mulsub_carry_int = fold sc_round_int [1, 3, 5, 7, 9, 11, 13, 15, 17, 19, 21] \<circ>
     fold sc_round_int [0, 2, 4, 6, 8, 10, 12, 14, 16, 18, 20, 22]"

definition sc_mulsub_carry_iv where
  "sc_mulsub_carry_iv = seq_iv (fold_iv sc_round_iv [0, 2, 4, 6, 8, 10, 12, 14, 16, 18, 20, 22])
     (fold_iv sc_round_iv [1, 3, 5, 7, 9, 11, 13, 15, 17, 19, 21])"

lemma step_ok_mulsub:
  "step_ok (sc_head \<circ> (fold sc_round [1, 3, 5, 7, 9, 11, 13, 15, 17, 19, 21] \<circ>
     fold sc_round [0, 2, 4, 6, 8, 10, 12, 14, 16, 18, 20, 22]))
   (sc_head_int \<circ> sc_mulsub_carry_int) (seq_iv sc_mulsub_carry_iv sc_head_iv)"
  unfolding sc_mulsub_carry_int_def sc_mulsub_carry_iv_def
  by (intro step_ok_seq [OF _ step_ok_sc_head] sc_steps)

lemma sc_mulsub_value:
  assumes "length a = 32" "length b = 32" "length c = 32"
  shows "sc_mulsub a b c = Some (le_bytes 32 ((le_val c - le_val a * le_val b) mod sc_l))"
proof -
  let ?p = "products_int (int_limbs 11 (le_val a)) (int_limbs 11 (le_val b)) (int_limbs 11 (le_val c))"
  have "step_into (seq_iv sc_mulsub_carry_iv sc_head_iv (replicate 23 (- (2 ^ 55), 2 ^ 55) @ [(0, 0)])) tail_box24"
    by code_simp
  from sc_tail_pack [OF step_ok_into [OF step_ok_mulsub sc_products_within [OF assms] this] sc_tail_check_boxes(2)]
  have "sc_mulsub a b c = Some (le_bytes 32 (sc_num 13 (sc_head_int (sc_mulsub_carry_int ?p)) mod sc_l))"
    by (simp add: sc_mulsub_def sc_mulsub_finish_def sc_mulsub_carry_def)
  also have "sc_num 13 (sc_head_int (sc_mulsub_carry_int ?p)) mod sc_l = sc_num 24 (sc_mulsub_carry_int ?p) mod sc_l"
    by (rule sc_head_mod) (simp add: sc_mulsub_carry_int_def products_int_def)
  also have "sc_num 24 (sc_mulsub_carry_int ?p) = sc_num 24 ?p"
    by (simp add: sc_mulsub_carry_int_def sc_num_round products_int_def)
  also have "sc_num 24 ?p = le_val c - le_val a * le_val b"
    using sc_num_int_limbs [of 11] by (simp add: sc_num_products)
  finally show ?thesis .
qed

subsection \<open>Comparison with the order\<close>

text \<open>The most significant difference decides: weighing the signs by powers of two gives the
  sign of the difference of the numbers.\<close>

fun lex_sum :: "int \<Rightarrow> int list \<Rightarrow> int" where
  "lex_sum b [] = 0"
| "lex_sum b (d # ds) = d + b * lex_sum b ds"

lemma lex_sum_sgn:
  assumes "\<forall>d\<in>set ds. \<bar>d\<bar> < 2 ^ 32"
  shows "sgn (lex_sum 2 (map sgn ds)) = sgn (lex_sum (2 ^ 32) ds)"
proof -
  have "\<bar>lex_sum (2 ^ 32) ds\<bar> < 2 ^ (32 * length ds) \<and>
    sgn (lex_sum 2 (map sgn ds)) = sgn (lex_sum (2 ^ 32) ds)"
    using assms
  proof (induction ds)
    case (Cons d ds)
    let ?x = "lex_sum (2 ^ 32) ds" and ?y = "lex_sum 2 (map sgn ds)"
    from Cons have d: "\<bar>d\<bar> < 2 ^ 32" and x: "\<bar>?x\<bar> < 2 ^ (32 * length ds)" and xy: "sgn ?y = sgn ?x"
      by simp_all
    have "\<bar>d + 2 ^ 32 * ?x\<bar> < 2 ^ 32 + 2 ^ 32 * \<bar>?x\<bar>"
      using d by (simp add: abs_mult abs_if split: if_splits)
    also have "\<dots> \<le> 2 ^ 32 * 2 ^ (32 * length ds)" using x by simp
    finally have "\<bar>lex_sum (2 ^ 32) (d # ds)\<bar> < 2 ^ (32 * length (d # ds))"
      by (simp add: power_add)
    moreover have "sgn (sgn d + 2 * ?y) = sgn (d + 2 ^ 32 * ?x)"
      using d xy by (cases "?x" "0 :: int" rule: linorder_cases; cases "?y" "0 :: int" rule: linorder_cases)
        (auto simp: sgn_if abs_if split: if_splits)
    ultimately show ?case by simp
  qed simp
  then show ?thesis ..
qed

lemma signum_value:
  assumes "\<bar>v\<bar> < 2 ^ 63"
  shows "signum (CI v) = CI (sgn v)"
proof -
  have f: "fits 64 (- v)" using assms by (auto simp: fits_def abs_less_iff)
  have "v div 2 ^ 63 = (if v < 0 then - 1 else 0)" "(- v) div 2 ^ 63 = (if 0 < v then - 1 else 0)"
    using assms by (auto simp: abs_less_iff div_pos_pos_trivial div_eq_minus1)
  then show ?thesis using f
    by (auto simp: signum_def shr_def uminus_cint_def minus_cint_def drop_bit_eq_div mk_fits fits_def sgn_if)
qed

lemma lex_sum_append: "lex_sum b (xs @ ys) = lex_sum b xs + b ^ length xs * lex_sum b ys"
  by (induction xs) (simp_all add: algebra_simps)

lemma lex_sum_fields:
  "lex_sum (2 ^ 32) (map (\<lambda>i. take_bit 32 (drop_bit (32 * i) N)) [0..<n]) = take_bit (32 * n) N"
proof (induction n)
  case (Suc n)
  have "(2 ^ 32 :: int) ^ n = 2 ^ (32 * n)" by (rule power_mult [symmetric])
  with Suc show ?case
    using zmod_zmult2_eq [of "2 ^ 32" N "2 ^ (32 * n)"]
    by (simp add: lex_sum_append take_bit_eq_mod drop_bit_eq_div power_add mult.commute)
qed simp

lemma load_4_dword:
  "p + 4 \<le> length s \<Longrightarrow> (of_unsigned (load_4 s p) :: i64) = CI (take_bit 32 (drop_bit (8 * p) (le_val s)))"
  using take_bit_int_less_exp [of 32 "drop_bit (8 * p) (le_val s)"]
  by (subst of_unsigned_less) (simp_all add: load_4_field)

text \<open>One term \<open>signum(c - s) << k\<close> of the comparison.\<close>

lemma mag_signum_terms:
  assumes "0 \<le> c" "c < 2 ^ 32" "0 \<le> x" "x < 2 ^ 32" "k \<le> 8"
  shows "mag (shl (signum (CI c - CI x)) k) (2 ^ k * sgn (c - x)) (2 ^ k)"
    and "mag (signum (CI c - CI x)) (sgn (c - x)) 1"
    and "mag (signum (- CI x)) (sgn (- x)) 1" "mag (shl (signum (- CI x)) k) (2 ^ k * sgn (- x)) (2 ^ k)"
proof -
  have p: "(2::int) ^ k \<le> 2 ^ 8" using assms(5) by (rule power_increasing) simp
  have "CI c - CI x = (CI (c - x) :: i64)" "- CI x = (CI (- x) :: i64)"
    using assms by (simp_all add: minus_cint_def uminus_cint_def mk_fits fits_def)
  then have s: "signum (CI c - CI x) = CI (sgn (c - x))" "signum (- CI x) = CI (sgn (- x))"
    using assms by (simp_all add: signum_value)
  then show "mag (signum (CI c - CI x)) (sgn (c - x)) 1" "mag (signum (- CI x)) (sgn (- x)) 1"
    by (simp_all add: mag_def sgn_if)
  have "fits 64 (2 ^ k * sgn y)" for y :: int
    using p zero_less_power [of "2::int" k] unfolding fits_def by (simp add: sgn_if; linarith)
  then have m: "shl (CI (sgn y) :: i64) k = CI (2 ^ k * sgn y)" for y :: int
    using shl_fits_mult [of "sgn y" k, where 'w = 64] by (simp add: mult.commute)
  have a: "\<bar>2 ^ k * sgn y\<bar> \<le> 2 ^ k" for y :: int
    by (simp add: abs_mult abs_sgn_eq)
  show "mag (shl (signum (CI c - CI x)) k) (2 ^ k * sgn (c - x)) (2 ^ k)"
    "mag (shl (signum (- CI x)) k) (2 ^ k * sgn (- x)) (2 ^ k)"
    using a [of "c - x"] a [of "- x"] unfolding mag_def s m by simp_all
qed

lemma mag_signum_term:
  "0 \<le> x \<Longrightarrow> x < 2 ^ 32 \<Longrightarrow> 0 \<le> c \<Longrightarrow> c < 2 ^ 32 \<Longrightarrow> k \<le> 8 \<Longrightarrow>
     mag (shl (signum (CI c - CI x)) k) (2 ^ k * sgn (c - x)) (2 ^ k)"
  "0 \<le> x \<Longrightarrow> x < 2 ^ 32 \<Longrightarrow> 0 \<le> c \<Longrightarrow> c < 2 ^ 32 \<Longrightarrow> mag (signum (CI c - CI x)) (sgn (c - x)) 1"
  "0 \<le> x \<Longrightarrow> x < 2 ^ 32 \<Longrightarrow> k \<le> 8 \<Longrightarrow> mag (shl (signum (- CI x)) k) (2 ^ k * sgn (- x)) (2 ^ k)"
  using mag_signum_terms(1) [of c x k] mag_signum_terms(2) [of c x 0] mag_signum_terms(4) [of 0 x k]
  by simp_all

lemma ccast_shr_8: "\<bar>S\<bar> \<le> 255 \<Longrightarrow> ccast (shr (CI S :: i64) 8) = (CI (S div 256) :: i32)"
proof -
  assume "\<bar>S\<bar> \<le> 255"
  then have "- 255 \<le> S" "S \<le> 255" by linarith+
  then have "- 1 \<le> S div 256" "S div 256 \<le> 0"
    using zdiv_mono1 [of "- 255" S 256] zdiv_mono1 [of S 255 256] by simp_all
  then have "fits 64 (S div 256)" "fits 32 (S div 256)" by (simp_all add: fits_def)
  then show ?thesis by (simp add: shr_def drop_bit_eq_div mk_fits ccast_fits del: ccast.simps)
qed

lemma sign_div: "\<bar>S\<bar> \<le> 255 \<Longrightarrow> sgn S = sgn (sc_l - 1 - N) \<Longrightarrow> S div 256 = (if N < sc_l then 0 else - 1)"
  by (auto simp: sgn_if abs_le_iff split: if_splits)

lemma sc_check_value:
  assumes "length s = 32"
  shows "sc_check s = CI (if le_val s < sc_l then 0 else - 1)"
proof -
  define x where "x i = take_bit 32 (drop_bit (32 * i) (le_val s))" for i
  have x: "0 \<le> x i" "x i < 2 ^ 32" for i
    unfolding x_def using take_bit_int_less_exp [of 32] by simp_all
  have ld: "of_unsigned (load_4 s (4 * i)) = (CI (x i) :: i64)" if "i < 8" for i
    using that assms by (simp add: x_def load_4_dword)
  let ?ds = "[1559614444 - x 0, 1477600026 - x 1, 2734136534 - x 2, 350157278 - x 3,
      - x 4, - x 5, - x 6, 268435456 - x 7]"
  let ?S = "lex_sum 2 (map sgn ?ds)"
  have "lex_sum (2 ^ 32) [x 0, x 1, x 2, x 3, x 4, x 5, x 6, x 7] = le_val s"
    using lex_sum_fields [of "le_val s" 8] le_val_less [of s] assms
    by (simp add: x_def upt_conv_Cons take_bit_int_eq_self)
  then have N: "lex_sum (2 ^ 32) ?ds = sc_l - 1 - le_val s"
    by (simp add: sc_l_def)
  have "\<forall>d\<in>set ?ds. \<bar>d\<bar> < 2 ^ 32" 
    using x [of 0] x [of 1] x [of 2] x [of 3] x [of 4] x [of 5] x [of 6] x [of 7]
    by (simp add: abs_less_iff)
  from lex_sum_sgn [OF this] have sg: "sgn ?S = sgn (sc_l - 1 - le_val s)" unfolding N .
  let ?e = "signum (CI 1559614444 - CI (x 0)) + shl (signum (CI 1477600026 - CI (x 1))) 1 +
      shl (signum (CI 2734136534 - CI (x 2))) 2 + shl (signum (CI 350157278 - CI (x 3))) 3 +
      shl (signum (- CI (x 4))) 4 + shl (signum (- CI (x 5))) 5 + shl (signum (- CI (x 6))) 6 +
      shl (signum (CI 268435456 - CI (x 7))) 7"
  have "mag ?e (sgn (1559614444 - x 0) + 2 ^ 1 * sgn (1477600026 - x 1) + 2 ^ 2 * sgn (2734136534 - x 2) +
      2 ^ 3 * sgn (350157278 - x 3) + 2 ^ 4 * sgn (- x 4) + 2 ^ 5 * sgn (- x 5) + 2 ^ 6 * sgn (- x 6) +
      2 ^ 7 * sgn (268435456 - x 7)) (1 + 2 ^ 1 + 2 ^ 2 + 2 ^ 3 + 2 ^ 4 + 2 ^ 5 + 2 ^ 6 + 2 ^ 7)"
    by (intro mag_plus mag_signum_term x) simp_all
  then have e: "?e = CI ?S" "\<bar>?S\<bar> \<le> 255" by (simp_all add: mag_def algebra_simps)
  have "sc_check s = ccast (shr (CI ?S :: i64) 8)"
    using ld [of 0] ld [of 1] ld [of 2] ld [of 3] ld [of 4] ld [of 5] ld [of 6] ld [of 7]
    unfolding sc_check_def Let_def e(1) [symmetric] by simp
  also have "\<dots> = CI (?S div 256)"
    using e(2) by (rule ccast_shr_8)
  also have "?S div 256 = (if le_val s < sc_l then 0 else - 1)"
    using e(2) sg by (rule sign_div)
  finally show ?thesis .
qed

lemma nonzero_byte:
  assumes "0 \<le> n" "n < 256"
  shows "shr (CI n - CI 1 :: i32) 8 + CI 1 = CI (if n = 0 then 0 else 1)"
proof -
  have d: "(n - 1) div 256 = (if n = 0 then - 1 else 0)" using assms by auto
  have "(CI n - CI 1 :: i32) = CI (n - 1)"
    using assms by (simp add: minus_cint_def mk_fits fits_def)
  then have "shr (CI n - CI 1 :: i32) 8 = CI (if n = 0 then - 1 else 0)"
    by (simp add: shr_def drop_bit_eq_div d mk_fits fits_def)
  then show ?thesis by (simp add: plus_cint_def mk_fits fits_def)
qed

lemma sc_isnonzero_value:
  assumes "length s = 32"
  shows "sc_isnonzero s = CI (if le_val s = 0 then 0 else 1)"
proof -
  let ?w = "fold (\<lambda>i acc. acc OR s ! i) [1..<32] (s ! 0)"
  have "?w = 0 \<longleftrightarrow> (\<forall>i<32. s ! i = 0)"
    unfolding fold_or_zero_iff set_upt by (auto simp: Ball_def) (metis One_nat_def Suc_leI gr0I)
  then have z: "?w = 0 \<longleftrightarrow> le_val s = 0"
    using assms by (simp add: le_val_zero_iff all_set_conv_all_nth)
  have u: "0 \<le> uint ?w" "uint ?w < 256" using uint_bounded [of ?w] by simp_all
  have "(of_unsigned ?w :: i32) = CI (uint ?w)" using u by (intro of_unsigned_less) simp
  then have "sc_isnonzero s = CI (if uint ?w = 0 then 0 else 1)"
    unfolding sc_isnonzero_def using nonzero_byte [OF u] by simp
  then show ?thesis using z by (simp only: uint_0_iff)
qed

section \<open>What the operations promise\<close>

lemma sc_value_bytes:
  "le_val (le_bytes 32 (N mod sc_l)) = N mod sc_l"
proof -
  have "0 \<le> N mod sc_l" "N mod sc_l < sc_l" by (simp_all add: sc_l_def)
  moreover have "sc_l < 256 ^ 32" by (simp add: sc_l_def)
  ultimately show ?thesis by (simp add: le_val_le_bytes)
qed

lemma sc_canonical_bytes: "sc_check (le_bytes 32 (N mod sc_l)) = CI 0"
proof -
  have "N mod sc_l < sc_l" by (simp add: sc_l_def)
  then show ?thesis by (subst sc_check_value) (simp_all add: sc_value_bytes)
qed

text \<open>\<open>sc_ok r N\<close>: the call succeeded and left the canonical 32 bytes of \<open>N\<close> modulo \<open>l\<close>.\<close>

definition sc_ok :: "u8 list option \<Rightarrow> int \<Rightarrow> bool" where
  "sc_ok r N \<longleftrightarrow> (\<exists>s. r = Some s \<and> length s = 32 \<and> le_val s = N mod sc_l \<and> sc_check s = CI 0)"

lemma sc_okI: "r = Some (le_bytes 32 (N mod sc_l)) \<Longrightarrow> sc_ok r N"
  by (simp add: sc_ok_def sc_value_bytes sc_canonical_bytes)

text \<open>C13: \<open>sc_reduce\<close> never overflows an \<open>int64_t\<close>; it replaces 64 bytes by the canonical 32 bytes
  of their value modulo the group order, which \<open>sc_check\<close> accepts.\<close>

theorem sc_reduce_correct:
  assumes "length s = 64"
  shows "sc_ok (sc_reduce s) (le_val s)"
  using sc_reduce_value [OF assms] by (rule sc_okI)

theorem sc_reduce_correct_witness:
  "sc_ok (sc_reduce (replicate 64 255)) (le_val (replicate 64 255))"
  by (rule sc_reduce_correct) simp

text \<open>\<open>sc_reduce32\<close> does the same on 32 bytes, and it leaves them unchanged exactly
  when \<open>sc_check\<close> accepts them.\<close>

theorem sc_reduce32_correct:
  assumes "length s = 32"
  shows "sc_ok (sc_reduce32 s) (le_val s) \<and> (sc_reduce32 s = Some s \<longleftrightarrow> sc_check s = CI 0)"
proof
  note r = sc_reduce32_value [OF assms]
  show "sc_ok (sc_reduce32 s) (le_val s)" by (rule sc_okI [OF r])
  have "le_bytes 32 (le_val s mod sc_l) = s \<longleftrightarrow> le_val s mod sc_l = le_val s"
    using le_bytes_le_val [OF assms] sc_value_bytes [of "le_val s"] by metis
  also have "\<dots> \<longleftrightarrow> le_val s < sc_l"
    using pos_mod_bound [of sc_l "le_val s"] by (auto simp: sc_l_def)
  finally show "sc_reduce32 s = Some s \<longleftrightarrow> sc_check s = CI 0"
    using r sc_check_value [OF assms] by simp
qed

theorem sc_reduce32_correct_witness:
  "sc_reduce32 (le_bytes 32 5) = Some (le_bytes 32 5) \<and> sc_check (le_bytes 32 5) = CI 0"
proof -
  have "sc_check (le_bytes 32 5) = CI 0" by code_simp
  then show ?thesis using sc_reduce32_correct [of "le_bytes 32 5"] by simp
qed

text \<open>C14: \<open>sc_add\<close> and \<open>sc_sub\<close> are addition and subtraction modulo \<open>l\<close>, also on operands
  that are not reduced.\<close>

theorem sc_add_sub_correct:
  assumes "length a = 32" "length b = 32"
  shows "sc_ok (sc_add a b) (le_val a + le_val b) \<and> sc_ok (sc_sub a b) (le_val a - le_val b)"
  using sc_add_value [OF assms] sc_sub_value [OF assms] by (simp add: sc_okI)

theorem sc_add_sub_correct_witness:
  "sc_ok (sc_add (replicate 32 255) (le_bytes 32 7)) (le_val (replicate 32 255) + le_val (le_bytes 32 7)) \<and>
   sc_ok (sc_sub (replicate 32 255) (le_bytes 32 7)) (le_val (replicate 32 255) - le_val (le_bytes 32 7))"
  by (rule sc_add_sub_correct) simp_all

text \<open>C15: \<open>sc_mulsub\<close> computes \<open>c - a * b\<close> modulo \<open>l\<close>, with no overflow for any operands.\<close>

theorem sc_mulsub_correct:
  assumes "length a = 32" "length b = 32" "length c = 32"
  shows "sc_ok (sc_mulsub a b c) (le_val c - le_val a * le_val b)"
  using sc_mulsub_value [OF assms] by (rule sc_okI)

theorem sc_mulsub_correct_witness:
  "sc_ok (sc_mulsub (replicate 32 255) (replicate 32 255) (le_bytes 32 1))
     (le_val (le_bytes 32 1) - le_val (replicate 32 255) * le_val (replicate 32 255))"
  by (rule sc_mulsub_correct) simp_all

text \<open>\<open>sc_check\<close> returns 0 exactly for the canonical scalars and -1 for the others, and
  \<open>sc_isnonzero\<close> is the test for the number 0; neither has undefined behaviour.\<close>

theorem sc_tests_correct:
  assumes "length s = 32"
  shows "sc_check s = CI (if le_val s < sc_l then 0 else - 1) \<and>
    sc_isnonzero s = CI (if le_val s = 0 then 0 else 1)"
  using sc_check_value [OF assms] sc_isnonzero_value [OF assms] ..

theorem sc_tests_correct_witness:
  "sc_check (le_bytes 32 sc_l) = CI (- 1) \<and> sc_isnonzero sc_0 = CI 0"
proof -
  have "le_val (le_bytes 32 sc_l) = sc_l" "le_val sc_0 = 0" by code_simp+
  then show ?thesis
    using sc_tests_correct [of "le_bytes 32 sc_l"] sc_tests_correct [of sc_0] by (simp add: sc_0_def)
qed

end
