(* ===== verification/Field.thy ===== *)
theory Field
  imports Scalars
begin

text \<open>
  Field elements of crypto-ops.c: integers modulo \<open>q = 2^255 - 19\<close> in ten signed limbs of
  alternately 26 and 25 bits, held in \<open>int32_t\<close> and multiplied in \<open>int64_t\<close>. The limbs of
  a result are not canonical; only \<open>fe_tobytes\<close> makes them so.
\<close>

type_synonym fe = "i32 list"

section \<open>Addition, subtraction, selection\<close>

definition fe_0 :: fe where
  "fe_0 = [CI 0, CI 0, CI 0, CI 0, CI 0, CI 0, CI 0, CI 0, CI 0, CI 0]"

definition fe_1 :: fe where
  "fe_1 = [CI 1, CI 0, CI 0, CI 0, CI 0, CI 0, CI 0, CI 0, CI 0, CI 0]"

definition fe_add :: "fe \<Rightarrow> fe \<Rightarrow> fe" where
  "fe_add f g = map (\<lambda>i. f ! i + g ! i) [0..<10]"

definition fe_sub :: "fe \<Rightarrow> fe \<Rightarrow> fe" where
  "fe_sub f g = map (\<lambda>i. f ! i - g ! i) [0..<10]"

definition fe_neg :: "fe \<Rightarrow> fe" where
  "fe_neg f = map (\<lambda>i. - (f ! i)) [0..<10]"

definition fe_copy :: "fe \<Rightarrow> fe" where
  "fe_copy f = map (\<lambda>i. f ! i) [0..<10]"

text \<open>\<open>fe_cmov\<close> asserts that \<open>b\<close> is 0 or 1 (\<open>None\<close> stands for the abort), then uses it as the
  mask \<open>-b\<close>. \<open>x0 &= b\<close> converts \<open>x0\<close> to \<open>unsigned int\<close> and the result back.\<close>

definition fe_cmov_guard :: "u32 \<Rightarrow> bool" where
  "fe_cmov_guard b \<longleftrightarrow> ((b - 1) AND NOT b) OR ((b - 2) AND NOT (b - 1)) = - 1"

fun and_unsigned :: "i32 \<Rightarrow> u32 \<Rightarrow> i32" where
  "and_unsigned (CI a) m = of_unsigned (word_of_int a AND m)"
| "and_unsigned UB m = UB"

definition fe_cmov :: "fe \<Rightarrow> fe \<Rightarrow> u32 \<Rightarrow> fe option" where
  "fe_cmov f g b =
     (if fe_cmov_guard b
      then Some (map (\<lambda>i. cxor (f ! i) (and_unsigned (cxor (f ! i) (g ! i)) (- b))) [0..<10])
      else None)"

section \<open>Multiplication and squaring\<close>

text \<open>The declarations of \<open>fe_mul\<close> up to \<open>int64_t h9\<close>. The factors 2 and 19 are applied in
  \<open>int32_t\<close>, the products are \<open>int64_t\<close>.\<close>

definition fe_mul_products :: "fe \<Rightarrow> fe \<Rightarrow> i64 list" where
  "fe_mul_products f g =
     (let f0 = f ! 0; f1 = f ! 1; f2 = f ! 2; f3 = f ! 3; f4 = f ! 4; f5 = f ! 5; f6 = f ! 6;
          f7 = f ! 7; f8 = f ! 8; f9 = f ! 9; g0 = g ! 0; g1 = g ! 1; g2 = g ! 2; g3 = g ! 3;
          g4 = g ! 4; g5 = g ! 5; g6 = g ! 6; g7 = g ! 7; g8 = g ! 8; g9 = g ! 9; g1_19 = CI 19 * g1;
          g2_19 = CI 19 * g2; g3_19 = CI 19 * g3; g4_19 = CI 19 * g4; g5_19 = CI 19 * g5;
          g6_19 = CI 19 * g6; g7_19 = CI 19 * g7; g8_19 = CI 19 * g8; g9_19 = CI 19 * g9;
          f1_2 = CI 2 * f1; f3_2 = CI 2 * f3; f5_2 = CI 2 * f5; f7_2 = CI 2 * f7; f9_2 = CI 2 * f9;
          f0g0 = (ccast f0 :: i64) * ccast g0; f0g1 = (ccast f0 :: i64) * ccast g1;
          f0g2 = (ccast f0 :: i64) * ccast g2; f0g3 = (ccast f0 :: i64) * ccast g3;
          f0g4 = (ccast f0 :: i64) * ccast g4; f0g5 = (ccast f0 :: i64) * ccast g5;
          f0g6 = (ccast f0 :: i64) * ccast g6; f0g7 = (ccast f0 :: i64) * ccast g7;
          f0g8 = (ccast f0 :: i64) * ccast g8; f0g9 = (ccast f0 :: i64) * ccast g9;
          f1g0 = (ccast f1 :: i64) * ccast g0; f1g1_2 = (ccast f1_2 :: i64) * ccast g1;
          f1g2 = (ccast f1 :: i64) * ccast g2; f1g3_2 = (ccast f1_2 :: i64) * ccast g3;
          f1g4 = (ccast f1 :: i64) * ccast g4; f1g5_2 = (ccast f1_2 :: i64) * ccast g5;
          f1g6 = (ccast f1 :: i64) * ccast g6; f1g7_2 = (ccast f1_2 :: i64) * ccast g7;
          f1g8 = (ccast f1 :: i64) * ccast g8; f1g9_38 = (ccast f1_2 :: i64) * ccast g9_19;
          f2g0 = (ccast f2 :: i64) * ccast g0; f2g1 = (ccast f2 :: i64) * ccast g1;
          f2g2 = (ccast f2 :: i64) * ccast g2; f2g3 = (ccast f2 :: i64) * ccast g3;
          f2g4 = (ccast f2 :: i64) * ccast g4; f2g5 = (ccast f2 :: i64) * ccast g5;
          f2g6 = (ccast f2 :: i64) * ccast g6; f2g7 = (ccast f2 :: i64) * ccast g7;
          f2g8_19 = (ccast f2 :: i64) * ccast g8_19; f2g9_19 = (ccast f2 :: i64) * ccast g9_19;
          f3g0 = (ccast f3 :: i64) * ccast g0; f3g1_2 = (ccast f3_2 :: i64) * ccast g1;
          f3g2 = (ccast f3 :: i64) * ccast g2; f3g3_2 = (ccast f3_2 :: i64) * ccast g3;
          f3g4 = (ccast f3 :: i64) * ccast g4; f3g5_2 = (ccast f3_2 :: i64) * ccast g5;
          f3g6 = (ccast f3 :: i64) * ccast g6; f3g7_38 = (ccast f3_2 :: i64) * ccast g7_19;
          f3g8_19 = (ccast f3 :: i64) * ccast g8_19; f3g9_38 = (ccast f3_2 :: i64) * ccast g9_19;
          f4g0 = (ccast f4 :: i64) * ccast g0; f4g1 = (ccast f4 :: i64) * ccast g1;
          f4g2 = (ccast f4 :: i64) * ccast g2; f4g3 = (ccast f4 :: i64) * ccast g3;
          f4g4 = (ccast f4 :: i64) * ccast g4; f4g5 = (ccast f4 :: i64) * ccast g5;
          f4g6_19 = (ccast f4 :: i64) * ccast g6_19; f4g7_19 = (ccast f4 :: i64) * ccast g7_19;
          f4g8_19 = (ccast f4 :: i64) * ccast g8_19; f4g9_19 = (ccast f4 :: i64) * ccast g9_19;
          f5g0 = (ccast f5 :: i64) * ccast g0; f5g1_2 = (ccast f5_2 :: i64) * ccast g1;
          f5g2 = (ccast f5 :: i64) * ccast g2; f5g3_2 = (ccast f5_2 :: i64) * ccast g3;
          f5g4 = (ccast f5 :: i64) * ccast g4; f5g5_38 = (ccast f5_2 :: i64) * ccast g5_19;
          f5g6_19 = (ccast f5 :: i64) * ccast g6_19; f5g7_38 = (ccast f5_2 :: i64) * ccast g7_19;
          f5g8_19 = (ccast f5 :: i64) * ccast g8_19; f5g9_38 = (ccast f5_2 :: i64) * ccast g9_19;
          f6g0 = (ccast f6 :: i64) * ccast g0; f6g1 = (ccast f6 :: i64) * ccast g1;
          f6g2 = (ccast f6 :: i64) * ccast g2; f6g3 = (ccast f6 :: i64) * ccast g3;
          f6g4_19 = (ccast f6 :: i64) * ccast g4_19; f6g5_19 = (ccast f6 :: i64) * ccast g5_19;
          f6g6_19 = (ccast f6 :: i64) * ccast g6_19; f6g7_19 = (ccast f6 :: i64) * ccast g7_19;
          f6g8_19 = (ccast f6 :: i64) * ccast g8_19; f6g9_19 = (ccast f6 :: i64) * ccast g9_19;
          f7g0 = (ccast f7 :: i64) * ccast g0; f7g1_2 = (ccast f7_2 :: i64) * ccast g1;
          f7g2 = (ccast f7 :: i64) * ccast g2; f7g3_38 = (ccast f7_2 :: i64) * ccast g3_19;
          f7g4_19 = (ccast f7 :: i64) * ccast g4_19; f7g5_38 = (ccast f7_2 :: i64) * ccast g5_19;
          f7g6_19 = (ccast f7 :: i64) * ccast g6_19; f7g7_38 = (ccast f7_2 :: i64) * ccast g7_19;
          f7g8_19 = (ccast f7 :: i64) * ccast g8_19; f7g9_38 = (ccast f7_2 :: i64) * ccast g9_19;
          f8g0 = (ccast f8 :: i64) * ccast g0; f8g1 = (ccast f8 :: i64) * ccast g1;
          f8g2_19 = (ccast f8 :: i64) * ccast g2_19; f8g3_19 = (ccast f8 :: i64) * ccast g3_19;
          f8g4_19 = (ccast f8 :: i64) * ccast g4_19; f8g5_19 = (ccast f8 :: i64) * ccast g5_19;
          f8g6_19 = (ccast f8 :: i64) * ccast g6_19; f8g7_19 = (ccast f8 :: i64) * ccast g7_19;
          f8g8_19 = (ccast f8 :: i64) * ccast g8_19; f8g9_19 = (ccast f8 :: i64) * ccast g9_19;
          f9g0 = (ccast f9 :: i64) * ccast g0; f9g1_38 = (ccast f9_2 :: i64) * ccast g1_19;
          f9g2_19 = (ccast f9 :: i64) * ccast g2_19; f9g3_38 = (ccast f9_2 :: i64) * ccast g3_19;
          f9g4_19 = (ccast f9 :: i64) * ccast g4_19; f9g5_38 = (ccast f9_2 :: i64) * ccast g5_19;
          f9g6_19 = (ccast f9 :: i64) * ccast g6_19; f9g7_38 = (ccast f9_2 :: i64) * ccast g7_19;
          f9g8_19 = (ccast f9 :: i64) * ccast g8_19; f9g9_38 = (ccast f9_2 :: i64) * ccast g9_19;
          h0 = f0g0 + f1g9_38 + f2g8_19 + f3g7_38 + f4g6_19 + f5g5_38 + f6g4_19 + f7g3_38 + f8g2_19 + f9g1_38;
          h1 = f0g1 + f1g0 + f2g9_19 + f3g8_19 + f4g7_19 + f5g6_19 + f6g5_19 + f7g4_19 + f8g3_19 + f9g2_19;
          h2 = f0g2 + f1g1_2 + f2g0 + f3g9_38 + f4g8_19 + f5g7_38 + f6g6_19 + f7g5_38 + f8g4_19 + f9g3_38;
          h3 = f0g3 + f1g2 + f2g1 + f3g0 + f4g9_19 + f5g8_19 + f6g7_19 + f7g6_19 + f8g5_19 + f9g4_19;
          h4 = f0g4 + f1g3_2 + f2g2 + f3g1_2 + f4g0 + f5g9_38 + f6g8_19 + f7g7_38 + f8g6_19 + f9g5_38;
          h5 = f0g5 + f1g4 + f2g3 + f3g2 + f4g1 + f5g0 + f6g9_19 + f7g8_19 + f8g7_19 + f9g6_19;
          h6 = f0g6 + f1g5_2 + f2g4 + f3g3_2 + f4g2 + f5g1_2 + f6g0 + f7g9_38 + f8g8_19 + f9g7_38;
          h7 = f0g7 + f1g6 + f2g5 + f3g4 + f4g3 + f5g2 + f6g1 + f7g0 + f8g9_19 + f9g8_19;
          h8 = f0g8 + f1g7_2 + f2g6 + f3g5_2 + f4g4 + f5g3_2 + f6g2 + f7g1_2 + f8g0 + f9g9_38;
          h9 = f0g9 + f1g8 + f2g7 + f3g6 + f4g5 + f5g4 + f6g3 + f7g2 + f8g1 + f9g0
      in [h0, h1, h2, h3, h4, h5, h6, h7, h8, h9])"

text \<open>The declarations of \<open>fe_sq\<close>, which \<open>fe_sq2\<close> repeats.\<close>

definition fe_sq_products :: "fe \<Rightarrow> i64 list" where
  "fe_sq_products f =
     (let f0 = f ! 0; f1 = f ! 1; f2 = f ! 2; f3 = f ! 3; f4 = f ! 4; f5 = f ! 5; f6 = f ! 6;
          f7 = f ! 7; f8 = f ! 8; f9 = f ! 9; f0_2 = CI 2 * f0; f1_2 = CI 2 * f1; f2_2 = CI 2 * f2;
          f3_2 = CI 2 * f3; f4_2 = CI 2 * f4; f5_2 = CI 2 * f5; f6_2 = CI 2 * f6; f7_2 = CI 2 * f7;
          f5_38 = CI 38 * f5; f6_19 = CI 19 * f6; f7_38 = CI 38 * f7; f8_19 = CI 19 * f8;
          f9_38 = CI 38 * f9; f0f0 = (ccast f0 :: i64) * ccast f0;
          f0f1_2 = (ccast f0_2 :: i64) * ccast f1; f0f2_2 = (ccast f0_2 :: i64) * ccast f2;
          f0f3_2 = (ccast f0_2 :: i64) * ccast f3; f0f4_2 = (ccast f0_2 :: i64) * ccast f4;
          f0f5_2 = (ccast f0_2 :: i64) * ccast f5; f0f6_2 = (ccast f0_2 :: i64) * ccast f6;
          f0f7_2 = (ccast f0_2 :: i64) * ccast f7; f0f8_2 = (ccast f0_2 :: i64) * ccast f8;
          f0f9_2 = (ccast f0_2 :: i64) * ccast f9; f1f1_2 = (ccast f1_2 :: i64) * ccast f1;
          f1f2_2 = (ccast f1_2 :: i64) * ccast f2; f1f3_4 = (ccast f1_2 :: i64) * ccast f3_2;
          f1f4_2 = (ccast f1_2 :: i64) * ccast f4; f1f5_4 = (ccast f1_2 :: i64) * ccast f5_2;
          f1f6_2 = (ccast f1_2 :: i64) * ccast f6; f1f7_4 = (ccast f1_2 :: i64) * ccast f7_2;
          f1f8_2 = (ccast f1_2 :: i64) * ccast f8; f1f9_76 = (ccast f1_2 :: i64) * ccast f9_38;
          f2f2 = (ccast f2 :: i64) * ccast f2; f2f3_2 = (ccast f2_2 :: i64) * ccast f3;
          f2f4_2 = (ccast f2_2 :: i64) * ccast f4; f2f5_2 = (ccast f2_2 :: i64) * ccast f5;
          f2f6_2 = (ccast f2_2 :: i64) * ccast f6; f2f7_2 = (ccast f2_2 :: i64) * ccast f7;
          f2f8_38 = (ccast f2_2 :: i64) * ccast f8_19; f2f9_38 = (ccast f2 :: i64) * ccast f9_38;
          f3f3_2 = (ccast f3_2 :: i64) * ccast f3; f3f4_2 = (ccast f3_2 :: i64) * ccast f4;
          f3f5_4 = (ccast f3_2 :: i64) * ccast f5_2; f3f6_2 = (ccast f3_2 :: i64) * ccast f6;
          f3f7_76 = (ccast f3_2 :: i64) * ccast f7_38; f3f8_38 = (ccast f3_2 :: i64) * ccast f8_19;
          f3f9_76 = (ccast f3_2 :: i64) * ccast f9_38; f4f4 = (ccast f4 :: i64) * ccast f4;
          f4f5_2 = (ccast f4_2 :: i64) * ccast f5; f4f6_38 = (ccast f4_2 :: i64) * ccast f6_19;
          f4f7_38 = (ccast f4 :: i64) * ccast f7_38; f4f8_38 = (ccast f4_2 :: i64) * ccast f8_19;
          f4f9_38 = (ccast f4 :: i64) * ccast f9_38; f5f5_38 = (ccast f5 :: i64) * ccast f5_38;
          f5f6_38 = (ccast f5_2 :: i64) * ccast f6_19; f5f7_76 = (ccast f5_2 :: i64) * ccast f7_38;
          f5f8_38 = (ccast f5_2 :: i64) * ccast f8_19; f5f9_76 = (ccast f5_2 :: i64) * ccast f9_38;
          f6f6_19 = (ccast f6 :: i64) * ccast f6_19; f6f7_38 = (ccast f6 :: i64) * ccast f7_38;
          f6f8_38 = (ccast f6_2 :: i64) * ccast f8_19; f6f9_38 = (ccast f6 :: i64) * ccast f9_38;
          f7f7_38 = (ccast f7 :: i64) * ccast f7_38; f7f8_38 = (ccast f7_2 :: i64) * ccast f8_19;
          f7f9_76 = (ccast f7_2 :: i64) * ccast f9_38; f8f8_19 = (ccast f8 :: i64) * ccast f8_19;
          f8f9_38 = (ccast f8 :: i64) * ccast f9_38; f9f9_38 = (ccast f9 :: i64) * ccast f9_38;
          h0 = f0f0 + f1f9_76 + f2f8_38 + f3f7_76 + f4f6_38 + f5f5_38;
          h1 = f0f1_2 + f2f9_38 + f3f8_38 + f4f7_38 + f5f6_38;
          h2 = f0f2_2 + f1f1_2 + f3f9_76 + f4f8_38 + f5f7_76 + f6f6_19;
          h3 = f0f3_2 + f1f2_2 + f4f9_38 + f5f8_38 + f6f7_38;
          h4 = f0f4_2 + f1f3_4 + f2f2 + f5f9_76 + f6f8_38 + f7f7_38;
          h5 = f0f5_2 + f1f4_2 + f2f3_2 + f6f9_38 + f7f8_38;
          h6 = f0f6_2 + f1f5_4 + f2f4_2 + f3f3_2 + f7f9_76 + f8f8_19;
          h7 = f0f7_2 + f1f6_2 + f2f5_2 + f3f4_2 + f8f9_38;
          h8 = f0f8_2 + f1f7_4 + f2f6_2 + f3f5_4 + f4f4 + f9f9_38;
          h9 = f0f9_2 + f1f8_2 + f2f7_2 + f3f6_2 + f4f5_2
      in [h0, h1, h2, h3, h4, h5, h6, h7, h8, h9])"

text \<open>The twelve carries that follow, \<open>carry0 = (h0 + (int64_t) (1<<25)) >> 26; \<dots>\<close>.\<close>

definition fe_carry :: "i64 list \<Rightarrow> i64 list" where
  "fe_carry h =
     (let h = carry_round 26 0 1 h; h = carry_round 26 4 5 h;
          h = carry_round 25 1 2 h; h = carry_round 25 5 6 h;
          h = carry_round 26 2 3 h; h = carry_round 26 6 7 h;
          h = carry_round 25 3 4 h; h = carry_round 25 7 8 h;
          h = carry_round 26 4 5 h; h = carry_round 26 8 9 h;
          h = carry_round_mul 25 9 0 19 h;
          h = carry_round 26 0 1 h
      in h)"

text \<open>\<open>h[0] = h0; \<dots>; h[9] = h9;\<close>, a conversion of \<open>int64_t\<close> to \<open>int32_t\<close>.\<close>

definition fe_store :: "i64 list \<Rightarrow> fe" where
  "fe_store h = map (\<lambda>i. ccast (h ! i)) [0..<10]"

definition fe_mul :: "fe \<Rightarrow> fe \<Rightarrow> fe" where
  "fe_mul f g = fe_store (fe_carry (fe_mul_products f g))"

definition fe_sq :: "fe \<Rightarrow> fe" where
  "fe_sq f = fe_store (fe_carry (fe_sq_products f))"

definition fe_sq2 :: "fe \<Rightarrow> fe" where
  "fe_sq2 f = fe_store (fe_carry (map (\<lambda>h. h + h) (fe_sq_products f)))"

section \<open>Inversion and powers\<close>

text \<open>\<open>for (i = 0; i < n; ++i) { fe_sq(t, t); }\<close>\<close>

definition fe_sqn :: "nat \<Rightarrow> fe \<Rightarrow> fe" where
  "fe_sqn n t = (fe_sq ^^ n) t"

definition fe_invert :: "fe \<Rightarrow> fe" where
  "fe_invert z =
     (let t0 = fe_sq z;
          t1 = fe_sq t0;
          t1 = fe_sq t1;
          t1 = fe_mul z t1;
          t0 = fe_mul t0 t1;
          t2 = fe_sq t0;
          t1 = fe_mul t1 t2;
          t2 = fe_sq t1;
          t2 = fe_sqn 4 t2;
          t1 = fe_mul t2 t1;
          t2 = fe_sq t1;
          t2 = fe_sqn 9 t2;
          t2 = fe_mul t2 t1;
          t3 = fe_sq t2;
          t3 = fe_sqn 19 t3;
          t2 = fe_mul t3 t2;
          t2 = fe_sq t2;
          t2 = fe_sqn 9 t2;
          t1 = fe_mul t2 t1;
          t2 = fe_sq t1;
          t2 = fe_sqn 49 t2;
          t2 = fe_mul t2 t1;
          t3 = fe_sq t2;
          t3 = fe_sqn 99 t3;
          t2 = fe_mul t3 t2;
          t2 = fe_sq t2;
          t2 = fe_sqn 49 t2;
          t1 = fe_mul t2 t1;
          t1 = fe_sq t1;
          t1 = fe_sqn 4 t1
      in fe_mul t1 t0)"

definition fe_divpowm1 :: "fe \<Rightarrow> fe \<Rightarrow> fe" where
  "fe_divpowm1 u v =
     (let v3 = fe_sq v;
          v3 = fe_mul v3 v;
          uv7 = fe_sq v3;
          uv7 = fe_mul uv7 v;
          uv7 = fe_mul uv7 u;
          t0 = fe_sq uv7;
          t1 = fe_sq t0;
          t1 = fe_sq t1;
          t1 = fe_mul uv7 t1;
          t0 = fe_mul t0 t1;
          t0 = fe_sq t0;
          t0 = fe_mul t1 t0;
          t1 = fe_sq t0;
          t1 = fe_sqn 4 t1;
          t0 = fe_mul t1 t0;
          t1 = fe_sq t0;
          t1 = fe_sqn 9 t1;
          t1 = fe_mul t1 t0;
          t2 = fe_sq t1;
          t2 = fe_sqn 19 t2;
          t1 = fe_mul t2 t1;
          t1 = fe_sqn 10 t1;
          t0 = fe_mul t1 t0;
          t1 = fe_sq t0;
          t1 = fe_sqn 49 t1;
          t1 = fe_mul t1 t0;
          t2 = fe_sq t1;
          t2 = fe_sqn 99 t2;
          t1 = fe_mul t2 t1;
          t1 = fe_sqn 50 t1;
          t0 = fe_mul t1 t0;
          t0 = fe_sq t0;
          t0 = fe_sq t0;
          t0 = fe_mul t0 uv7;
          t0 = fe_mul t0 v3
      in fe_mul t0 u)"

section \<open>Bytes\<close>

text \<open>\<open>fe_tobytes\<close>: the quotient \<open>q\<close> of the whole number by \<open>2^255 - 19\<close> is estimated from the
  limbs, \<open>19 * q\<close> is added, the carries run to the top, and the carry out of limb 9 is dropped.\<close>

definition fe_quotient :: "fe \<Rightarrow> i32" where
  "fe_quotient h =
     (let q = shr (CI 19 * h ! 9 + CI (2 ^ 24)) 25;
          q = shr (h ! 0 + q) 26;
          q = shr (h ! 1 + q) 25;
          q = shr (h ! 2 + q) 26;
          q = shr (h ! 3 + q) 25;
          q = shr (h ! 4 + q) 26;
          q = shr (h ! 5 + q) 25;
          q = shr (h ! 6 + q) 26;
          q = shr (h ! 7 + q) 25;
          q = shr (h ! 8 + q) 26;
          q = shr (h ! 9 + q) 25
      in q)"

definition fe_freeze :: "fe \<Rightarrow> fe" where
  "fe_freeze h =
     (let h = h[0 := h ! 0 + CI 19 * fe_quotient h];
          h = carry_floor 26 0 1 h;
          h = carry_floor 25 1 2 h;
          h = carry_floor 26 2 3 h;
          h = carry_floor 25 3 4 h;
          h = carry_floor 26 4 5 h;
          h = carry_floor 25 5 6 h;
          h = carry_floor 26 6 7 h;
          h = carry_floor 25 7 8 h;
          h = carry_floor 26 8 9 h;
          carry9 = shr (h ! 9) 25
      in h[9 := h ! 9 - shl carry9 25])"

definition fe_pack :: "fe \<Rightarrow> u8 list option" where
  "fe_pack h = opts (map to_u8
     [shr (h ! 0) 0, shr (h ! 0) 8, shr (h ! 0) 16, cor (shr (h ! 0) 24) (shl (h ! 1) 2),
      shr (h ! 1) 6, shr (h ! 1) 14, cor (shr (h ! 1) 22) (shl (h ! 2) 3),
      shr (h ! 2) 5, shr (h ! 2) 13, cor (shr (h ! 2) 21) (shl (h ! 3) 5),
      shr (h ! 3) 3, shr (h ! 3) 11, cor (shr (h ! 3) 19) (shl (h ! 4) 6),
      shr (h ! 4) 2, shr (h ! 4) 10, shr (h ! 4) 18,
      shr (h ! 5) 0, shr (h ! 5) 8, shr (h ! 5) 16, cor (shr (h ! 5) 24) (shl (h ! 6) 1),
      shr (h ! 6) 7, shr (h ! 6) 15, cor (shr (h ! 6) 23) (shl (h ! 7) 3),
      shr (h ! 7) 5, shr (h ! 7) 13, cor (shr (h ! 7) 21) (shl (h ! 8) 4),
      shr (h ! 8) 4, shr (h ! 8) 12, cor (shr (h ! 8) 20) (shl (h ! 9) 6),
      shr (h ! 9) 2, shr (h ! 9) 10, shr (h ! 9) 18])"

definition fe_tobytes :: "fe \<Rightarrow> u8 list option" where
  "fe_tobytes h = fe_pack (fe_freeze h)"

text \<open>Two tests on the bytes; \<open>UB\<close> when \<open>fe_tobytes\<close> has none.\<close>

definition fe_isnegative :: "fe \<Rightarrow> i32" where
  "fe_isnegative f = (case fe_tobytes f of None \<Rightarrow> UB | Some s \<Rightarrow> of_unsigned (s ! 0 AND 1))"

definition fe_isnonzero :: "fe \<Rightarrow> i32" where
  "fe_isnonzero f =
     (case fe_tobytes f of None \<Rightarrow> UB
      | Some s \<Rightarrow> shr (of_unsigned (fold (\<lambda>i acc. acc OR s ! i) [1..<32] (s ! 0)) - CI 1) 8 + CI 1)"

text \<open>\<open>fe_frombytes\<close>, inlined in \<open>ge_frombytes_vartime\<close> and \<open>ge_fromfe_frombytes_vartime\<close>:
  the loads (the first clears the top bit, the second does not) and the carries.\<close>

definition fe_load_limbs :: "u8 list \<Rightarrow> u64 \<Rightarrow> i64 list" where
  "fe_load_limbs s t9 = map of_unsigned
     [load_4 s 0, push_bit 6 (load_3 s 4), push_bit 5 (load_3 s 7), push_bit 3 (load_3 s 10),
      push_bit 2 (load_3 s 13), load_4 s 16, push_bit 7 (load_3 s 20), push_bit 5 (load_3 s 23),
      push_bit 4 (load_3 s 26), push_bit 2 t9]"

definition fe_load255 :: "u8 list \<Rightarrow> i64 list" where
  "fe_load255 s = fe_load_limbs s (load_3 s 29 AND 8388607)"

definition fe_load256 :: "u8 list \<Rightarrow> i64 list" where
  "fe_load256 s = fe_load_limbs s (load_3 s 29)"

definition fe_load_carry :: "i64 list \<Rightarrow> fe" where
  "fe_load_carry h =
     (let h = carry_round_mul 25 9 0 19 h;
          h = carry_round 25 1 2 h; h = carry_round 25 3 4 h;
          h = carry_round 25 5 6 h; h = carry_round 25 7 8 h;
          h = carry_round 26 0 1 h; h = carry_round 26 2 3 h;
          h = carry_round 26 4 5 h; h = carry_round 26 6 7 h;
          h = carry_round 26 8 9 h
      in fe_store h)"

end
