(* ===== verification/Field_Mul.thy ===== *)
theory Field_Mul
  imports Field
begin

text \<open>
  The multiplication of field elements. \<open>fe_mul_int\<close> and \<open>fe_sq_int\<close> are the sums of products
  of \<open>fe_mul\<close> and \<open>fe_sq\<close> on integers. Under the bounds the comments of the code state for the
  operands, the machine computes exactly these, no operation overflows, the sums are the
  product of the two numbers modulo \<open>2^255 - 19\<close>, and the carries bring the limbs back to the
  bounds the comments state for the result.
\<close>

section \<open>The sums of products on integers\<close>

definition fe_mul_int :: "int list \<Rightarrow> int list \<Rightarrow> int list" where
  "fe_mul_int f g =
     (let f0 = f ! 0; f1 = f ! 1; f2 = f ! 2; f3 = f ! 3; f4 = f ! 4; f5 = f ! 5; f6 = f ! 6;
          f7 = f ! 7; f8 = f ! 8; f9 = f ! 9; g0 = g ! 0; g1 = g ! 1; g2 = g ! 2; g3 = g ! 3;
          g4 = g ! 4; g5 = g ! 5; g6 = g ! 6; g7 = g ! 7; g8 = g ! 8; g9 = g ! 9; g1_19 = 19 * g1;
          g2_19 = 19 * g2; g3_19 = 19 * g3; g4_19 = 19 * g4; g5_19 = 19 * g5;
          g6_19 = 19 * g6; g7_19 = 19 * g7; g8_19 = 19 * g8; g9_19 = 19 * g9;
          f1_2 = 2 * f1; f3_2 = 2 * f3; f5_2 = 2 * f5; f7_2 = 2 * f7; f9_2 = 2 * f9;
          f0g0 = f0 * g0; f0g1 = f0 * g1;
          f0g2 = f0 * g2; f0g3 = f0 * g3;
          f0g4 = f0 * g4; f0g5 = f0 * g5;
          f0g6 = f0 * g6; f0g7 = f0 * g7;
          f0g8 = f0 * g8; f0g9 = f0 * g9;
          f1g0 = f1 * g0; f1g1_2 = f1_2 * g1;
          f1g2 = f1 * g2; f1g3_2 = f1_2 * g3;
          f1g4 = f1 * g4; f1g5_2 = f1_2 * g5;
          f1g6 = f1 * g6; f1g7_2 = f1_2 * g7;
          f1g8 = f1 * g8; f1g9_38 = f1_2 * g9_19;
          f2g0 = f2 * g0; f2g1 = f2 * g1;
          f2g2 = f2 * g2; f2g3 = f2 * g3;
          f2g4 = f2 * g4; f2g5 = f2 * g5;
          f2g6 = f2 * g6; f2g7 = f2 * g7;
          f2g8_19 = f2 * g8_19; f2g9_19 = f2 * g9_19;
          f3g0 = f3 * g0; f3g1_2 = f3_2 * g1;
          f3g2 = f3 * g2; f3g3_2 = f3_2 * g3;
          f3g4 = f3 * g4; f3g5_2 = f3_2 * g5;
          f3g6 = f3 * g6; f3g7_38 = f3_2 * g7_19;
          f3g8_19 = f3 * g8_19; f3g9_38 = f3_2 * g9_19;
          f4g0 = f4 * g0; f4g1 = f4 * g1;
          f4g2 = f4 * g2; f4g3 = f4 * g3;
          f4g4 = f4 * g4; f4g5 = f4 * g5;
          f4g6_19 = f4 * g6_19; f4g7_19 = f4 * g7_19;
          f4g8_19 = f4 * g8_19; f4g9_19 = f4 * g9_19;
          f5g0 = f5 * g0; f5g1_2 = f5_2 * g1;
          f5g2 = f5 * g2; f5g3_2 = f5_2 * g3;
          f5g4 = f5 * g4; f5g5_38 = f5_2 * g5_19;
          f5g6_19 = f5 * g6_19; f5g7_38 = f5_2 * g7_19;
          f5g8_19 = f5 * g8_19; f5g9_38 = f5_2 * g9_19;
          f6g0 = f6 * g0; f6g1 = f6 * g1;
          f6g2 = f6 * g2; f6g3 = f6 * g3;
          f6g4_19 = f6 * g4_19; f6g5_19 = f6 * g5_19;
          f6g6_19 = f6 * g6_19; f6g7_19 = f6 * g7_19;
          f6g8_19 = f6 * g8_19; f6g9_19 = f6 * g9_19;
          f7g0 = f7 * g0; f7g1_2 = f7_2 * g1;
          f7g2 = f7 * g2; f7g3_38 = f7_2 * g3_19;
          f7g4_19 = f7 * g4_19; f7g5_38 = f7_2 * g5_19;
          f7g6_19 = f7 * g6_19; f7g7_38 = f7_2 * g7_19;
          f7g8_19 = f7 * g8_19; f7g9_38 = f7_2 * g9_19;
          f8g0 = f8 * g0; f8g1 = f8 * g1;
          f8g2_19 = f8 * g2_19; f8g3_19 = f8 * g3_19;
          f8g4_19 = f8 * g4_19; f8g5_19 = f8 * g5_19;
          f8g6_19 = f8 * g6_19; f8g7_19 = f8 * g7_19;
          f8g8_19 = f8 * g8_19; f8g9_19 = f8 * g9_19;
          f9g0 = f9 * g0; f9g1_38 = f9_2 * g1_19;
          f9g2_19 = f9 * g2_19; f9g3_38 = f9_2 * g3_19;
          f9g4_19 = f9 * g4_19; f9g5_38 = f9_2 * g5_19;
          f9g6_19 = f9 * g6_19; f9g7_38 = f9_2 * g7_19;
          f9g8_19 = f9 * g8_19; f9g9_38 = f9_2 * g9_19;
          h0 = f0g0 + f1g9_38 + f2g8_19 + f3g7_38 + f4g6_19 + f5g5_38 + f6g4_19 + f7g3_38 + f8g2_19 + f9g1_38;
          h1 = f0g1 + f1g0 + f2g9_19 + f3g8_19 + f4g7_19 + f5g6_19 + f6g5_19 + f7g4_19 + f8g3_19 + f9g2_19;
          h2 = f0g2 + f1g1_2 + f2g0 + f3g9_38 + f4g8_19 + f5g7_38 + f6g6_19 + f7g5_38 + f8g4_19 + f9g3_38;
          h3 = f0g3 + f1g2 + f2g1 + f3g0 + f4g9_19 + f5g8_19 + f6g7_19 + f7g6_19 + f8g5_19 + f9g4_19;
          h4 = f0g4 + f1g3_2 + f2g2 + f3g1_2 + f4g0 + f5g9_38 + f6g8_19 + f7g7_38 + f8g6_19 + f9g5_38;
          h5 = f0g5 + f1g4 + f2g3 + f3g2 + f4g1 + f5g0 + f6g9_19 + f7g8_19 + f8g7_19 + f9g6_19;
          h6 = f0g6 + f1g5_2 + f2g4 + f3g3_2 + f4g2 + f5g1_2 + f6g0 + f7g9_38 + f8g8_19 + f9g7_38;
          h7 = f0g7 + f1g6 + f2g5 + f3g4 + f4g3 + f5g2 + f6g1 + f7g0 + f8g9_19 + f9g8_19;
          h8 = f0g8 + f1g7_2 + f2g6 + f3g5_2 + f4g4 + f5g3_2 + f6g2 + f7g1_2 + f8g0 + f9g9_38;
          h9 = f0g9 + f1g8 + f2g7 + f3g6 + f4g5 + f5g4 + f6g3 + f7g2 + f8g1 + f9g0
      in [h0, h1, h2, h3, h4, h5, h6, h7, h8, h9])"

definition fe_sq_int :: "int list \<Rightarrow> int list" where
  "fe_sq_int f =
     (let f0 = f ! 0; f1 = f ! 1; f2 = f ! 2; f3 = f ! 3; f4 = f ! 4; f5 = f ! 5; f6 = f ! 6;
          f7 = f ! 7; f8 = f ! 8; f9 = f ! 9; f0_2 = 2 * f0; f1_2 = 2 * f1; f2_2 = 2 * f2;
          f3_2 = 2 * f3; f4_2 = 2 * f4; f5_2 = 2 * f5; f6_2 = 2 * f6; f7_2 = 2 * f7;
          f5_38 = 38 * f5; f6_19 = 19 * f6; f7_38 = 38 * f7; f8_19 = 19 * f8;
          f9_38 = 38 * f9; f0f0 = f0 * f0;
          f0f1_2 = f0_2 * f1; f0f2_2 = f0_2 * f2;
          f0f3_2 = f0_2 * f3; f0f4_2 = f0_2 * f4;
          f0f5_2 = f0_2 * f5; f0f6_2 = f0_2 * f6;
          f0f7_2 = f0_2 * f7; f0f8_2 = f0_2 * f8;
          f0f9_2 = f0_2 * f9; f1f1_2 = f1_2 * f1;
          f1f2_2 = f1_2 * f2; f1f3_4 = f1_2 * f3_2;
          f1f4_2 = f1_2 * f4; f1f5_4 = f1_2 * f5_2;
          f1f6_2 = f1_2 * f6; f1f7_4 = f1_2 * f7_2;
          f1f8_2 = f1_2 * f8; f1f9_76 = f1_2 * f9_38;
          f2f2 = f2 * f2; f2f3_2 = f2_2 * f3;
          f2f4_2 = f2_2 * f4; f2f5_2 = f2_2 * f5;
          f2f6_2 = f2_2 * f6; f2f7_2 = f2_2 * f7;
          f2f8_38 = f2_2 * f8_19; f2f9_38 = f2 * f9_38;
          f3f3_2 = f3_2 * f3; f3f4_2 = f3_2 * f4;
          f3f5_4 = f3_2 * f5_2; f3f6_2 = f3_2 * f6;
          f3f7_76 = f3_2 * f7_38; f3f8_38 = f3_2 * f8_19;
          f3f9_76 = f3_2 * f9_38; f4f4 = f4 * f4;
          f4f5_2 = f4_2 * f5; f4f6_38 = f4_2 * f6_19;
          f4f7_38 = f4 * f7_38; f4f8_38 = f4_2 * f8_19;
          f4f9_38 = f4 * f9_38; f5f5_38 = f5 * f5_38;
          f5f6_38 = f5_2 * f6_19; f5f7_76 = f5_2 * f7_38;
          f5f8_38 = f5_2 * f8_19; f5f9_76 = f5_2 * f9_38;
          f6f6_19 = f6 * f6_19; f6f7_38 = f6 * f7_38;
          f6f8_38 = f6_2 * f8_19; f6f9_38 = f6 * f9_38;
          f7f7_38 = f7 * f7_38; f7f8_38 = f7_2 * f8_19;
          f7f9_76 = f7_2 * f9_38; f8f8_19 = f8 * f8_19;
          f8f9_38 = f8 * f9_38; f9f9_38 = f9 * f9_38;
          h0 = f0f0 + f1f9_76 + f2f8_38 + f3f7_76 + f4f6_38 + f5f5_38;
          h1 = f0f1_2 + f2f9_38 + f3f8_38 + f4f7_38 + f5f6_38;
          h2 = f0f2_2 + f1f1_2 + f3f9_76 + f4f8_38 + f5f7_76 + f6f6_19;
          h3 = f0f3_2 + f1f2_2 + f4f9_38 + f5f8_38 + f6f7_38;
          h4 = f0f4_2 + f1f3_4 + f2f2 + f5f9_76 + f6f8_38 + f7f7_38;
          h5 = f0f5_2 + f1f4_2 + f2f3_2 + f6f9_38 + f7f8_38;
          h6 = f0f6_2 + f1f5_4 + f2f4_2 + f3f3_2 + f7f9_76 + f8f8_19;
          h7 = f0f7_2 + f1f6_2 + f2f5_2 + f3f4_2 + f8f9_38;
          h8 = f0f8_2 + f1f7_4 + f2f6_2 + f3f5_4 + f4f4 + f9f9_38;
          h9 = f0f9_2 + f1f8_2 + f2f7_2 + f3f6_2 + f4f5_2
      in [h0, h1, h2, h3, h4, h5, h6, h7, h8, h9])"


lemma nth10:
  "[a, b, c, d, e, f, g, h, i, j] ! 0 = a" "[a, b, c, d, e, f, g, h, i, j] ! 1 = b"
  "[a, b, c, d, e, f, g, h, i, j] ! 2 = c" "[a, b, c, d, e, f, g, h, i, j] ! 3 = d"
  "[a, b, c, d, e, f, g, h, i, j] ! 4 = e" "[a, b, c, d, e, f, g, h, i, j] ! 5 = f"
  "[a, b, c, d, e, f, g, h, i, j] ! 6 = g" "[a, b, c, d, e, f, g, h, i, j] ! 7 = h"
  "[a, b, c, d, e, f, g, h, i, j] ! 8 = i" "[a, b, c, d, e, f, g, h, i, j] ! 9 = j"
  by simp_all

text \<open>Limb \<open>i\<close> has weight \<open>2 ^ (25.5 * i)\<close>, the exponent rounded up.\<close>

definition fe_weight :: "nat \<Rightarrow> nat" where
  "fe_weight i = (51 * i + 1) div 2"

abbreviation fe_num :: "int list \<Rightarrow> int" where
  "fe_num \<equiv> wsum fe_weight 10"

definition fe_q :: int where
  "fe_q = 2 ^ 255 - 19"

text \<open>\<open>fe_box k\<close>: the limbs are at most \<open>k/100\<close> times 2^25, 2^24, 2^25, 2^24, \dots in absolute
  value, so \<open>fe_box 110\<close> is what the comments of the code write as
  "bounded by 1.1*2^25,1.1*2^24,1.1*2^25,1.1*2^24,etc." and \<open>fe_box 330\<close> is 1.65*2^26, 1.65*2^25, \dots.\<close>

definition fe_box :: "int \<Rightarrow> ival list" where
  "fe_box k = map (\<lambda>i. let b = k * (if even i then 2 ^ 25 else 2 ^ 24) div 100 in (- b, b)) [0..<10]"

lemma length_fe_box [simp]: "length (fe_box k) = 10"
  by (simp add: fe_box_def)

lemma fe_box_330: "fe_box 330 =
  [(- 110729625, 110729625), (- 55364812, 55364812), (- 110729625, 110729625), (- 55364812, 55364812),
   (- 110729625, 110729625), (- 55364812, 55364812), (- 110729625, 110729625), (- 55364812, 55364812),
   (- 110729625, 110729625), (- 55364812, 55364812)]"
  by code_simp

definition fe_product_box :: "ival list" where
  "fe_product_box = replicate 10 (- (2 ^ 61), 2 ^ 61)"

lemma fe_product_box_eq: "fe_product_box =
  [(- (2 ^ 61), 2 ^ 61), (- (2 ^ 61), 2 ^ 61), (- (2 ^ 61), 2 ^ 61), (- (2 ^ 61), 2 ^ 61),
   (- (2 ^ 61), 2 ^ 61), (- (2 ^ 61), 2 ^ 61), (- (2 ^ 61), 2 ^ 61), (- (2 ^ 61), 2 ^ 61),
   (- (2 ^ 61), 2 ^ 61), (- (2 ^ 61), 2 ^ 61)]"
  by (simp add: fe_product_box_def eval_nat_numeral)

lemma within_in_box:
  assumes "within f v (fe_box 330)"
  shows "\<exists>v0 v1 v2 v3 v4 v5 v6 v7 v8 v9. v = [v0, v1, v2, v3, v4, v5, v6, v7, v8, v9] \<and>
    f = map CI [v0, v1, v2, v3, v4, v5, v6, v7, v8, v9] \<and>
    mag (CI v0 :: i32) v0 110729625 \<and> mag (CI v1 :: i32) v1 55364812 \<and>
    mag (CI v2 :: i32) v2 110729625 \<and> mag (CI v3 :: i32) v3 55364812 \<and>
    mag (CI v4 :: i32) v4 110729625 \<and> mag (CI v5 :: i32) v5 55364812 \<and>
    mag (CI v6 :: i32) v6 110729625 \<and> mag (CI v7 :: i32) v7 55364812 \<and>
    mag (CI v8 :: i32) v8 110729625 \<and> mag (CI v9 :: i32) v9 55364812"
  using assms unfolding within_def fe_box_330
  by (auto simp: list_all2_Cons2 mag_def abs_le_iff)

lemma within_mag_Cons: "mag x v m \<Longrightarrow> within xs vs B \<Longrightarrow> m \<le> M \<Longrightarrow> within (x # xs) (v # vs) ((- M, M) # B)"
  by (auto simp: within_def mag_def)

lemma within_mag_Nil: "within [] [] []"
  by (simp add: within_def)

lemma mag_CI2: "mag (CI 2) 2 2" "mag (CI 19) 19 19" "mag (CI 38) 38 38"
  by (simp_all add: mag_def)

lemma fe_mul_products_within:
  assumes "within f v (fe_box 330)" "within g w (fe_box 330)"
  shows "within (fe_mul_products f g) (fe_mul_int v w) fe_product_box"
proof -
  obtain v0 v1 v2 v3 v4 v5 v6 v7 v8 v9 where v: "v = [v0, v1, v2, v3, v4, v5, v6, v7, v8, v9]"
    "f = map CI [v0, v1, v2, v3, v4, v5, v6, v7, v8, v9]"
    and mv: "mag (CI v0 :: i32) v0 110729625" "mag (CI v1 :: i32) v1 55364812"
    "mag (CI v2 :: i32) v2 110729625" "mag (CI v3 :: i32) v3 55364812"
    "mag (CI v4 :: i32) v4 110729625" "mag (CI v5 :: i32) v5 55364812"
    "mag (CI v6 :: i32) v6 110729625" "mag (CI v7 :: i32) v7 55364812"
    "mag (CI v8 :: i32) v8 110729625" "mag (CI v9 :: i32) v9 55364812"
    using within_in_box [OF assms(1)] by blast
  obtain w0 w1 w2 w3 w4 w5 w6 w7 w8 w9 where w: "w = [w0, w1, w2, w3, w4, w5, w6, w7, w8, w9]"
    "g = map CI [w0, w1, w2, w3, w4, w5, w6, w7, w8, w9]"
    and mw: "mag (CI w0 :: i32) w0 110729625" "mag (CI w1 :: i32) w1 55364812"
    "mag (CI w2 :: i32) w2 110729625" "mag (CI w3 :: i32) w3 55364812"
    "mag (CI w4 :: i32) w4 110729625" "mag (CI w5 :: i32) w5 55364812"
    "mag (CI w6 :: i32) w6 110729625" "mag (CI w7 :: i32) w7 55364812"
    "mag (CI w8 :: i32) w8 110729625" "mag (CI w9 :: i32) w9 55364812"
    using within_in_box [OF assms(2)] by blast
  show ?thesis
    unfolding fe_mul_products_def fe_mul_int_def v w Let_def list.map nth10 fe_product_box_eq
    by ((rule mv mw mag_CI2 within_mag_Cons within_mag_Nil mag_plus mag_times mag_ccast | simp)+)[1]
qed

section \<open>Their value\<close>

lemma fe_num_eq: "fe_num [v0, v1, v2, v3, v4, v5, v6, v7, v8, v9] =
  v0 + 2 ^ 26 * v1 + 2 ^ 51 * v2 + 2 ^ 77 * v3 + 2 ^ 102 * v4 + 2 ^ 128 * v5 + 2 ^ 153 * v6 +
  2 ^ 179 * v7 + 2 ^ 204 * v8 + 2 ^ 230 * v9"
  by (simp add: wsum_def fe_weight_def lessThan_nat_numeral)

lemma fe_num_mul_int:
  "fe_num [v0, v1, v2, v3, v4, v5, v6, v7, v8, v9] * fe_num [w0, w1, w2, w3, w4, w5, w6, w7, w8, w9] =
   fe_num (fe_mul_int [v0, v1, v2, v3, v4, v5, v6, v7, v8, v9] [w0, w1, w2, w3, w4, w5, w6, w7, w8, w9]) + (2 ^ 255 - 19) *
   (2 ^ 0 * (2 * v1 * w9 + v2 * w8 + 2 * v3 * w7 + v4 * w6 + 2 * v5 * w5 + v6 * w4 + 2 * v7 * w3 + v8 * w2 + 2 * v9 * w1) + 2 ^ 26 * (v2 * w9 + v3 * w8 + v4 * w7 + v5 * w6 + v6 * w5 + v7 * w4 + v8 * w3 + v9 * w2) + 2 ^ 51 * (2 * v3 * w9 + v4 * w8 + 2 * v5 * w7 + v6 * w6 + 2 * v7 * w5 + v8 * w4 + 2 * v9 * w3) + 2 ^ 77 * (v4 * w9 + v5 * w8 + v6 * w7 + v7 * w6 + v8 * w5 + v9 * w4) + 2 ^ 102 * (2 * v5 * w9 + v6 * w8 + 2 * v7 * w7 + v8 * w6 + 2 * v9 * w5) + 2 ^ 128 * (v6 * w9 + v7 * w8 + v8 * w7 + v9 * w6) + 2 ^ 153 * (2 * v7 * w9 + v8 * w8 + 2 * v9 * w7) + 2 ^ 179 * (v8 * w9 + v9 * w8) + 2 ^ 204 * (2 * v9 * w9))"
  unfolding fe_mul_int_def Let_def
  unfolding nth10 fe_num_eq
  by algebra

section \<open>Squares and carries\<close>

lemma fe_sq_int_eq:
  "fe_sq_int [v0, v1, v2, v3, v4, v5, v6, v7, v8, v9] =
   fe_mul_int [v0, v1, v2, v3, v4, v5, v6, v7, v8, v9] [v0, v1, v2, v3, v4, v5, v6, v7, v8, v9]"
  unfolding fe_mul_int_def fe_sq_int_def Let_def nth10 list.inject
  by (intro conjI; simp)

lemma fe_sq_products_within:
  assumes "within f v (fe_box 330)"
  shows "within (fe_sq_products f) (fe_sq_int v) fe_product_box"
proof -
  obtain v0 v1 v2 v3 v4 v5 v6 v7 v8 v9 where v: "v = [v0, v1, v2, v3, v4, v5, v6, v7, v8, v9]"
    "f = map CI [v0, v1, v2, v3, v4, v5, v6, v7, v8, v9]"
    and mv: "mag (CI v0 :: i32) v0 110729625" "mag (CI v1 :: i32) v1 55364812"
    "mag (CI v2 :: i32) v2 110729625" "mag (CI v3 :: i32) v3 55364812"
    "mag (CI v4 :: i32) v4 110729625" "mag (CI v5 :: i32) v5 55364812"
    "mag (CI v6 :: i32) v6 110729625" "mag (CI v7 :: i32) v7 55364812"
    "mag (CI v8 :: i32) v8 110729625" "mag (CI v9 :: i32) v9 55364812"
    using within_in_box [OF assms(1)] by blast
  show ?thesis
    unfolding fe_sq_products_def fe_sq_int_def v Let_def list.map nth10 fe_product_box_eq
    by ((rule mv mag_CI2 within_mag_Cons within_mag_Nil mag_plus mag_times mag_ccast | simp)+)[1]
qed

definition fe_carry_int :: "int list \<Rightarrow> int list" where
  "fe_carry_int = carry_int (2 ^ 25) 26 0 1 1 \<circ> carry_int (2 ^ 24) 25 9 0 19 \<circ>
     carry_int (2 ^ 25) 26 8 9 1 \<circ> carry_int (2 ^ 25) 26 4 5 1 \<circ>
     carry_int (2 ^ 24) 25 7 8 1 \<circ> carry_int (2 ^ 24) 25 3 4 1 \<circ>
     carry_int (2 ^ 25) 26 6 7 1 \<circ> carry_int (2 ^ 25) 26 2 3 1 \<circ>
     carry_int (2 ^ 24) 25 5 6 1 \<circ> carry_int (2 ^ 24) 25 1 2 1 \<circ>
     carry_int (2 ^ 25) 26 4 5 1 \<circ> carry_int (2 ^ 25) 26 0 1 1"

definition fe_carry_iv :: "ival list \<Rightarrow> ival list option" where
  "fe_carry_iv =
     seq_iv (carry_iv 64 (2 ^ 25) 26 0 1 1) (seq_iv (carry_iv 64 (2 ^ 25) 26 4 5 1)
     (seq_iv (carry_iv 64 (2 ^ 24) 25 1 2 1) (seq_iv (carry_iv 64 (2 ^ 24) 25 5 6 1)
     (seq_iv (carry_iv 64 (2 ^ 25) 26 2 3 1) (seq_iv (carry_iv 64 (2 ^ 25) 26 6 7 1)
     (seq_iv (carry_iv 64 (2 ^ 24) 25 3 4 1) (seq_iv (carry_iv 64 (2 ^ 24) 25 7 8 1)
     (seq_iv (carry_iv 64 (2 ^ 25) 26 4 5 1) (seq_iv (carry_iv 64 (2 ^ 25) 26 8 9 1)
     (seq_iv (carry_iv 64 (2 ^ 24) 25 9 0 19) (carry_iv 64 (2 ^ 25) 26 0 1 1)))))))))))"

lemma step_ok_carry64:
  "step_ok (carry_round 26 i j :: i64 list \<Rightarrow> _) (carry_int (2 ^ 25) 26 i j 1) (carry_iv 64 (2 ^ 25) 26 i j 1)"
  "step_ok (carry_round 25 i j :: i64 list \<Rightarrow> _) (carry_int (2 ^ 24) 25 i j 1) (carry_iv 64 (2 ^ 24) 25 i j 1)"
  "step_ok (carry_round_mul 25 i j k :: i64 list \<Rightarrow> _) (carry_int (2 ^ 24) 25 i j k) (carry_iv 64 (2 ^ 24) 25 i j k)"
  using step_ok_carry_round [of 26 i j, where 'w = 64] step_ok_carry_round [of 25 i j, where 'w = 64]
    step_ok_carry_round_mul [of 25 i j k, where 'w = 64] by simp_all

lemma fe_carry_comp:
  "fe_carry = carry_round 26 0 1 \<circ> carry_round_mul 25 9 0 19 \<circ> carry_round 26 8 9 \<circ> carry_round 26 4 5 \<circ>
     carry_round 25 7 8 \<circ> carry_round 25 3 4 \<circ> carry_round 26 6 7 \<circ> carry_round 26 2 3 \<circ>
     carry_round 25 5 6 \<circ> carry_round 25 1 2 \<circ> carry_round 26 4 5 \<circ> carry_round 26 0 1"
  by (rule ext) (simp only: fe_carry_def Let_def comp_apply)

lemma step_ok_fe_carry: "step_ok fe_carry fe_carry_int fe_carry_iv"
  unfolding fe_carry_comp fe_carry_int_def fe_carry_iv_def
  by (intro step_ok_seq step_ok_carry64) 

lemma fe_carry_boxes:
  "step_into (fe_carry_iv fe_product_box) (fe_box 101)"
  "step_into (fe_carry_iv (replicate 10 (- (2 ^ 62), 2 ^ 62))) (fe_box 101)"
  by code_simp+

lemma fe_num_carry_int:
  assumes "length v = 10"
  shows "fe_num (fe_carry_int v) mod fe_q = fe_num v mod fe_q"
proof -
  have q: "57896044618658097711785492504343953926634992332820282019728792003956564819949 = fe_q"
    by (simp add: fe_q_def)
  have wrap: "(x - fe_q * c) mod fe_q = x mod fe_q" for x c
    by (metis mod_mult_self2 uminus_add_conv_diff add.commute minus_mult_right)
  show ?thesis
    using assms by (simp add: fe_carry_int_def fe_weight_def wsum_carry wsum_carry_wrap q wrap)
qed

lemma within_fe_store:
  assumes "within h v (fe_box 101)"
  shows "within (fe_store h) v (fe_box 101)"
proof (rule withinI)
  have len: "length v = 10" "length h = 10" "length (fe_box 101) = 10"
    using within_length [OF assms] by simp_all
  then show "length (fe_store h) = length (fe_box 101)" "length v = length (fe_box 101)"
    by (simp_all add: fe_store_def)
  fix i assume i: "i < length (fe_box 101)"
  have "list_all (\<lambda>I. fits 32 (fst I) \<and> fits 32 (snd I)) (fe_box 101)"
    by code_simp
  then have "fits 32 (v ! i)"
    using within_nth [OF assms i] i len by (auto simp: list_all_length intro: fits_between)
  then show "fe_store h ! i = CI (v ! i) \<and> fst ((fe_box 101) ! i) \<le> v ! i \<and> v ! i \<le> snd ((fe_box 101) ! i)"
    using within_nth [OF assms i] within_nth_CI [OF assms i] i len
    by (simp add: fe_store_def ccast_fits del: ccast.simps)
qed

end
