(* ===== verification/Field_Proofs.thy ===== *)
theory Field_Proofs
  imports Field_Mul Scalar_Proofs
begin

text \<open>
  Every field operation as arithmetic modulo \<open>2^255 - 19\<close>. The judgement \<open>fe_is k f x\<close> says
  that \<open>f\<close> stands for \<open>x\<close> within the limb bound \<open>k\<close>; there is one rule for each operation, so
  that the formulas of the group operations are checked, values and bounds together, by
  chaining the rules.
\<close>

section \<open>What a field element stands for\<close>

definition fe_bounded :: "int \<Rightarrow> fe \<Rightarrow> bool" where
  "fe_bounded k f \<longleftrightarrow> length f = 10 \<and>
     (\<forall>i<10. f ! i \<noteq> UB \<and> 100 * \<bar>ci_val (f ! i)\<bar> \<le> k * (if even i then 2 ^ 25 else 2 ^ 24))"

definition fe_val :: "fe \<Rightarrow> int" where
  "fe_val f = fe_num (map ci_val f)"

text \<open>\<open>fe_is k f x\<close>: within the bound \<open>k\<close>, \<open>f\<close> stands for the residue of \<open>x\<close>.\<close>

definition fe_is :: "int \<Rightarrow> fe \<Rightarrow> int \<Rightarrow> bool" where
  "fe_is k f x \<longleftrightarrow> fe_bounded k f \<and> fe_val f mod fe_q = x mod fe_q"

lemma fe_box_nth: "i < 10 \<Longrightarrow> fe_box k ! i =
    (- (k * (if even i then 2 ^ 25 else 2 ^ 24) div 100), k * (if even i then 2 ^ 25 else 2 ^ 24) div 100)"
  by (simp add: fe_box_def Let_def)

lemma le_div_100: "\<bar>a\<bar> \<le> m div 100 \<longleftrightarrow> 100 * \<bar>a\<bar> \<le> (m::int)"
  by auto

lemma fe_bounded_within:
  "fe_bounded k f \<longleftrightarrow> within f (map ci_val f) (fe_box k)"
proof
  assume b: "fe_bounded k f"
  show "within f (map ci_val f) (fe_box k)"
  proof (rule withinI)
    fix i assume "i < length (fe_box k)"
    then have i: "i < 10" by simp
    with b have f: "f ! i \<noteq> UB" "100 * \<bar>ci_val (f ! i)\<bar> \<le> k * (if even i then 2 ^ 25 else 2 ^ 24)" "length f = 10"
      by (auto simp: fe_bounded_def)
    from f(2) have "\<bar>ci_val (f ! i)\<bar> \<le> k * (if even i then 2 ^ 25 else 2 ^ 24) div 100"
      by (simp only: le_div_100)
    with f i show "f ! i = CI (map ci_val f ! i) \<and> fst (fe_box k ! i) \<le> map ci_val f ! i \<and>
        map ci_val f ! i \<le> snd (fe_box k ! i)"
      by (cases "f ! i") (simp_all add: fe_box_nth abs_le_iff)
  qed (use b in \<open>simp_all add: fe_bounded_def\<close>)
next
  assume w: "within f (map ci_val f) (fe_box k)"
  show "fe_bounded k f"
    unfolding fe_bounded_def
  proof (intro conjI allI impI)
    show "length f = 10" using within_length [OF w] by simp
    fix i :: nat assume i: "i < 10"
    have "f ! i = CI (map ci_val f ! i)" using within_nth_CI [OF w] i by simp
    then show "f ! i \<noteq> UB" by simp
    let ?b = "k * (if even i then 2 ^ 25 else 2 ^ 24) div 100"
    have "- ?b \<le> ci_val (f ! i) \<and> ci_val (f ! i) \<le> ?b"
      using within_nth [OF w, of i] i \<open>length f = 10\<close> fe_box_nth [OF i, of k] by simp
    then have "\<bar>ci_val (f ! i)\<bar> \<le> ?b" by linarith
    then show "100 * \<bar>ci_val (f ! i)\<bar> \<le> k * (if even i then 2 ^ 25 else 2 ^ 24)"
      by (simp only: le_div_100)
  qed
qed

lemma within_ci_val: "within f v B \<Longrightarrow> map ci_val f = v"
  by (auto simp: within_def comp_def)

lemma fe_is_within: "fe_is k f x \<longleftrightarrow> (\<exists>v. within f v (fe_box k) \<and> fe_num v mod fe_q = x mod fe_q)"
  unfolding fe_is_def fe_bounded_within fe_val_def by (auto dest: within_ci_val)

lemma fe_isI: "within f v (fe_box k) \<Longrightarrow> fe_num v mod fe_q = x mod fe_q \<Longrightarrow> fe_is k f x"
  unfolding fe_is_within by blast

lemma fe_isE:
  assumes "fe_is k f x"
  obtains v where "within f v (fe_box k)" "fe_num v mod fe_q = x mod fe_q" "length v = 10"
  using assms within_length unfolding fe_is_within by fastforce

lemma fe_is_weaken: "fe_is k f x \<Longrightarrow> k \<le> l \<Longrightarrow> fe_is l f x"
  unfolding fe_is_def fe_bounded_def by (auto intro: order_trans mult_right_mono)

lemma fe_is_cong: "fe_is k f x \<Longrightarrow> x mod fe_q = y mod fe_q \<Longrightarrow> fe_is k f y"
  by (simp add: fe_is_def)

lemma length10_cases: "length v = 10 \<Longrightarrow>
  \<exists>v0 v1 v2 v3 v4 v5 v6 v7 v8 v9. v = [v0, v1, v2, v3, v4, v5, v6, v7, v8, v9]"
  by (auto simp: eval_nat_numeral length_Suc_conv)

lemma fe_num_mul:
  assumes "length v = 10" "length w = 10"
  shows "fe_num (fe_mul_int v w) mod fe_q = (fe_num v * fe_num w) mod fe_q"
proof -
  have m: "(x + (2 ^ 255 - 19) * c) mod fe_q = x mod fe_q" for x c
    unfolding fe_q_def by (rule mod_mult_self2)
  show ?thesis
    using length10_cases [OF assms(1)] length10_cases [OF assms(2)]
    by (elim exE) (simp only: fe_num_mul_int m)
qed

lemma fe_is_mul:
  assumes "fe_is 330 f x" "fe_is 330 g y"
  shows "fe_is 101 (fe_mul f g) (x * y)"
proof -
  obtain v where v: "within f v (fe_box 330)" "fe_num v mod fe_q = x mod fe_q" "length v = 10"
    using assms(1) by (rule fe_isE)
  obtain w where w: "within g w (fe_box 330)" "fe_num w mod fe_q = y mod fe_q" "length w = 10"
    using assms(2) by (rule fe_isE)
  note p = fe_mul_products_within [OF v(1) w(1)]
  have len: "length (fe_mul_int v w) = 10" using within_length [OF p] by (simp add: fe_product_box_def)
  have "within (fe_mul f g) (fe_carry_int (fe_mul_int v w)) (fe_box 101)"
    unfolding fe_mul_def by (intro within_fe_store step_ok_into [OF step_ok_fe_carry p fe_carry_boxes(1)])
  moreover have "fe_num (fe_carry_int (fe_mul_int v w)) mod fe_q = (x * y) mod fe_q"
    using mod_mult_cong [OF v(2) w(2)] by (simp add: fe_num_carry_int len fe_num_mul v w)
  ultimately show ?thesis by (rule fe_isI)
qed

lemma fe_num_sq:
  assumes "length v = 10"
  shows "fe_num (fe_sq_int v) mod fe_q = (fe_num v * fe_num v) mod fe_q"
proof -
  have "fe_sq_int v = fe_mul_int v v" using length10_cases [OF assms] by (auto simp: fe_sq_int_eq)
  then show ?thesis using fe_num_mul [OF assms assms] by simp
qed

lemma fe_is_sq:
  assumes "fe_is 330 f x"
  shows "fe_is 101 (fe_sq f) (x * x)"
proof -
  obtain v where v: "within f v (fe_box 330)" "fe_num v mod fe_q = x mod fe_q" "length v = 10"
    using assms by (rule fe_isE)
  note p = fe_sq_products_within [OF v(1)]
  have len: "length (fe_sq_int v) = 10" using within_length [OF p] by (simp add: fe_product_box_def)
  have "within (fe_sq f) (fe_carry_int (fe_sq_int v)) (fe_box 101)"
    unfolding fe_sq_def by (intro within_fe_store step_ok_into [OF step_ok_fe_carry p fe_carry_boxes(1)])
  moreover have "fe_num (fe_carry_int (fe_sq_int v)) mod fe_q = (x * x) mod fe_q"
    using mod_mult_cong [OF v(2) v(2)] by (simp add: fe_num_carry_int len fe_num_sq v)
  ultimately show ?thesis by (rule fe_isI)
qed

lemma within_double:
  fixes h :: "i64 list"
  assumes "within h v (replicate n (- (2 ^ 61), 2 ^ 61))"
  shows "within (map (\<lambda>h. h + h) h) (map (\<lambda>x. x + x) v) (replicate n (- (2 ^ 62), 2 ^ 62))"
proof (rule withinI)
  note len = within_length [OF assms]
  show "length (map (\<lambda>h. h + h) h) = length (replicate n (- (2 ^ 62) :: int, 2 ^ 62 :: int))"
    "length (map (\<lambda>x. x + x) v) = length (replicate n (- (2 ^ 62) :: int, 2 ^ 62 :: int))"
    using len by simp_all
  fix i assume "i < length (replicate n (- (2 ^ 62) :: int, 2 ^ 62 :: int))"
  then have i: "i < n" by simp
  with within_nth [OF assms, of i] have b: "- (2 ^ 61) \<le> v ! i" "v ! i \<le> 2 ^ 61" by simp_all
  then have "fits 64 (v ! i + v ! i)" by (simp add: fits_def)
  then show "map (\<lambda>h. h + h) h ! i = CI (map (\<lambda>x. x + x) v ! i) \<and>
      fst (replicate n (- (2 ^ 62) :: int, 2 ^ 62 :: int) ! i) \<le> map (\<lambda>x. x + x) v ! i \<and>
      map (\<lambda>x. x + x) v ! i \<le> snd (replicate n (- (2 ^ 62) :: int, 2 ^ 62 :: int) ! i)"
    using i b len within_nth_CI [OF assms, of i] by (simp add: plus_cint_def mk_fits)
qed

lemma fe_is_sq2:
  assumes "fe_is 330 f x"
  shows "fe_is 101 (fe_sq2 f) (2 * (x * x))"
proof -
  obtain v where v: "within f v (fe_box 330)" "fe_num v mod fe_q = x mod fe_q" "length v = 10"
    using assms by (rule fe_isE)
  let ?d = "map (\<lambda>x. x + x) (fe_sq_int v)"
  note p = fe_sq_products_within [OF v(1)]
  note d = within_double [OF p [unfolded fe_product_box_def]]
  have len: "length (fe_sq_int v) = 10" using within_length [OF p] by (simp add: fe_product_box_def)
  have "within (fe_sq2 f) (fe_carry_int ?d) (fe_box 101)"
    unfolding fe_sq2_def by (intro within_fe_store step_ok_into [OF step_ok_fe_carry d fe_carry_boxes(2)])
  moreover have "fe_num (fe_carry_int ?d) mod fe_q = (2 * (x * x)) mod fe_q"
  proof -
    have "fe_num ?d = 2 * fe_num (fe_sq_int v)"
      using len by (simp add: wsum_def sum_distrib_left mult.left_commute)
    then show ?thesis
      using mod_mult_cong [OF refl [of "2 mod fe_q"] trans [OF fe_num_sq [OF v(3)] mod_mult_cong [OF v(2) v(2)]]] len
      by (simp add: fe_num_carry_int)
  qed
  ultimately show ?thesis by (rule fe_isI)
qed

text \<open>The operations limb by limb.\<close>

lemma fe_is_map:
  assumes len: "length f = 10" and
    lim: "\<And>i. i < 10 \<Longrightarrow> mag (f ! i) (v ! i) (m * (if even i then 2 ^ 25 else 2 ^ 24) div 100)"
    and "length v = 10" "fe_num v mod fe_q = x mod fe_q"
  shows "fe_is m f x"
proof (rule fe_isI [OF withinI])
  fix i assume "i < length (fe_box m)"
  then show "f ! i = CI (v ! i) \<and> fst (fe_box m ! i) \<le> v ! i \<and> v ! i \<le> snd (fe_box m ! i)"
    using lim [of i] by (simp add: fe_box_nth mag_def abs_le_iff)
qed (use assms in simp_all)

lemma within_mag:
  "within f v (fe_box k) \<Longrightarrow> i < 10 \<Longrightarrow> mag (f ! i) (v ! i) (k * (if even i then 2 ^ 25 else 2 ^ 24) div 100)"
  using within_nth [of f v "fe_box k" i] within_nth_CI [of f v "fe_box k" i]
  by (simp add: fe_box_nth mag_def abs_le_iff)

lemma div100_plus: "(a::int) div 100 + b div 100 \<le> (a + b) div 100"
  by linarith

lemma box_fits: "k \<le> 6300 \<Longrightarrow> k * (if even i then 2 ^ 25 else 2 ^ 24) div 100 < (2::int) ^ 31"
  by auto

lemma fe_is_add_sub:
  assumes "fe_is k f x" "fe_is l g y" "k + l \<le> 6300"
  shows "fe_is (k + l) (fe_add f g) (x + y)" "fe_is (k + l) (fe_sub f g) (x - y)"
proof -
  obtain v where v: "within f v (fe_box k)" "fe_num v mod fe_q = x mod fe_q" "length v = 10"
    using assms(1) by (rule fe_isE)
  obtain w where w: "within g w (fe_box l)" "fe_num w mod fe_q = y mod fe_q" "length w = 10"
    using assms(2) by (rule fe_isE)
  have le: "k * c div 100 + l * c div 100 \<le> (k + l) * c div 100" for c
    using div100_plus [of "k * c" "l * c"] by (simp add: distrib_right)
  have lt: "k * (if even i then 2 ^ 25 else 2 ^ 24) div 100 + l * (if even i then 2 ^ 25 else 2 ^ 24) div 100
      < (2::int) ^ (LENGTH(32) - 1)" for i :: nat
    using order.strict_trans1 [OF le box_fits [OF assms(3), of i]] by simp
  have "mag (f ! i + g ! i) (v ! i + w ! i) ((k + l) * (if even i then 2 ^ 25 else 2 ^ 24) div 100)"
    "mag (f ! i - g ! i) (v ! i - w ! i) ((k + l) * (if even i then 2 ^ 25 else 2 ^ 24) div 100)" if "i < 10" for i
    by ((rule mag_weaken [OF _ le] mag_plus mag_minus within_mag v w that lt)+)
  note lims = this
  show "fe_is (k + l) (fe_add f g) (x + y)"
    using lims(1) mod_add_cong [OF v(2) w(2)] v(3) w(3)
    by (intro fe_is_map [where v = "map2 (+) v w"]) (simp_all add: fe_add_def wsum_map2)
  show "fe_is (k + l) (fe_sub f g) (x - y)"
    using lims(2) mod_diff_cong [OF v(2) w(2)] v(3) w(3)
    by (intro fe_is_map [where v = "map2 (-) v w"]) (simp_all add: fe_sub_def wsum_map2)
qed

lemma fe_is_neg:
  assumes "fe_is k f x" "k \<le> 6300"
  shows "fe_is k (fe_neg f) (- x)"
proof -
  obtain v where v: "within f v (fe_box k)" "fe_num v mod fe_q = x mod fe_q" "length v = 10"
    using assms(1) by (rule fe_isE)
  have "mag (- (f ! i)) (- (v ! i)) (k * (if even i then 2 ^ 25 else 2 ^ 24) div 100)" if "i < 10" for i
    using box_fits [OF assms(2), of i] by (intro mag_uminus within_mag v that) simp
  moreover have "fe_num (map uminus v) = - fe_num v"
    using v(3) by (simp add: wsum_def sum_negf)
  ultimately show ?thesis
    using v(2,3) mod_minus_eq [of "fe_num v" fe_q] mod_minus_eq [of x fe_q]
    by (auto intro!: fe_is_map [where v = "map uminus v"] simp: fe_neg_def)
qed

lemma fe_copy_id: "fe_is k f x \<Longrightarrow> fe_copy f = f"
  by (simp add: fe_is_def fe_bounded_def fe_copy_def list_eq_map_nth [symmetric])

lemma fe_is_0: "0 \<le> k \<Longrightarrow> fe_is k fe_0 0"
proof -
  assume "0 \<le> k"
  have z: "fe_0 = replicate 10 (CI 0)" by (simp add: fe_0_def eval_nat_numeral)
  have "length fe_0 = 10" "\<And>i. i < 10 \<Longrightarrow> fe_0 ! i = CI 0" unfolding z by simp_all
  then have "fe_bounded k fe_0" using \<open>0 \<le> k\<close> by (simp add: fe_bounded_def)
  moreover have "fe_val fe_0 = 0" by (simp add: fe_val_def fe_0_def fe_num_eq)
  ultimately show ?thesis by (simp add: fe_is_def)
qed

lemma fe_is_1: "1 \<le> k \<Longrightarrow> fe_is k fe_1 1"
proof -
  assume "1 \<le> k"
  have z: "fe_1 = (replicate 10 (CI 0))[0 := CI 1]" by (simp add: fe_1_def eval_nat_numeral)
  have "length fe_1 = 10" "\<And>i. i < 10 \<Longrightarrow> fe_1 ! i = CI (if i = 0 then 1 else 0)"
    unfolding z by (simp_all add: nth_list_update)
  then have "fe_bounded k fe_1" using \<open>1 \<le> k\<close> by (simp add: fe_bounded_def)
  moreover have "fe_val fe_1 = 1" by (simp add: fe_val_def fe_1_def fe_num_eq)
  ultimately show ?thesis by (simp add: fe_is_def)
qed

section \<open>Canonical bytes\<close>

lemma mag_shr: "mag x v m \<Longrightarrow> m < 2 ^ (LENGTH('w) - 1) \<Longrightarrow> mag (shr (x :: 'w::len cint) n) (v div 2 ^ n) (m div 2 ^ n + 1)"
proof -
  assume x: "mag x v m" and m: "m < 2 ^ (LENGTH('w) - 1)"
  have v: "- m \<le> v" "v \<le> m" using x by (auto simp: mag_def abs_le_iff)
  have up: "v div 2 ^ n \<le> m div 2 ^ n" using v by (intro zdiv_mono1) simp_all
  have "(- m) div 2 ^ n \<le> v div 2 ^ n" using v by (intro zdiv_mono1) simp_all
  moreover have "- (m div 2 ^ n + 1) \<le> (- m) div 2 ^ n" by (simp add: zdiv_zminus1_eq_if)
  ultimately have "\<bar>v div 2 ^ n\<bar> \<le> m div 2 ^ n + 1" using up by linarith
  moreover have "fits LENGTH('w) (v div 2 ^ n)"
  proof -
    have "m div 2 ^ n \<le> m" using v drop_bit_int_le [of m n] by (simp add: drop_bit_eq_div)
    with calculation up m show ?thesis by (auto simp: fits_def)
  qed
  ultimately show ?thesis using x by (simp add: mag_def shr_def drop_bit_eq_div mk_fits)
qed

lemma div_nest: "0 < m \<Longrightarrow> 0 < n \<Longrightarrow> (a + b div m) div n = (b + m * a) div (m * n)" for a b m n :: int
  by (simp add: zdiv_zmult2_eq)

text \<open>The estimate of \<open>fe_tobytes\<close> is the exact quotient.\<close>

lemma quotient_exact:
  fixes h t L :: int
  assumes h: "h = 2 ^ 230 * t + L" and L: "\<bar>L\<bar> < 2 ^ 232" and b: "\<bar>h\<bar> < 4 * 2 ^ 255"
  defines "e \<equiv> (19 * t + 2 ^ 24) div 2 ^ 25"
  shows "(h + e) div 2 ^ 255 = h div fe_q"
proof -
  define Q where "Q = (h + e) div 2 ^ 255"
  define R where "R = (h + e) mod 2 ^ 255"
  define r where "r = h - fe_q * Q"
  have R: "0 \<le> R" "R < 2 ^ 255" "h + e = 2 ^ 255 * Q + R" by (simp_all add: R_def Q_def)
  have e: "2 ^ 25 * e \<le> 19 * t + 2 ^ 24" "19 * t + 2 ^ 24 < 2 ^ 25 * e + 2 ^ 25"
  proof -
    have "19 * t + 2 ^ 24 = 2 ^ 25 * e + (19 * t + 2 ^ 24) mod 2 ^ 25" by (simp add: e_def)
    moreover have "0 \<le> (19 * t + 2 ^ 24) mod 2 ^ 25" "(19 * t + 2 ^ 24) mod 2 ^ 25 < 2 ^ 25" by simp_all
    ultimately show "2 ^ 25 * e \<le> 19 * t + 2 ^ 24" "19 * t + 2 ^ 24 < 2 ^ 25 * e + 2 ^ 25" by linarith+
  qed
  have Lb: "L < 2 ^ 232" "- (2 ^ 232) < L" using L by linarith+
  have hb: "h < 4 * 2 ^ 255" "- (4 * 2 ^ 255) < h" using b by linarith+
  have rr: "r = h - 2 ^ 255 * Q + 19 * Q" by (simp add: r_def fe_q_def algebra_simps)
  have eb: "e < 2 ^ 40" "- (2 ^ 40) < e" using e h Lb hb by simp_all
  have Qb: "Q \<le> 4" "- 5 \<le> Q" using R eb hb by simp_all
  have "0 \<le> r" using R e h Lb rr Qb by simp
  moreover have "r < fe_q" using R e h Lb rr Qb by (simp add: fe_q_def)
  moreover have "h = fe_q * Q + r" by (simp add: r_def)
  ultimately have "h div fe_q = Q" by (intro int_div_pos_eq)
  then show ?thesis by (simp add: Q_def)
qed

lemma fe_quotient_value:
  assumes "within f v (fe_box 220)"
  shows "fe_quotient f = CI (fe_num v div fe_q)" "\<bar>fe_num v div fe_q\<bar> \<le> 5"
proof -
  obtain v0 v1 v2 v3 v4 v5 v6 v7 v8 v9 where v: "v = [v0, v1, v2, v3, v4, v5, v6, v7, v8, v9]"
    using length10_cases [of v] within_length [OF assms] by auto
  have m: "mag (f ! i) (v ! i) (if even i then 73819750 else 36909875)" if "i < 10" for i
    using within_mag [OF assms that] by (auto split: if_splits)
  note mi = m [of 0] m [of 1] m [of 2] m [of 3] m [of 4] m [of 5] m [of 6] m [of 7] m [of 8] m [of 9]
  note ms = mi [unfolded v nth10, simplified]
  define e where "e = (19 * v9 + 2 ^ 24) div 2 ^ 25"
  have chain: "(v9 + (v8 + (v7 + (v6 + (v5 + (v4 + (v3 + (v2 + (v1 + (v0 + e) div 2 ^ 26)
      div 2 ^ 25) div 2 ^ 26) div 2 ^ 25) div 2 ^ 26) div 2 ^ 25) div 2 ^ 26) div 2 ^ 25) div 2 ^ 26)
      div 2 ^ 25 = (fe_num v + e) div 2 ^ 255"
    by (simp add: div_nest v fe_num_eq algebra_simps)
  have lim: "\<bar>v0\<bar> \<le> 73819750" "\<bar>v1\<bar> \<le> 36909875" "\<bar>v2\<bar> \<le> 73819750" "\<bar>v3\<bar> \<le> 36909875"
    "\<bar>v4\<bar> \<le> 73819750" "\<bar>v5\<bar> \<le> 36909875" "\<bar>v6\<bar> \<le> 73819750" "\<bar>v7\<bar> \<le> 36909875"
    "\<bar>v8\<bar> \<le> 73819750" "\<bar>v9\<bar> \<le> 36909875" using ms by (simp_all add: mag_def)
  have "(fe_num v + e) div 2 ^ 255 = fe_num v div fe_q"
    unfolding e_def
  proof (rule quotient_exact)
    let ?L = "v0 + 2 ^ 26 * v1 + 2 ^ 51 * v2 + 2 ^ 77 * v3 + 2 ^ 102 * v4 + 2 ^ 128 * v5 + 2 ^ 153 * v6 +
      2 ^ 179 * v7 + 2 ^ 204 * v8"
    show "fe_num v = 2 ^ 230 * v9 + ?L" by (simp add: v fe_num_eq)
    show "\<bar>?L\<bar> < 2 ^ 232" "\<bar>fe_num v\<bar> < 4 * 2 ^ 255"
      using lim unfolding v fe_num_eq by (simp_all add: abs_le_iff abs_less_iff)
  qed
  from trans [OF chain this] have eq: "(v9 + (v8 + (v7 + (v6 + (v5 + (v4 + (v3 + (v2 + (v1 + (v0 + e) div 2 ^ 26)
      div 2 ^ 25) div 2 ^ 26) div 2 ^ 25) div 2 ^ 26) div 2 ^ 25) div 2 ^ 26) div 2 ^ 25) div 2 ^ 26)
      div 2 ^ 25 = fe_num v div fe_q" .
  have "mag (fe_quotient f) (fe_num v div fe_q) 5"
    unfolding fe_quotient_def Let_def eq [symmetric] e_def
    by (rule mag_weaken, (rule mag_shr mag_plus mag_times mag_CI2 mag_CI ms | simp)+)
  then show "fe_quotient f = CI (fe_num v div fe_q)" "\<bar>fe_num v div fe_q\<bar> \<le> 5"
    by (simp_all add: mag_def)
qed

text \<open>The carries of \<open>fe_tobytes\<close>.\<close>

definition fe_floors_int :: "int list \<Rightarrow> int list" where
  "fe_floors_int = carry_int 0 26 8 9 1 \<circ> carry_int 0 25 7 8 1 \<circ> carry_int 0 26 6 7 1 \<circ>
     carry_int 0 25 5 6 1 \<circ> carry_int 0 26 4 5 1 \<circ> carry_int 0 25 3 4 1 \<circ> carry_int 0 26 2 3 1 \<circ>
     carry_int 0 25 1 2 1 \<circ> carry_int 0 26 0 1 1"

definition fe_floors_iv :: "ival list \<Rightarrow> ival list option" where
  "fe_floors_iv = seq_iv (carry_iv 32 0 26 0 1 1) (seq_iv (carry_iv 32 0 25 1 2 1)
     (seq_iv (carry_iv 32 0 26 2 3 1) (seq_iv (carry_iv 32 0 25 3 4 1) (seq_iv (carry_iv 32 0 26 4 5 1)
     (seq_iv (carry_iv 32 0 25 5 6 1) (seq_iv (carry_iv 32 0 26 6 7 1) (seq_iv (carry_iv 32 0 25 7 8 1)
     (carry_iv 32 0 26 8 9 1))))))))"

definition fe_floors :: "fe \<Rightarrow> fe" where
  "fe_floors = carry_floor 26 8 9 \<circ> carry_floor 25 7 8 \<circ> carry_floor 26 6 7 \<circ>
     carry_floor 25 5 6 \<circ> carry_floor 26 4 5 \<circ> carry_floor 25 3 4 \<circ> carry_floor 26 2 3 \<circ>
     carry_floor 25 1 2 \<circ> carry_floor 26 0 1"

lemma step_ok_carry_floor32:
  "step_ok (carry_floor b i j :: fe \<Rightarrow> _) (carry_int 0 b i j 1) (carry_iv 32 0 b i j 1)"
  using step_ok_carry_floor [of b i j, where 'w = 32] by simp

lemma step_ok_fe_floors: "step_ok fe_floors fe_floors_int fe_floors_iv"
  unfolding fe_floors_def fe_floors_int_def fe_floors_iv_def
  by (intro step_ok_seq step_ok_carry_floor32)

lemma fe_freeze_floors:
  "fe_freeze h = (let h = fe_floors (h[0 := h ! 0 + CI 19 * fe_quotient h])
     in h[9 := h ! 9 - shl (shr (h ! 9) 25) 25])"
  by (simp only: fe_freeze_def fe_floors_def Let_def comp_apply)

definition fe_frozen_box :: "ival list" where
  "fe_frozen_box = [(0, 2 ^ 26 - 1), (0, 2 ^ 25 - 1), (0, 2 ^ 26 - 1), (0, 2 ^ 25 - 1), (0, 2 ^ 26 - 1),
     (0, 2 ^ 25 - 1), (0, 2 ^ 26 - 1), (0, 2 ^ 25 - 1), (0, 2 ^ 26 - 1), (- (2 ^ 26), 2 ^ 26)]"

lemma fe_floors_box:
  "step_into (fe_floors_iv ((fe_box 220)[0 := (- 73820000, 73820000)])) fe_frozen_box"
  by code_simp

definition fe_canonical :: "int list \<Rightarrow> bool" where
  "fe_canonical w \<longleftrightarrow> length w = 10 \<and> (\<forall>i<10. 0 \<le> w ! i \<and> w ! i < (if even i then 2 ^ 26 else 2 ^ 25))"

lemma fe_weight_step: "2 ^ fe_weight i * (if even i then 2 ^ 26 else 2 ^ 25) = (2::int) ^ fe_weight (Suc i)"
proof (cases "even i")
  case True
  then obtain j where "i = 2 * j" by blast
  then show ?thesis by (simp add: fe_weight_def power_add)
next
  case False
  then obtain j where "i = 2 * j + 1" using oddE by blast
  moreover have "(103 + 102 * j) div 2 = 51 + 51 * j" by presburger
  ultimately show ?thesis by (simp add: fe_weight_def power_add)
qed

lemma fe_canonical_limb:
  assumes "fe_canonical w" "i < 10"
  shows "0 \<le> w ! i \<and> 2 ^ fe_weight i * (w ! i + 1) \<le> 2 ^ fe_weight (Suc i)"
proof -
  have "0 \<le> w ! i" "w ! i + 1 \<le> (if even i then 2 ^ 26 else 2 ^ 25)"
    using assms by (auto simp: fe_canonical_def)
  then show ?thesis unfolding fe_weight_step [symmetric] by (intro conjI mult_left_mono) simp_all
qed

lemma fits_mod: "k < w \<Longrightarrow> fits w (a mod 2 ^ k)"
proof (rule fits_nonneg)
  assume "k < w"
  have "a mod 2 ^ k < 2 ^ k" by simp
  also have "\<dots> \<le> (2::int) ^ (w - 1)" using \<open>k < w\<close> by (intro power_increasing) simp_all
  finally show "a mod 2 ^ k < 2 ^ (w - 1)" .
qed simp

lemma fe_canonical_range: "fe_canonical w \<Longrightarrow> 0 \<le> fe_num w \<and> fe_num w < 2 ^ 255"
  using wsum_range [of fe_weight 10 w] fe_canonical_limb [of w] by (simp add: fe_weight_def)

lemma fe_freeze_value:
  assumes "within f v (fe_box 220)"
  shows "\<exists>w. fe_freeze f = map CI w \<and> fe_canonical w \<and> fe_num w = fe_num v mod fe_q"
proof -
  define Q where "Q = fe_num v div fe_q"
  have Q: "fe_quotient f = CI Q" "\<bar>Q\<bar> \<le> 5" using fe_quotient_value [OF assms] by (simp_all add: Q_def)
  have len: "length v = 10" using within_length [OF assms] by simp
  have lim0: "f ! 0 = CI (v ! 0)" "- 73819750 \<le> v ! 0" "v ! 0 \<le> 73819750"
    using within_nth_CI [OF assms, of 0] within_nth [OF assms, of 0] by (simp_all add: fe_box_nth)
  have "f ! 0 + CI 19 * fe_quotient f = CI (v ! 0 + 19 * Q)"
    using Q lim0 by (simp add: plus_cint_def times_cint_def mk_fits fits_def abs_le_iff)
  moreover have "within (f[0 := CI (v ! 0 + 19 * Q)]) (v[0 := v ! 0 + 19 * Q])
      ((fe_box 220)[0 := (- 73820000, 73820000)])"
    using Q lim0 by (intro within_update assms) (simp_all add: abs_le_iff)
  ultimately have w: "within (fe_floors (f[0 := f ! 0 + CI 19 * fe_quotient f]))
      (fe_floors_int (v[0 := v ! 0 + 19 * Q])) fe_frozen_box"
    using step_ok_into [OF step_ok_fe_floors _ fe_floors_box] by simp
  define u where "u = fe_floors_int (v[0 := v ! 0 + 19 * Q])"
  have lu: "length u = 10" using within_length [OF w] by (simp add: u_def fe_frozen_box_def)
  have u9: "- (2 ^ 26) \<le> u ! 9" "u ! 9 \<le> 2 ^ 26"
    using within_nth [OF w, of 9] by (simp_all add: u_def fe_frozen_box_def)
  have num: "fe_num u = fe_num v + 19 * Q"
    using len by (simp add: u_def fe_floors_int_def wsum_carry wsum_update fe_weight_def)
  let ?w = "u[9 := u ! 9 mod 2 ^ 25]"
  have "CI (u ! 9) - shl (shr (CI (u ! 9)) 25) 25 = (CI (u ! 9 mod 2 ^ 25) :: i32)"
  proof -
    have "- 2 \<le> u ! 9 div 2 ^ 25" "u ! 9 div 2 ^ 25 \<le> 2" using u9 by simp_all
    then have "fits 32 (u ! 9 div 2 ^ 25)" "fits 32 (u ! 9 div 2 ^ 25 * 2 ^ 25)" by (simp_all add: fits_def)
    moreover have "fits 32 (u ! 9 mod 2 ^ 25)" by (rule fits_mod) simp
    ultimately show ?thesis
      by (simp add: shr_def shl_fits_mult minus_cint_def drop_bit_eq_div mk_fits minus_div_mult_eq_mod)
  qed
  then have "fe_freeze f = map CI ?w"
    using w lu unfolding fe_freeze_floors Let_def u_def [symmetric] within_def
    by (simp add: map_update)
  moreover have c: "fe_canonical ?w"
  proof -
    have lo: "0 \<le> u ! i \<and> u ! i < (if even i then 2 ^ 26 else 2 ^ 25)" if "i < 9" for i
    proof -
      have "i = 0 \<or> i = 1 \<or> i = 2 \<or> i = 3 \<or> i = 4 \<or> i = 5 \<or> i = 6 \<or> i = 7 \<or> i = 8" using that by arith
      then show ?thesis using within_nth [OF w, of i] that
        by (elim disjE) (simp_all add: u_def [symmetric] fe_frozen_box_def)
    qed
    have "0 \<le> ?w ! i \<and> ?w ! i < (if even i then 2 ^ 26 else 2 ^ 25)" if "i < 10" for i
    proof (cases "i = 9")
      case False
      then show ?thesis using lo [of i] that by simp
    qed (use lu in simp)
    then show ?thesis using lu by (simp add: fe_canonical_def)
  qed
  moreover have "fe_num ?w = fe_num v mod fe_q"
  proof -
    have "fe_num ?w = fe_num u + 2 ^ 230 * (u ! 9 mod 2 ^ 25 - u ! 9)"
      using lu by (simp add: wsum_update fe_weight_def)
    also have "u ! 9 mod 2 ^ 25 - u ! 9 = - (2 ^ 25 * (u ! 9 div 2 ^ 25))"
      by (simp add: minus_mult_div_eq_mod [symmetric])
    finally have w9: "fe_num ?w = fe_num u + 2 ^ 230 * - (2 ^ 25 * (u ! 9 div 2 ^ 25))" .
    have "fe_num ?w = fe_num v mod fe_q + 2 ^ 255 * (Q - u ! 9 div 2 ^ 25)"
    proof -
      have "fe_num v mod fe_q = fe_num v - fe_q * Q" by (simp add: Q_def minus_mult_div_eq_mod)
      then show ?thesis unfolding w9 num by (simp add: fe_q_def algebra_simps)
    qed
    moreover have "0 \<le> fe_num v mod fe_q" "fe_num v mod fe_q < 2 ^ 255"
      using pos_mod_bound [of fe_q "fe_num v"] by (simp_all add: fe_q_def)
    ultimately show ?thesis using fe_canonical_range [OF c] by simp
  qed
  ultimately show ?thesis by blast
qed

lemma fe_pack_bytes:
  assumes c: "fe_canonical v"
  shows "fe_pack (map CI v) = Some (le_bytes 32 (fe_num v))"
proof -
  have len: "length v = 10" and lim: "\<And>i. i < 10 \<Longrightarrow> 0 \<le> v ! i \<and> v ! i < (if even i then 2 ^ 26 else 2 ^ 25)"
    using c by (auto simp: fe_canonical_def)
  have nth: "map CI v ! i = CI (v ! i)" if "i < 10" for i using that len by simp
  have rng: "0 \<le> v ! i" "v ! i < 2 ^ 26" if "i < 10" for i
    using lim [OF that] by (auto split: if_splits)
  have top: "\<not> bit (v ! i) m" if "i < 10" "26 \<le> m" for i m
    using rng [of i] bit_int_above [of "v ! i" 26 m] that by simp
  have top': "\<not> bit (v ! i) m" if "i < 10" "odd i" "25 \<le> m" for i m
    using lim [of i] bit_int_above [of "v ! i" 25 m] that by simp
  have bits: "bit (fe_num v) m \<longleftrightarrow> bit (wsum fe_weight (Suc 9) v) m" for m by simp
  have bitS: "bit (wsum fe_weight (Suc n) v) m \<longleftrightarrow>
      (if m < fe_weight n then bit (wsum fe_weight n v) m else bit (v ! n) (m - fe_weight n))" if "n < 10" for n m
    using fe_canonical_limb [OF c] that by (intro bit_wsum_Suc) (auto simp: fe_weight_def)
  have one: "to_u8 (shr (CI (v ! i) :: i32) m) = Some (word_of_int (drop_bit m (v ! i)))"
    if "i < 10" for i m
    using rng [of i] that by (intro to_u8_shr) simp_all
  have two: "to_u8 (cor (shr (CI (v ! i) :: i32) m) (shl (CI (v ! j)) k))
       = Some (word_of_int (drop_bit m (v ! i) OR push_bit k (v ! j)))"
    if "i < 10" for i j k m
    using rng [of i] that by (intro to_u8_cor) simp_all
  have w: "fe_weight 0 = 0" "fe_weight (Suc 0) = 26" "fe_weight 2 = 51" "fe_weight 3 = 77" "fe_weight 4 = 102"
    "fe_weight 5 = 128" "fe_weight 6 = 153" "fe_weight 7 = 179" "fe_weight 8 = 204" "fe_weight 9 = 230"
    by (simp_all add: fe_weight_def)
  have b2: "bit (wsum fe_weight 2 v) m \<longleftrightarrow> (if m < 26 then bit (wsum fe_weight (Suc 0) v) m else bit (v ! Suc 0) (m - 26))" for m
    using bitS [of 1 m] w by (simp add: numeral_2_eq_2)
  note limbs = bitS [of 0, simplified] b2 bitS [of 2, simplified]
    bitS [of 3, simplified] bitS [of 4, simplified] bitS [of 5, simplified] bitS [of 6, simplified]
    bitS [of 7, simplified] bitS [of 8, simplified] bitS [of 9, simplified] w
  show ?thesis
    by (simp add: fe_pack_def nth one two le_bytes_def upt_conv_Cons del: to_unsigned.simps)
      (intro conjI; rule byte_eqI; simp add: bit_simps limbs top top' bit_mult_2;
        simp add: numeral_2_eq_2 numeral_3_eq_3)
qed

lemma fe_is_tobytes:
  assumes "fe_is 220 f x"
  shows "fe_tobytes f = Some (le_bytes 32 (x mod fe_q))"
proof -
  obtain v where v: "within f v (fe_box 220)" "fe_num v mod fe_q = x mod fe_q"
    using assms by (rule fe_isE)
  obtain w where "fe_freeze f = map CI w" "fe_canonical w" "fe_num w = fe_num v mod fe_q"
    using fe_freeze_value [OF v(1)] by blast
  with v(2) show ?thesis by (simp add: fe_tobytes_def fe_pack_bytes)
qed

lemma fe_canonical_value: "le_val (le_bytes 32 (x mod fe_q)) = x mod fe_q"
proof -
  have "0 \<le> x mod fe_q" "x mod fe_q < fe_q" by (simp_all add: fe_q_def)
  moreover have "fe_q < 256 ^ 32" by (simp add: fe_q_def)
  ultimately show ?thesis by (simp add: le_val_le_bytes)
qed

lemma odd_word_of_int: "odd (word_of_int k :: u8) \<longleftrightarrow> odd k"
  by (metis bit_0 bit_word_of_int_iff len_gt_0)

lemma fe_isnegative_value:
  assumes "fe_is 220 f x"
  shows "fe_isnegative f = CI (if odd (x mod fe_q) then 1 else 0)"
proof -
  have "le_bytes 32 (x mod fe_q) ! 0 AND 1 = (if odd (x mod fe_q) then 1 else 0)"
    by (simp add: le_bytes_def and_one_eq mod_2_eq_odd odd_word_of_int del: upt_rec_numeral)
  then show ?thesis
    by (auto simp: fe_isnegative_def fe_is_tobytes [OF assms] of_unsigned_less)
qed

lemma fe_isnonzero_value:
  assumes "fe_is 220 f x"
  shows "fe_isnonzero f = CI (if x mod fe_q = 0 then 0 else 1)"
  using sc_isnonzero_value [of "le_bytes 32 (x mod fe_q)"]
  by (simp add: fe_isnonzero_def fe_is_tobytes [OF assms] sc_isnonzero_def fe_canonical_value del: upt_rec_numeral)

section \<open>Conditional move\<close>

lemma bit_31_iff: "bit (w :: u32) 31 \<longleftrightarrow> 2 ^ 31 \<le> uint w"
proof -
  have "uint w < 2 ^ 32" using uint_bounded [of w] by simp
  moreover have "0 \<le> uint w" by simp
  ultimately have "uint w div 2 ^ 31 = (if 2 ^ 31 \<le> uint w then 1 else 0)" by auto
  then have "bit (uint w) 31 \<longleftrightarrow> 2 ^ 31 \<le> uint w" by (simp add: bit_iff_odd)
  then show ?thesis by (simp add: bit_uint_iff)
qed

lemma uint_pred:
  assumes "b \<noteq> (0 :: u32)"
  shows "uint (b - 1) = uint b - 1"
proof -
  have "uint b \<noteq> 0" using assms by (simp only: uint_0_iff not_False_eq_True)
  with uint_ge_0 [of b] have "0 \<le> uint b - 1" by linarith
  moreover have "uint b - 1 < 2 ^ 32" using uint_bounded [of b] by simp
  ultimately show ?thesis by (simp add: uint_word_ariths)
qed

lemma fe_cmov_guard_iff: "fe_cmov_guard b \<longleftrightarrow> b = 0 \<or> b = 1"
proof
  assume "fe_cmov_guard b"
  then have "bit (((b - 1) AND NOT b) OR ((b - 2) AND NOT (b - 1))) 31"
    unfolding fe_cmov_guard_def by simp
  then have "(bit (b - 1) 31 \<and> \<not> bit b 31) \<or> (bit (b - 1 - 1) 31 \<and> \<not> bit (b - 1) 31)"
    by (simp add: bit_simps)
  moreover have "\<not> (bit (c - 1) 31 \<and> \<not> bit c 31)" if "c \<noteq> 0" for c :: u32
    using uint_pred [OF that] by (simp add: bit_31_iff)
  ultimately show "b = 0 \<or> b = 1" by fastforce
next
  assume "b = 0 \<or> b = 1"
  then show "fe_cmov_guard b" by (auto simp: fe_cmov_guard_def)
qed

lemma of_unsigned_word_of_int:
  "fits 32 a \<Longrightarrow> of_unsigned (word_of_int a :: u32) = (CI a :: i32)" "of_unsigned (0 :: u32) = (CI 0 :: i32)"
  using signed_take_bit_fits [of 31 a]
  by (simp_all add: of_unsigned_def signed_take_bit_take_bit unsigned_of_int)

lemma fits_xor: "fits w a \<Longrightarrow> fits w b \<Longrightarrow> fits w (a XOR b)"
  unfolding fits_def signed_take_bit_int_eq_self_iff [symmetric]
  by (rule bit_eqI) (metis bit_xor_iff bit_signed_take_bit_iff)

lemma fe_bounded_fits:
  assumes "fe_bounded k f" "k \<le> 6300" "i < 10"
  obtains a where "f ! i = CI a" "fits 32 a"
proof (cases "f ! i")
  case (CI a)
  have "100 * \<bar>ci_val (f ! i)\<bar> \<le> k * (if even i then 2 ^ 25 else 2 ^ 24)"
    using assms(1,3) unfolding fe_bounded_def by blast
  then have "\<bar>a\<bar> \<le> k * (if even i then 2 ^ 25 else 2 ^ 24) div 100"
    by (simp only: le_div_100 CI ci_val.simps)
  with box_fits [OF assms(2), of i] have "fits 32 a" by (auto simp: fits_def)
  then show ?thesis using CI that by blast
qed (use assms in \<open>auto simp: fe_bounded_def\<close>)

lemma fe_cmov_value:
  assumes "fe_bounded k f" "fe_bounded l g" "k \<le> 6300" "l \<le> 6300"
  shows "fe_cmov f g b = (if b = 0 then Some f else if b = 1 then Some g else None)"
proof -
  have len: "length f = 10" "length g = 10" using assms by (simp_all add: fe_bounded_def)
  have "cxor (f ! i) (and_unsigned (cxor (f ! i) (g ! i)) 0) = f ! i"
    "cxor (f ! i) (and_unsigned (cxor (f ! i) (g ! i)) (- 1)) = g ! i" if i: "i < 10" for i
  proof -
    obtain a where a: "f ! i = CI a" "fits 32 a" using fe_bounded_fits [OF assms(1,3) i] .
    obtain b where b: "g ! i = CI b" "fits 32 b" using fe_bounded_fits [OF assms(2,4) i] .
    have "a XOR (a XOR b) = b" by (simp flip: xor.assoc)
    then show "cxor (f ! i) (and_unsigned (cxor (f ! i) (g ! i)) 0) = f ! i"
      "cxor (f ! i) (and_unsigned (cxor (f ! i) (g ! i)) (- 1)) = g ! i"
      using a b fits_xor [of 32 a b] by (simp_all add: cxor_def mk_fits of_unsigned_word_of_int)
  qed
  then have "map (\<lambda>i. cxor (f ! i) (and_unsigned (cxor (f ! i) (g ! i)) 0)) [0..<10] = f"
    "map (\<lambda>i. cxor (f ! i) (and_unsigned (cxor (f ! i) (g ! i)) (- 1))) [0..<10] = g"
    using len by (simp_all add: list_eq_iff_nth_eq)
  then show ?thesis by (auto simp: fe_cmov_def fe_cmov_guard_iff)
qed

section \<open>Loading from bytes\<close>

lemma split_bits: "N = take_bit k N + 2 ^ k * drop_bit k (N :: int)"
  by (simp add: take_bit_eq_mod drop_bit_eq_div)

lemma split_fields: "drop_bit p N = take_bit n (drop_bit p N) + 2 ^ n * drop_bit (p + n) (N :: int)"
  using split_bits [of "drop_bit p N" n] by (simp add: add.commute)

lemma push_load:
  fixes w :: u64
  assumes "uint w = a" "a < 2 ^ 32" "k \<le> 8"
  shows "(of_unsigned (push_bit k w) :: i64) = CI (2 ^ k * a)"
proof -
  have "2 ^ k * a \<le> 2 ^ 8 * a" using assms uint_ge_0 [of w] by (intro mult_right_mono power_increasing) auto
  then have "2 ^ k * a < 2 ^ 63" using assms(2) by simp
  moreover have "uint (push_bit k w) = 2 ^ k * a"
    using calculation assms uint_ge_0 [of w]
    by (subst unsigned_push_bit_eq) (simp add: push_bit_eq_mult take_bit_int_eq_self mult.commute)
  ultimately show ?thesis by (simp add: of_unsigned_less)
qed

lemma fe_load_limbs_value:
  assumes len: "length s = 32" and h: "uint h9 = H" "H < 2 ^ 24"
  defines "F p n \<equiv> take_bit n (drop_bit p (le_val s))"
  shows "fe_load_limbs s h9 = map CI [F 0 32, 2 ^ 6 * F 32 24, 2 ^ 5 * F 56 24, 2 ^ 3 * F 80 24, 2 ^ 2 * F 104 24,
    F 128 32, 2 ^ 7 * F 160 24, 2 ^ 5 * F 184 24, 2 ^ 4 * F 208 24, 2 ^ 2 * H]"
proof -
  have F: "F p n < 2 ^ n" for p n by (simp add: F_def)
  have l3: "(of_unsigned (push_bit k (load_3 s p)) :: i64) = CI (2 ^ k * F (8 * p) 24)" if "p + 3 \<le> 32" "k \<le> 8" for p k
    using load_3_field [of p s] len that F [of "8 * p" 24] by (intro push_load) (simp_all add: F_def)
  have l4: "(of_unsigned (load_4 s p) :: i64) = CI (F (8 * p) 32)" if "p + 4 \<le> 32" for p
    using load_4_dword [of p s] len that by (simp add: F_def)
  have l9: "(of_unsigned (push_bit 2 h9) :: i64) = CI (2 ^ 2 * H)"
    using h by (intro push_load) simp_all
  show ?thesis
    using l4 [of 0] l4 [of 16] l3 [of 4 6] l3 [of 7 5] l3 [of 10 3] l3 [of 13 2] l3 [of 20 7] l3 [of 23 5] l3 [of 26 4] l9
    unfolding fe_load_limbs_def list.map by simp
qed

lemma fe_load_num:
  "fe_num [take_bit 32 (drop_bit 0 N), 2 ^ 6 * take_bit 24 (drop_bit 32 N), 2 ^ 5 * take_bit 24 (drop_bit 56 N),
    2 ^ 3 * take_bit 24 (drop_bit 80 N), 2 ^ 2 * take_bit 24 (drop_bit 104 N), take_bit 32 (drop_bit 128 N),
    2 ^ 7 * take_bit 24 (drop_bit 160 N), 2 ^ 5 * take_bit 24 (drop_bit 184 N), 2 ^ 4 * take_bit 24 (drop_bit 208 N),
    2 ^ 2 * H] = take_bit 232 N + 2 ^ 232 * H"
proof -
  note split_fields [of 0 N 32] split_fields [of 32 N 24] split_fields [of 56 N 24] split_fields [of 80 N 24]
    split_fields [of 104 N 24] split_fields [of 128 N 32] split_fields [of 160 N 24] split_fields [of 184 N 24]
    split_fields [of 208 N 24] split_bits [of N 232]
  then show ?thesis unfolding fe_num_eq by simp
qed

definition fe_load_carry_int :: "int list \<Rightarrow> int list" where
  "fe_load_carry_int = carry_int (2 ^ 25) 26 8 9 1 \<circ> carry_int (2 ^ 25) 26 6 7 1 \<circ>
     carry_int (2 ^ 25) 26 4 5 1 \<circ> carry_int (2 ^ 25) 26 2 3 1 \<circ> carry_int (2 ^ 25) 26 0 1 1 \<circ>
     carry_int (2 ^ 24) 25 7 8 1 \<circ> carry_int (2 ^ 24) 25 5 6 1 \<circ> carry_int (2 ^ 24) 25 3 4 1 \<circ>
     carry_int (2 ^ 24) 25 1 2 1 \<circ> carry_int (2 ^ 24) 25 9 0 19"

definition fe_load_carry_iv :: "ival list \<Rightarrow> ival list option" where
  "fe_load_carry_iv = seq_iv (carry_iv 64 (2 ^ 24) 25 9 0 19) (seq_iv (carry_iv 64 (2 ^ 24) 25 1 2 1)
     (seq_iv (carry_iv 64 (2 ^ 24) 25 3 4 1) (seq_iv (carry_iv 64 (2 ^ 24) 25 5 6 1)
     (seq_iv (carry_iv 64 (2 ^ 24) 25 7 8 1) (seq_iv (carry_iv 64 (2 ^ 25) 26 0 1 1)
     (seq_iv (carry_iv 64 (2 ^ 25) 26 2 3 1) (seq_iv (carry_iv 64 (2 ^ 25) 26 4 5 1)
     (seq_iv (carry_iv 64 (2 ^ 25) 26 6 7 1) (carry_iv 64 (2 ^ 25) 26 8 9 1)))))))))"

definition fe_load_carries :: "i64 list \<Rightarrow> i64 list" where
  "fe_load_carries = carry_round 26 8 9 \<circ> carry_round 26 6 7 \<circ> carry_round 26 4 5 \<circ> carry_round 26 2 3 \<circ>
     carry_round 26 0 1 \<circ> carry_round 25 7 8 \<circ> carry_round 25 5 6 \<circ> carry_round 25 3 4 \<circ>
     carry_round 25 1 2 \<circ> carry_round_mul 25 9 0 19"

lemma step_ok_fe_load_carries: "step_ok fe_load_carries fe_load_carry_int fe_load_carry_iv"
  unfolding fe_load_carries_def fe_load_carry_int_def fe_load_carry_iv_def
  by (intro step_ok_seq step_ok_carry64)

lemma fe_load_carry_comp: "fe_load_carry h = fe_store (fe_load_carries h)"
  by (simp only: fe_load_carry_def fe_load_carries_def Let_def comp_apply)

definition fe_load_box :: "ival list" where
  "fe_load_box = [(0, 2 ^ 32), (0, 2 ^ 30), (0, 2 ^ 29), (0, 2 ^ 27), (0, 2 ^ 26),
     (0, 2 ^ 32), (0, 2 ^ 31), (0, 2 ^ 29), (0, 2 ^ 28), (0, 2 ^ 26)]"

lemma fe_load_carry_box: "step_into (fe_load_carry_iv fe_load_box) (fe_box 101)"
  by code_simp

lemma fe_num_load_carry_int:
  "length v = 10 \<Longrightarrow> fe_num (fe_load_carry_int v) mod fe_q = fe_num v mod fe_q"
proof -
  have q: "57896044618658097711785492504343953926634992332820282019728792003956564819949 = fe_q"
    by (simp add: fe_q_def)
  have wrap: "(x - fe_q * c) mod fe_q = x mod fe_q" for x c
    by (metis mod_mult_self2 uminus_add_conv_diff add.commute minus_mult_right)
  show "length v = 10 \<Longrightarrow> fe_num (fe_load_carry_int v) mod fe_q = fe_num v mod fe_q"
    by (simp add: fe_load_carry_int_def fe_weight_def wsum_carry wsum_carry_wrap q wrap)
qed

lemma fe_is_load:
  assumes len: "length s = 32" and h: "uint h9 = H" "H < 2 ^ 24"
  shows "fe_is 101 (fe_load_carry (fe_load_limbs s h9)) (take_bit 232 (le_val s) + 2 ^ 232 * H)"
proof -
  define F where "F p n = take_bit n (drop_bit p (le_val s))" for p n
  let ?v = "[F 0 32, 2 ^ 6 * F 32 24, 2 ^ 5 * F 56 24, 2 ^ 3 * F 80 24, 2 ^ 2 * F 104 24,
    F 128 32, 2 ^ 7 * F 160 24, 2 ^ 5 * F 184 24, 2 ^ 4 * F 208 24, 2 ^ 2 * H]"
  have s: "fe_load_limbs s h9 = map CI ?v"
    unfolding F_def by (rule fe_load_limbs_value [OF assms])
  have H: "0 \<le> H" using h(1) uint_ge_0 [of h9] by simp
  have F: "0 \<le> F p n" "F p n < 2 ^ n" for p n by (simp_all add: F_def)
  have "within (map CI ?v) ?v fe_load_box"
    using F [of 0 32] F [of 32 24] F [of 56 24] F [of 80 24] F [of 104 24] F [of 128 32] F [of 160 24]
      F [of 184 24] F [of 208 24] H h(2)
    by (simp add: within_def fe_load_box_def)
  from within_fe_store [OF step_ok_into [OF step_ok_fe_load_carries this fe_load_carry_box]]
  have "within (fe_load_carry (fe_load_limbs s h9)) (fe_load_carry_int ?v) (fe_box 101)"
    by (simp only: s fe_load_carry_comp)
  then show ?thesis
    by (rule fe_isI) (simp only: fe_num_load_carry_int list.size fe_load_num F_def; simp)
qed

lemma fe_is_load255:
  assumes "length s = 32"
  shows "fe_is 101 (fe_load_carry (fe_load255 s)) (le_val s mod 2 ^ 255)"
proof -
  have "uint (load_3 s 29 AND 8388607) = take_bit 23 (drop_bit 232 (le_val s))"
  proof -
    have "load_3 s 29 AND 8388607 = take_bit 23 (load_3 s 29)"
      by (simp add: take_bit_eq_mask mask_eq_exp_minus_1)
    then show ?thesis using load_3_field [of 29 s] assms by (simp add: uint_take_bit)
  qed
  from fe_is_load [OF assms this]
  have "fe_is 101 (fe_load_carry (fe_load255 s)) (take_bit 232 (le_val s) + 2 ^ 232 * take_bit 23 (drop_bit 232 (le_val s)))"
    using take_bit_int_less_exp [of 23 "drop_bit 232 (le_val s)"] by (simp add: fe_load255_def)
  also have "take_bit 232 (le_val s) + 2 ^ 232 * take_bit 23 (drop_bit 232 (le_val s)) = le_val s mod 2 ^ (232 + 23)"
    unfolding take_bit_eq_mod drop_bit_eq_div power_add by (simp only: zmod_zmult2_eq zero_le_power zero_le_numeral add.commute)
  finally show ?thesis by simp
qed

lemma fe_is_load256:
  assumes "length s = 32"
  shows "fe_is 101 (fe_load_carry (fe_load256 s)) (le_val s)"
proof -
  have "uint (load_3 s 29) = take_bit 24 (drop_bit 232 (le_val s))"
    using load_3_field [of 29 s] assms by simp
  from fe_is_load [OF assms this]
  have "fe_is 101 (fe_load_carry (fe_load256 s)) (take_bit 232 (le_val s) + 2 ^ 232 * take_bit 24 (drop_bit 232 (le_val s)))"
    using take_bit_int_less_exp [of 24 "drop_bit 232 (le_val s)"] by (simp add: fe_load256_def)
  also have "take_bit 24 (drop_bit 232 (le_val s)) = drop_bit 232 (le_val s)"
    using le_val_less [of s] assms drop_bit_take_bit [of 232 256 "le_val s"] by (simp add: take_bit_int_eq_self)
  also have "take_bit 232 (le_val s) + 2 ^ 232 * drop_bit 232 (le_val s) = le_val s"
    using split_bits [of "le_val s" 232] by simp
  finally show ?thesis .
qed

section \<open>Powers\<close>

text \<open>
  Addition chains. The interface is a multiplication and a squaring that agree with those of
  integers under a representation \<open>rep\<close>; a chain of them then computes the power whose
  exponent is found by adding and doubling.
\<close>

locale power_chain =
  fixes mul :: "'a \<Rightarrow> 'a \<Rightarrow> 'a" and sq :: "'a \<Rightarrow> 'a" and rep :: "'a \<Rightarrow> int \<Rightarrow> bool"
  assumes mul_rep: "rep f x \<Longrightarrow> rep g y \<Longrightarrow> rep (mul f g) (x * y)"
    and sq_rep: "rep f x \<Longrightarrow> rep (sq f) (x * x)"
begin

lemma sq_pow: "rep f (x ^ n) \<Longrightarrow> rep (sq f) (x ^ (2 * n))"
  using sq_rep [of f "x ^ n"] by (simp add: mult_2 power_add)

lemma mul_pow: "rep f (x ^ m) \<Longrightarrow> rep g (x ^ n) \<Longrightarrow> rep (mul f g) (x ^ (m + n))"
  using mul_rep [of f "x ^ m" g "x ^ n"] by (simp add: power_add)

lemma sqn_pow: "rep f (x ^ n) \<Longrightarrow> rep ((sq ^^ k) f) (x ^ (2 ^ k * n))"
proof (induction k)
  case (Suc k)
  from sq_pow [OF Suc.IH [OF Suc.prems]] show ?case by (simp add: mult.assoc)
qed simp

lemma pow_1: "rep f x \<Longrightarrow> rep f (x ^ 1)"
  by simp

lemmas chain = mul_pow sq_pow sqn_pow

end

interpretation fe_chain: power_chain fe_mul fe_sq "fe_is 330"
  by unfold_locales (auto intro: fe_is_weaken [OF fe_is_mul] fe_is_weaken [OF fe_is_sq])

lemma fe_is_invert:
  assumes "fe_is 330 z x"
  shows "fe_is 101 (fe_invert z) (x ^ (2 ^ 255 - 21))"
proof -
  have z: "fe_is 330 z (x ^ 1)" using assms by simp
  have "\<exists>t1 t0 m n. fe_invert z = fe_mul t1 t0 \<and> fe_is 330 t1 (x ^ m) \<and> fe_is 330 t0 (x ^ n) \<and> m + n = 2 ^ 255 - 21"
    unfolding fe_invert_def Let_def fe_sqn_def
    by (intro exI conjI, rule refl, (rule fe_chain.chain z)+, simp)
  then obtain t1 t0 m n where "fe_invert z = fe_mul t1 t0" "fe_is 330 t1 (x ^ m)" "fe_is 330 t0 (x ^ n)"
    "m + n = 2 ^ 255 - 21" by blast
  then show ?thesis
    using fe_is_mul [of t1 "x ^ m" t0 "x ^ n"] by (simp only: power_add [symmetric])
qed

lemma fe_is_divpowm1:
  assumes "fe_is 330 u x" "fe_is 330 v y"
  shows "fe_is 101 (fe_divpowm1 u v) ((x * y ^ 7) ^ (2 ^ 252 - 3) * y ^ 3 * x)"
proof -
  have v: "fe_is 330 v (y ^ 1)" using assms(2) by simp
  have v3: "fe_is 330 (fe_mul (fe_sq v) v) (y ^ 3)"
    using fe_chain.mul_pow [OF fe_chain.sq_pow [OF v] v] by simp
  have "fe_is 330 (fe_mul (fe_sq (fe_mul (fe_sq v) v)) v) (y ^ 7)"
    using fe_chain.mul_pow [OF fe_chain.sq_pow [OF v3] v] by simp
  from fe_chain.mul_rep [OF this assms(1)]
  have w: "fe_is 330 (fe_mul (fe_mul (fe_sq (fe_mul (fe_sq v) v)) v) u) ((x * y ^ 7) ^ 1)"
    by (simp add: mult.commute)
  have "\<exists>t0 n. fe_divpowm1 u v = fe_mul (fe_mul t0 (fe_mul (fe_sq v) v)) u \<and>
      fe_is 330 t0 ((x * y ^ 7) ^ n) \<and> n = 2 ^ 252 - 3"
    unfolding fe_divpowm1_def Let_def fe_sqn_def
    by (intro exI conjI, rule refl, (rule w fe_chain.chain)+, simp)
  then obtain t0 where "fe_divpowm1 u v = fe_mul (fe_mul t0 (fe_mul (fe_sq v) v)) u"
      "fe_is 330 t0 ((x * y ^ 7) ^ (2 ^ 252 - 3))" by blast
  then show ?thesis
    using fe_is_mul [OF fe_chain.mul_rep [OF _ v3] assms(1)] by simp
qed

section \<open>What the operations promise\<close>

lemma fe_is_self: "fe_bounded k f \<Longrightarrow> fe_is k f (fe_val f)"
  by (simp add: fe_is_def)

text \<open>C1: within the operand bounds that the comments state, \<open>fe_mul\<close>, \<open>fe_sq\<close> and \<open>fe_sq2\<close>
  compute the product, the square and twice the square modulo \<open>2^255 - 19\<close>; no 32-bit or
  64-bit operation overflows, and the result is within the bound the comments promise.\<close>

theorem fe_mul_correct:
  assumes "fe_bounded 330 f" "fe_bounded 330 g"
  shows "fe_is 101 (fe_mul f g) (fe_val f * fe_val g) \<and> fe_is 101 (fe_sq f) (fe_val f ^ 2) \<and>
    fe_is 101 (fe_sq2 f) (2 * fe_val f ^ 2)"
  using fe_is_mul [OF assms [THEN fe_is_self]] fe_is_sq [OF fe_is_self] fe_is_sq2 [OF fe_is_self] assms
  by (simp add: power2_eq_square)

theorem fe_mul_correct_witness:
  "fe_is 101 (fe_mul (replicate 10 (CI (- 55364812))) fe_1) (fe_val (replicate 10 (CI (- 55364812))) * fe_val fe_1)"
proof -
  have "fe_bounded 330 (replicate 10 (CI (- 55364812)))" "fe_bounded 330 fe_1" by code_simp+
  from fe_mul_correct [OF this] show ?thesis ..
qed

text \<open>C2: \<open>fe_tobytes\<close> writes the unique representative below \<open>2^255 - 19\<close>, for limbs in the range
  its comment allows; \<open>fe_isnegative\<close> is its parity and \<open>fe_isnonzero\<close> tests it for 0.\<close>

theorem fe_tobytes_correct:
  assumes "fe_bounded 220 f"
  shows "fe_tobytes f = Some (le_bytes 32 (fe_val f mod fe_q)) \<and>
    fe_isnegative f = CI (if odd (fe_val f mod fe_q) then 1 else 0) \<and>
    fe_isnonzero f = CI (if fe_val f mod fe_q = 0 then 0 else 1)"
  using fe_is_tobytes fe_isnegative_value fe_isnonzero_value fe_is_self [OF assms] by blast

theorem fe_tobytes_correct_witness:
  "fe_tobytes (replicate 10 (CI (- 36909875))) = Some (le_bytes 32 (fe_val (replicate 10 (CI (- 36909875))) mod fe_q))"
proof -
  have "fe_bounded 220 (replicate 10 (CI (- 36909875)))" by code_simp
  from fe_tobytes_correct [OF this] show ?thesis ..
qed

text \<open>C3: decoding 32 bytes and encoding the result again gives the value of the bytes without
  their top bit, reduced; bytes of a canonical value come back unchanged. The second
  decoder keeps the top bit.\<close>

theorem fe_bytes_roundtrip:
  assumes "length s = 32"
  shows "fe_tobytes (fe_load_carry (fe_load255 s)) = Some (le_bytes 32 (le_val s mod 2 ^ 255 mod fe_q)) \<and>
    fe_tobytes (fe_load_carry (fe_load256 s)) = Some (le_bytes 32 (le_val s mod fe_q)) \<and>
    (le_val s < fe_q \<longrightarrow> fe_tobytes (fe_load_carry (fe_load255 s)) = Some s)"
proof (intro conjI impI)
  note l = fe_is_weaken [OF fe_is_load255 [OF assms], of 220] fe_is_weaken [OF fe_is_load256 [OF assms], of 220]
  show a: "fe_tobytes (fe_load_carry (fe_load255 s)) = Some (le_bytes 32 (le_val s mod 2 ^ 255 mod fe_q))"
    and "fe_tobytes (fe_load_carry (fe_load256 s)) = Some (le_bytes 32 (le_val s mod fe_q))"
    using fe_is_tobytes [OF l(1)] fe_is_tobytes [OF l(2)] by simp_all
  assume "le_val s < fe_q"
  then have "le_val s mod 2 ^ 255 mod fe_q = le_val s" by (simp add: fe_q_def)
  then show "fe_tobytes (fe_load_carry (fe_load255 s)) = Some s"
    using a le_bytes_le_val [OF assms] by simp
qed

theorem fe_bytes_roundtrip_witness:
  "fe_tobytes (fe_load_carry (fe_load255 (le_bytes 32 (2 ^ 254 + 5)))) = Some (le_bytes 32 (2 ^ 254 + 5))"
proof -
  have "le_val (le_bytes 32 (2 ^ 254 + 5)) < fe_q" by code_simp
  with fe_bytes_roundtrip [OF length_le_bytes] show ?thesis by blast
qed

text \<open>C4: the addition chains compute the powers they are meant to: \<open>fe_invert z = z^(q - 2)\<close>, the
  inverse by Fermat's theorem, and \<open>fe_divpowm1 u v = u v^3 (u v^7)^((q - 5) / 8)\<close>.\<close>

theorem fe_powers_correct:
  assumes "fe_bounded 330 u" "fe_bounded 330 v"
  shows "fe_is 101 (fe_invert u) (fe_val u ^ nat (fe_q - 2)) \<and>
    fe_is 101 (fe_divpowm1 u v)
      (fe_val u * fe_val v ^ 3 * (fe_val u * fe_val v ^ 7) ^ nat ((fe_q - 5) div 8))"
proof -
  have "nat (fe_q - 2) = 2 ^ 255 - 21" "nat ((fe_q - 5) div 8) = 2 ^ 252 - 3"
    by (simp_all add: fe_q_def)
  then show ?thesis
    using fe_is_invert [OF fe_is_self [OF assms(1)]] fe_is_divpowm1 [OF assms [THEN fe_is_self]]
    by (simp only: mult_ac)
qed

theorem fe_powers_correct_witness:
  "fe_is 101 (fe_invert fe_1) (fe_val fe_1 ^ nat (fe_q - 2))"
proof -
  have "fe_bounded 330 fe_1" by code_simp
  from fe_powers_correct [OF this this] show ?thesis ..
qed

text \<open>\<open>fe_cmov\<close> selects by masks: with \<open>b = 1\<close> it returns \<open>g\<close>, with \<open>b = 0\<close> it returns \<open>f\<close>, and
  its assertion stops every other \<open>b\<close>.\<close>

theorem fe_cmov_correct:
  assumes "fe_bounded k f" "fe_bounded l g" "k \<le> 6300" "l \<le> 6300"
  shows "fe_cmov f g b = (if b = 0 then Some f else if b = 1 then Some g else None)"
  using fe_cmov_value [OF assms] .

theorem fe_cmov_correct_witness: "fe_cmov fe_0 fe_1 1 = Some fe_1 \<and> fe_cmov fe_0 fe_1 2 = None"
proof -
  have "fe_bounded 101 fe_0" "fe_bounded 101 fe_1" by code_simp+
  from fe_cmov_correct [OF this] show ?thesis by simp
qed

text \<open>In \<open>fe_tobytes\<close>, the shift in \<open>(h3 >> 19) | (h4 << 6)\<close> exceeds \<open>int32_t\<close> for admissible
  limbs: the exact value \<open>h4 * 2^6\<close> does not fit, so the code relies on the compiler's
  treatment of a left shift that C11 leaves undefined.\<close>

theorem fe_tobytes_shift_overflow:
  "\<exists>f. fe_bounded 110 f \<and> \<not> fits 32 (ci_val (fe_freeze f ! 4) * 2 ^ 6) \<and>
    fe_tobytes f = Some (le_bytes 32 (2 ^ 127))"
proof (intro exI conjI)
  let ?f = "fe_0[4 := CI (2 ^ 25)]"
  show "fe_bounded 110 ?f" by code_simp
  show "\<not> fits 32 (ci_val (fe_freeze ?f ! 4) * 2 ^ 6)" by code_simp
  show "fe_tobytes ?f = Some (le_bytes 32 (2 ^ 127))" by code_simp
qed

end
