(* ===== verification/Group.thy ===== *)
theory Group
  imports Group_Data "HOL-Library.Monad_Syntax"
begin

text \<open>
  The group operations of crypto-ops.c on the curve \<open>-x^2 + y^2 = 1 + d x^2 y^2\<close>: the point
  representations, addition and doubling, the recodings of scalars (\<open>slide\<close> and signed
  radix 16), the table look-up without branches, the scalar multiplications, and the
  conversions between points and bytes.
\<close>

section \<open>Representations of points\<close>

text \<open>\<open>ge_p2\<close>: \<open>(X/Z, Y/Z)\<close>; \<open>ge_p3\<close>: the same with \<open>X Y = Z T\<close>; \<open>ge_p1p1\<close>: \<open>(X/Z, Y/T)\<close>;
  \<open>ge_cached\<close>: \<open>(Y + X, Y - X, Z, 2 d T)\<close> of a \<open>ge_p3\<close>.\<close>

record ge_p2 =
  p2_X :: fe
  p2_Y :: fe
  p2_Z :: fe

record ge_p3 =
  p3_X :: fe
  p3_Y :: fe
  p3_Z :: fe
  p3_T :: fe

record ge_p1p1 =
  p1_X :: fe
  p1_Y :: fe
  p1_Z :: fe
  p1_T :: fe

record ge_cached =
  YplusX :: fe
  YminusX :: fe
  ca_Z :: fe
  T2d :: fe

section \<open>Addition and doubling\<close>

definition ge_add :: "ge_p3 \<Rightarrow> ge_cached \<Rightarrow> ge_p1p1" where
  "ge_add p q =
     (let rX = fe_add (p3_Y p) (p3_X p);
          rY = fe_sub (p3_Y p) (p3_X p);
          rZ = fe_mul rX (YplusX q);
          rY = fe_mul rY (YminusX q);
          rT = fe_mul (T2d q) (p3_T p);
          rX = fe_mul (p3_Z p) (ca_Z q);
          t0 = fe_add rX rX;
          rX = fe_sub rZ rY;
          rY = fe_add rZ rY;
          rZ = fe_add t0 rT;
          rT = fe_sub t0 rT
      in \<lparr>p1_X = rX, p1_Y = rY, p1_Z = rZ, p1_T = rT\<rparr>)"

definition ge_sub :: "ge_p3 \<Rightarrow> ge_cached \<Rightarrow> ge_p1p1" where
  "ge_sub p q =
     (let rX = fe_add (p3_Y p) (p3_X p);
          rY = fe_sub (p3_Y p) (p3_X p);
          rZ = fe_mul rX (YminusX q);
          rY = fe_mul rY (YplusX q);
          rT = fe_mul (T2d q) (p3_T p);
          rX = fe_mul (p3_Z p) (ca_Z q);
          t0 = fe_add rX rX;
          rX = fe_sub rZ rY;
          rY = fe_add rZ rY;
          rZ = fe_sub t0 rT;
          rT = fe_add t0 rT
      in \<lparr>p1_X = rX, p1_Y = rY, p1_Z = rZ, p1_T = rT\<rparr>)"

definition ge_madd :: "ge_p3 \<Rightarrow> ge_precomp \<Rightarrow> ge_p1p1" where
  "ge_madd p q =
     (let rX = fe_add (p3_Y p) (p3_X p);
          rY = fe_sub (p3_Y p) (p3_X p);
          rZ = fe_mul rX (yplusx q);
          rY = fe_mul rY (yminusx q);
          rT = fe_mul (xy2d q) (p3_T p);
          t0 = fe_add (p3_Z p) (p3_Z p);
          rX = fe_sub rZ rY;
          rY = fe_add rZ rY;
          rZ = fe_add t0 rT;
          rT = fe_sub t0 rT
      in \<lparr>p1_X = rX, p1_Y = rY, p1_Z = rZ, p1_T = rT\<rparr>)"

definition ge_msub :: "ge_p3 \<Rightarrow> ge_precomp \<Rightarrow> ge_p1p1" where
  "ge_msub p q =
     (let rX = fe_add (p3_Y p) (p3_X p);
          rY = fe_sub (p3_Y p) (p3_X p);
          rZ = fe_mul rX (yminusx q);
          rY = fe_mul rY (yplusx q);
          rT = fe_mul (xy2d q) (p3_T p);
          t0 = fe_add (p3_Z p) (p3_Z p);
          rX = fe_sub rZ rY;
          rY = fe_add rZ rY;
          rZ = fe_sub t0 rT;
          rT = fe_add t0 rT
      in \<lparr>p1_X = rX, p1_Y = rY, p1_Z = rZ, p1_T = rT\<rparr>)"

definition ge_p1p1_to_p2 :: "ge_p1p1 \<Rightarrow> ge_p2" where
  "ge_p1p1_to_p2 p = \<lparr>p2_X = fe_mul (p1_X p) (p1_T p), p2_Y = fe_mul (p1_Y p) (p1_Z p),
     p2_Z = fe_mul (p1_Z p) (p1_T p)\<rparr>"

definition ge_p1p1_to_p3 :: "ge_p1p1 \<Rightarrow> ge_p3" where
  "ge_p1p1_to_p3 p = \<lparr>p3_X = fe_mul (p1_X p) (p1_T p), p3_Y = fe_mul (p1_Y p) (p1_Z p),
     p3_Z = fe_mul (p1_Z p) (p1_T p), p3_T = fe_mul (p1_X p) (p1_Y p)\<rparr>"

definition ge_p2_0 :: ge_p2 where
  "ge_p2_0 = \<lparr>p2_X = fe_0, p2_Y = fe_1, p2_Z = fe_1\<rparr>"

definition ge_p3_0 :: ge_p3 where
  "ge_p3_0 = \<lparr>p3_X = fe_0, p3_Y = fe_1, p3_Z = fe_1, p3_T = fe_0\<rparr>"

definition ge_p2_dbl :: "ge_p2 \<Rightarrow> ge_p1p1" where
  "ge_p2_dbl p =
     (let rX = fe_sq (p2_X p);
          rZ = fe_sq (p2_Y p);
          rT = fe_sq2 (p2_Z p);
          rY = fe_add (p2_X p) (p2_Y p);
          t0 = fe_sq rY;
          rY = fe_add rZ rX;
          rZ = fe_sub rZ rX;
          rX = fe_sub t0 rY;
          rT = fe_sub rT rZ
      in \<lparr>p1_X = rX, p1_Y = rY, p1_Z = rZ, p1_T = rT\<rparr>)"

definition ge_p3_to_p2 :: "ge_p3 \<Rightarrow> ge_p2" where
  "ge_p3_to_p2 p = \<lparr>p2_X = fe_copy (p3_X p), p2_Y = fe_copy (p3_Y p), p2_Z = fe_copy (p3_Z p)\<rparr>"

definition ge_p3_dbl :: "ge_p3 \<Rightarrow> ge_p1p1" where
  "ge_p3_dbl p = ge_p2_dbl (ge_p3_to_p2 p)"

definition ge_p3_to_cached :: "ge_p3 \<Rightarrow> ge_cached" where
  "ge_p3_to_cached p = \<lparr>YplusX = fe_add (p3_Y p) (p3_X p), YminusX = fe_sub (p3_Y p) (p3_X p),
     ca_Z = fe_copy (p3_Z p), T2d = fe_mul (p3_T p) fe_d2\<rparr>"

definition ge_mul8 :: "ge_p2 \<Rightarrow> ge_p1p1" where
  "ge_mul8 t =
     (let r = ge_p2_dbl t;
          u = ge_p1p1_to_p2 r;
          r = ge_p2_dbl u;
          u = ge_p1p1_to_p2 r
      in ge_p2_dbl u)"

section \<open>Selection without branches\<close>

text \<open>\<open>signed char\<close> values are integers; a store in a \<open>signed char\<close> keeps the low 8 bits.\<close>

definition sc8 :: "int \<Rightarrow> int" where
  "sc8 n = signed_take_bit 7 n"

definition equal :: "u8 \<Rightarrow> u8 \<Rightarrow> u8" where
  "equal b c =
     (let x = b XOR c;
          y = ucast x :: u32;
          y = y - 1;
          y = drop_bit 31 y
      in ucast y)"

definition negative :: "int \<Rightarrow> u8" where
  "negative b = ucast (drop_bit 63 (word_of_int b :: u64))"

text \<open>\<open>babs = b - (((-bnegative) & b) << 1)\<close>\<close>

definition babs :: "int \<Rightarrow> u8" where
  "babs b = word_of_int (b - push_bit 1 ((- uint (negative b)) AND b))"

definition ge_precomp_0 :: ge_precomp where
  "ge_precomp_0 = \<lparr>yplusx = fe_1, yminusx = fe_1, xy2d = fe_0\<rparr>"

definition ge_precomp_cmov :: "ge_precomp \<Rightarrow> ge_precomp \<Rightarrow> u8 \<Rightarrow> ge_precomp option" where
  "ge_precomp_cmov t u b =
     do {
       a \<leftarrow> fe_cmov (yplusx t) (yplusx u) (ucast b);
       m \<leftarrow> fe_cmov (yminusx t) (yminusx u) (ucast b);
       x \<leftarrow> fe_cmov (xy2d t) (xy2d u) (ucast b);
       Some \<lparr>yplusx = a, yminusx = m, xy2d = x\<rparr>
     }"

definition select :: "nat \<Rightarrow> int \<Rightarrow> ge_precomp option" where
  "select pos b =
     do {
       t \<leftarrow> ge_precomp_cmov ge_precomp_0 (ge_base ! pos ! 0) (equal (babs b) 1);
       t \<leftarrow> ge_precomp_cmov t (ge_base ! pos ! 1) (equal (babs b) 2);
       t \<leftarrow> ge_precomp_cmov t (ge_base ! pos ! 2) (equal (babs b) 3);
       t \<leftarrow> ge_precomp_cmov t (ge_base ! pos ! 3) (equal (babs b) 4);
       t \<leftarrow> ge_precomp_cmov t (ge_base ! pos ! 4) (equal (babs b) 5);
       t \<leftarrow> ge_precomp_cmov t (ge_base ! pos ! 5) (equal (babs b) 6);
       t \<leftarrow> ge_precomp_cmov t (ge_base ! pos ! 6) (equal (babs b) 7);
       t \<leftarrow> ge_precomp_cmov t (ge_base ! pos ! 7) (equal (babs b) 8);
       let minust = \<lparr>yplusx = fe_copy (yminusx t), yminusx = fe_copy (yplusx t), xy2d = fe_neg (xy2d t)\<rparr>;
       ge_precomp_cmov t minust (negative b)
     }"

definition ge_cached_0 :: ge_cached where
  "ge_cached_0 = \<lparr>YplusX = fe_1, YminusX = fe_1, ca_Z = fe_1, T2d = fe_0\<rparr>"

definition ge_cached_cmov :: "ge_cached \<Rightarrow> ge_cached \<Rightarrow> u8 \<Rightarrow> ge_cached option" where
  "ge_cached_cmov t u b =
     do {
       a \<leftarrow> fe_cmov (YplusX t) (YplusX u) (ucast b);
       m \<leftarrow> fe_cmov (YminusX t) (YminusX u) (ucast b);
       z \<leftarrow> fe_cmov (ca_Z t) (ca_Z u) (ucast b);
       x \<leftarrow> fe_cmov (T2d t) (T2d u) (ucast b);
       Some \<lparr>YplusX = a, YminusX = m, ca_Z = z, T2d = x\<rparr>
     }"

text \<open>The selection inside the loop of \<open>ge_scalarmult\<close>.\<close>

definition select_cached :: "ge_cached list \<Rightarrow> int \<Rightarrow> ge_cached option" where
  "select_cached Ai b =
     do {
       t \<leftarrow> ge_cached_cmov ge_cached_0 (Ai ! 0) (equal (babs b) 1);
       t \<leftarrow> ge_cached_cmov t (Ai ! 1) (equal (babs b) 2);
       t \<leftarrow> ge_cached_cmov t (Ai ! 2) (equal (babs b) 3);
       t \<leftarrow> ge_cached_cmov t (Ai ! 3) (equal (babs b) 4);
       t \<leftarrow> ge_cached_cmov t (Ai ! 4) (equal (babs b) 5);
       t \<leftarrow> ge_cached_cmov t (Ai ! 5) (equal (babs b) 6);
       t \<leftarrow> ge_cached_cmov t (Ai ! 6) (equal (babs b) 7);
       t \<leftarrow> ge_cached_cmov t (Ai ! 7) (equal (babs b) 8);
       let minuscur = \<lparr>YplusX = fe_copy (YminusX t), YminusX = fe_copy (YplusX t),
         ca_Z = fe_copy (ca_Z t), T2d = fe_neg (T2d t)\<rparr>;
       ge_cached_cmov t minuscur (negative b)
     }"

end
