(* ===== verification/Group_Proofs.thy ===== *)
theory Group_Proofs
  imports Field_Proofs Group
begin

text \<open>
  The group operations of crypto-ops.c against the addition law of the curve
  \<open>-x^2 + y^2 = 1 + d x^2 y^2\<close> modulo \<open>2^255 - 19\<close>: what point each representation stands for
  (with the bounds on its limbs), addition, subtraction, mixed addition, doubling and the
  changes of representation.
\<close>

section \<open>Points modulo \<open>q\<close>\<close>

text \<open>The curve constant, as the limbs of \<open>fe_d\<close> give it: \<open>- 121665 / 121666\<close>.\<close>

definition ed_d :: int where
  "ed_d = fe_val fe_d"

lemma ed_d_value: "(121666 * ed_d + 121665) mod fe_q = 0"
  by code_simp

text \<open>\<open>x\<close> is invertible modulo \<open>q\<close>.\<close>

abbreviation unit_q :: "int \<Rightarrow> bool" where
  "unit_q x \<equiv> coprime x fe_q"

definition on_curve :: "int \<Rightarrow> int \<Rightarrow> bool" where
  "on_curve x y \<longleftrightarrow> (y * y - x * x) mod fe_q = (1 + ed_d * (x * x) * (y * y)) mod fe_q"

text \<open>\<open>(x3, y3)\<close> is the sum of two points by the addition law of the curve:
  \<open>x3 = (x1 y2 + y1 x2) / (1 + d x1 x2 y1 y2)\<close>, \<open>y3 = (y1 y2 + x1 x2) / (1 - d x1 x2 y1 y2)\<close>.\<close>

definition ed_sum :: "int \<times> int \<Rightarrow> int \<times> int \<Rightarrow> int \<times> int \<Rightarrow> bool" where
  "ed_sum P Q R \<longleftrightarrow> (case (P, Q, R) of ((x1, y1), (x2, y2), (x3, y3)) \<Rightarrow>
     let e = ed_d * (x1 * x2 * y1 * y2) in
     unit_q (1 + e) \<and> unit_q (1 - e) \<and>
     (x3 * (1 + e)) mod fe_q = (x1 * y2 + y1 * x2) mod fe_q \<and>
     (y3 * (1 - e)) mod fe_q = (y1 * y2 + x1 * x2) mod fe_q)"

fun ed_neg :: "int \<times> int \<Rightarrow> int \<times> int" where
  "ed_neg (x, y) = (- x, y)"

text \<open>Which point each representation stands for; the numbers are the bounds on the limbs.\<close>

definition p2_point :: "ge_p2 \<Rightarrow> int \<times> int \<Rightarrow> bool" where
  "p2_point p P \<longleftrightarrow> (\<exists>z. unit_q z \<and> fe_is 101 (p2_X p) (fst P * z) \<and> fe_is 101 (p2_Y p) (snd P * z) \<and>
     fe_is 101 (p2_Z p) z)"

definition p3_point :: "ge_p3 \<Rightarrow> int \<times> int \<Rightarrow> bool" where
  "p3_point p P \<longleftrightarrow> (\<exists>z. unit_q z \<and> fe_is 101 (p3_X p) (fst P * z) \<and> fe_is 101 (p3_Y p) (snd P * z) \<and>
     fe_is 101 (p3_Z p) z \<and> fe_is 101 (p3_T p) (fst P * snd P * z))"

definition p1p1_point :: "ge_p1p1 \<Rightarrow> int \<times> int \<Rightarrow> bool" where
  "p1p1_point p P \<longleftrightarrow> (\<exists>z t. unit_q z \<and> unit_q t \<and> fe_is 303 (p1_X p) (fst P * z) \<and>
     fe_is 303 (p1_Y p) (snd P * t) \<and> fe_is 303 (p1_Z p) z \<and> fe_is 303 (p1_T p) t)"

definition cached_point :: "ge_cached \<Rightarrow> int \<times> int \<Rightarrow> bool" where
  "cached_point c P \<longleftrightarrow> (\<exists>z. unit_q z \<and> fe_is 202 (YplusX c) ((snd P + fst P) * z) \<and>
     fe_is 202 (YminusX c) ((snd P - fst P) * z) \<and> fe_is 101 (ca_Z c) z \<and>
     fe_is 101 (T2d c) (2 * ed_d * (fst P * snd P) * z))"

definition precomp_point :: "ge_precomp \<Rightarrow> int \<times> int \<Rightarrow> bool" where
  "precomp_point c P \<longleftrightarrow> fe_is 101 (yplusx c) (snd P + fst P) \<and> fe_is 101 (yminusx c) (snd P - fst P) \<and>
     fe_is 101 (xy2d c) (2 * ed_d * (fst P * snd P))"

lemma unit_q_2: "unit_q 2"
  by (simp add: fe_q_def)

lemma unit_q_mult: "unit_q x \<Longrightarrow> unit_q y \<Longrightarrow> unit_q (x * y)"
  by simp

text \<open>The rules of \<open>fe_is\<close> with a bound that is left to the simplifier.\<close>

lemma fe_mul_rule: "fe_is k f x \<Longrightarrow> fe_is l g y \<Longrightarrow> k \<le> 330 \<Longrightarrow> l \<le> 330 \<Longrightarrow> fe_is 101 (fe_mul f g) (x * y)"
  by (rule fe_is_mul; erule fe_is_weaken)

lemma fe_sq_rule: "fe_is k f x \<Longrightarrow> k \<le> 330 \<Longrightarrow> fe_is 101 (fe_sq f) (x * x)"
  by (rule fe_is_sq; erule fe_is_weaken)

lemma fe_sq2_rule: "fe_is k f x \<Longrightarrow> k \<le> 330 \<Longrightarrow> fe_is 101 (fe_sq2 f) (2 * (x * x))"
  by (rule fe_is_sq2; erule fe_is_weaken)

lemmas fe_rules = fe_mul_rule fe_sq_rule fe_sq2_rule fe_is_add_sub fe_is_neg

lemma fe_is_eq: "fe_is k f x \<Longrightarrow> x mod fe_q = y mod fe_q \<Longrightarrow> k \<le> l \<Longrightarrow> fe_is l f y"
  by (rule fe_is_weaken [OF fe_is_cong])

lemma fe_is_d2: "fe_is 101 fe_d2 (2 * ed_d)"
  unfolding fe_is_def by code_simp

lemma scale_mod:
  assumes "a mod fe_q = b mod fe_q"
  shows "(k * a) mod fe_q = (k * b) mod fe_q"
  using assms by (metis mod_mult_right_eq)

section \<open>Addition\<close>

text \<open>The four sums share their last steps: from \<open>A = (Y1 + X1) (Y2 + X2)\<close>, \<open>B = (Y1 - X1) (Y2 - X2)\<close>,
  \<open>C = 2 d T1 T2\<close> and \<open>D = 2 Z1 Z2\<close>, all scaled by \<open>k = Z1 Z2\<close>.\<close>

lemma p1p1_of_sum:
  assumes s: "ed_sum (x1, y1) (x2, y2) (x3, y3)" and k: "unit_q k"
    and A: "fe_is 101 A ((y1 + x1) * (y2 + x2) * k)" and B: "fe_is 101 B ((y1 - x1) * (y2 - x2) * k)"
    and C: "fe_is 101 C (2 * ed_d * (x1 * x2 * y1 * y2) * k)" and D: "fe_is 202 D (2 * k)"
  shows "p1p1_point \<lparr>p1_X = fe_sub A B, p1_Y = fe_add A B, p1_Z = fe_add D C, p1_T = fe_sub D C\<rparr> (x3, y3)"
proof -
  let ?e = "ed_d * (x1 * x2 * y1 * y2)"
  have e: "unit_q (1 + ?e)" "unit_q (1 - ?e)"
    "(x3 * (1 + ?e)) mod fe_q = (x1 * y2 + y1 * x2) mod fe_q"
    "(y3 * (1 - ?e)) mod fe_q = (y1 * y2 + x1 * x2) mod fe_q"
    using s by (simp_all add: ed_sum_def Let_def)
  have "fe_is 202 (fe_sub A B) ((y1 + x1) * (y2 + x2) * k - (y1 - x1) * (y2 - x2) * k)"
    using fe_is_add_sub(2) [OF A B] by simp
  then have X: "fe_is 303 (fe_sub A B) (x3 * (2 * k * (1 + ?e)))"
    by (rule fe_is_eq) (use scale_mod [OF e(3), of "2 * k"] in \<open>simp_all add: algebra_simps\<close>)
  have "fe_is 202 (fe_add A B) ((y1 + x1) * (y2 + x2) * k + (y1 - x1) * (y2 - x2) * k)"
    using fe_is_add_sub(1) [OF A B] by simp
  then have Y: "fe_is 303 (fe_add A B) (y3 * (2 * k * (1 - ?e)))"
    by (rule fe_is_eq) (use scale_mod [OF e(4), of "2 * k"] in \<open>simp_all add: algebra_simps\<close>)
  have Z: "fe_is 303 (fe_add D C) (2 * k * (1 + ?e))" and T: "fe_is 303 (fe_sub D C) (2 * k * (1 - ?e))"
    using fe_is_add_sub [OF D C] by (simp_all add: algebra_simps)
  have "unit_q (2 * k * (1 + ?e))" "unit_q (2 * k * (1 - ?e))"
    using e(1,2) k unit_q_2 by simp_all
  with X Y Z T show ?thesis
    unfolding p1p1_point_def
    by (intro exI [of _ "2 * k * (1 + ?e)"] exI [of _ "2 * k * (1 - ?e)"]) simp
qed

lemma p3_sums:
  assumes "fe_is 101 (p3_X p) (x * z)" "fe_is 101 (p3_Y p) (y * z)"
  shows "fe_is 202 (fe_add (p3_Y p) (p3_X p)) ((y + x) * z)" "fe_is 202 (fe_sub (p3_Y p) (p3_X p)) ((y - x) * z)"
  using fe_is_add_sub [OF assms(2,1)] by (simp_all add: algebra_simps)

lemma ge_add_point:
  assumes p: "p3_point p (x1, y1)" and c: "cached_point c (x2, y2)" and s: "ed_sum (x1, y1) (x2, y2) (x3, y3)"
  shows "p1p1_point (ge_add p c) (x3, y3)"
proof -
  from p obtain z where z: "unit_q z" and X: "fe_is 101 (p3_X p) (x1 * z)" and Y: "fe_is 101 (p3_Y p) (y1 * z)"
    and Z: "fe_is 101 (p3_Z p) z" and T: "fe_is 101 (p3_T p) (x1 * y1 * z)" by (auto simp: p3_point_def)
  from c obtain w where w: "unit_q w" and P: "fe_is 202 (YplusX c) ((y2 + x2) * w)"
    and M: "fe_is 202 (YminusX c) ((y2 - x2) * w)" and W: "fe_is 101 (ca_Z c) w"
    and D: "fe_is 101 (T2d c) (2 * ed_d * (x2 * y2) * w)" by (auto simp: cached_point_def)
  note XY = p3_sums [OF X Y]
  have A: "fe_is 101 (fe_mul (fe_add (p3_Y p) (p3_X p)) (YplusX c)) ((y1 + x1) * (y2 + x2) * (z * w))"
    using fe_mul_rule [OF XY(1) P] by (simp add: mult_ac)
  have B: "fe_is 101 (fe_mul (fe_sub (p3_Y p) (p3_X p)) (YminusX c)) ((y1 - x1) * (y2 - x2) * (z * w))"
    using fe_mul_rule [OF XY(2) M] by (simp add: mult_ac)
  have C: "fe_is 101 (fe_mul (T2d c) (p3_T p)) (2 * ed_d * (x1 * x2 * y1 * y2) * (z * w))"
    using fe_mul_rule [OF D T] by (simp add: mult_ac)
  have E: "fe_is 101 (fe_mul (p3_Z p) (ca_Z c)) (z * w)" using fe_mul_rule [OF Z W] by (simp add: mult_ac)
  have D: "fe_is 202 (fe_add (fe_mul (p3_Z p) (ca_Z c)) (fe_mul (p3_Z p) (ca_Z c))) (2 * (z * w))"
    using fe_is_add_sub(1) [OF E E] by (simp add: mult_ac)
  have "unit_q (z * w)" using z w by simp
  from p1p1_of_sum [OF s this A B C D] show ?thesis by (simp add: ge_add_def Let_def)
qed

text \<open>Subtraction is the addition of the negated point: its cached form exchanges the two
  coordinates and negates \<open>T2d\<close>, and \<open>ge_sub\<close> exchanges the signs instead.\<close>

lemma p1p1_of_difference:
  assumes s: "ed_sum (x1, y1) (- x2, y2) (x3, y3)" and k: "unit_q k"
    and A: "fe_is 101 A ((y1 + x1) * (y2 - x2) * k)" and B: "fe_is 101 B ((y1 - x1) * (y2 + x2) * k)"
    and C: "fe_is 101 C (2 * ed_d * (x1 * x2 * y1 * y2) * k)" and D: "fe_is 202 D (2 * k)"
  shows "p1p1_point \<lparr>p1_X = fe_sub A B, p1_Y = fe_add A B, p1_Z = fe_sub D C, p1_T = fe_add D C\<rparr> (x3, y3)"
proof -
  let ?e = "ed_d * (x1 * - x2 * y1 * y2)"
  have e: "unit_q (1 + ?e)" "unit_q (1 - ?e)"
    "(x3 * (1 + ?e)) mod fe_q = (x1 * y2 + y1 * - x2) mod fe_q"
    "(y3 * (1 - ?e)) mod fe_q = (y1 * y2 + x1 * - x2) mod fe_q"
    using s by (simp_all add: ed_sum_def Let_def)
  have "fe_is 202 (fe_sub A B) ((y1 + x1) * (y2 - x2) * k - (y1 - x1) * (y2 + x2) * k)"
    using fe_is_add_sub(2) [OF A B] by simp
  then have X: "fe_is 303 (fe_sub A B) (x3 * (2 * k * (1 + ?e)))"
    by (rule fe_is_eq) (use scale_mod [OF e(3), of "2 * k"] in \<open>simp_all add: algebra_simps\<close>)
  have "fe_is 202 (fe_add A B) ((y1 + x1) * (y2 - x2) * k + (y1 - x1) * (y2 + x2) * k)"
    using fe_is_add_sub(1) [OF A B] by simp
  then have Y: "fe_is 303 (fe_add A B) (y3 * (2 * k * (1 - ?e)))"
    by (rule fe_is_eq) (use scale_mod [OF e(4), of "2 * k"] in \<open>simp_all add: algebra_simps\<close>)
  have Z: "fe_is 303 (fe_sub D C) (2 * k * (1 + ?e))" and T: "fe_is 303 (fe_add D C) (2 * k * (1 - ?e))"
    using fe_is_add_sub [OF D C] by (simp_all add: algebra_simps)
  have "unit_q (2 * k * (1 + ?e))" "unit_q (2 * k * (1 - ?e))"
    using e(1,2) k unit_q_2 by simp_all
  with X Y Z T show ?thesis
    unfolding p1p1_point_def
    by (intro exI [of _ "2 * k * (1 + ?e)"] exI [of _ "2 * k * (1 - ?e)"]) simp
qed

lemma ge_sub_point:
  assumes p: "p3_point p (x1, y1)" and c: "cached_point c (x2, y2)" and s: "ed_sum (x1, y1) (- x2, y2) (x3, y3)"
  shows "p1p1_point (ge_sub p c) (x3, y3)"
proof -
  from p obtain z where z: "unit_q z" and X: "fe_is 101 (p3_X p) (x1 * z)" and Y: "fe_is 101 (p3_Y p) (y1 * z)"
    and Z: "fe_is 101 (p3_Z p) z" and T: "fe_is 101 (p3_T p) (x1 * y1 * z)" by (auto simp: p3_point_def)
  from c obtain w where w: "unit_q w" and P: "fe_is 202 (YplusX c) ((y2 + x2) * w)"
    and M: "fe_is 202 (YminusX c) ((y2 - x2) * w)" and W: "fe_is 101 (ca_Z c) w"
    and D: "fe_is 101 (T2d c) (2 * ed_d * (x2 * y2) * w)" by (auto simp: cached_point_def)
  note XY = p3_sums [OF X Y]
  have A: "fe_is 101 (fe_mul (fe_add (p3_Y p) (p3_X p)) (YminusX c)) ((y1 + x1) * (y2 - x2) * (z * w))"
    using fe_mul_rule [OF XY(1) M] by (simp add: mult_ac)
  have B: "fe_is 101 (fe_mul (fe_sub (p3_Y p) (p3_X p)) (YplusX c)) ((y1 - x1) * (y2 + x2) * (z * w))"
    using fe_mul_rule [OF XY(2) P] by (simp add: mult_ac)
  have C: "fe_is 101 (fe_mul (T2d c) (p3_T p)) (2 * ed_d * (x1 * x2 * y1 * y2) * (z * w))"
    using fe_mul_rule [OF D T] by (simp add: mult_ac)
  have E: "fe_is 101 (fe_mul (p3_Z p) (ca_Z c)) (z * w)" using fe_mul_rule [OF Z W] by (simp add: mult_ac)
  have D: "fe_is 202 (fe_add (fe_mul (p3_Z p) (ca_Z c)) (fe_mul (p3_Z p) (ca_Z c))) (2 * (z * w))"
    using fe_is_add_sub(1) [OF E E] by (simp add: mult_ac)
  have "unit_q (z * w)" using z w by simp
  from p1p1_of_difference [OF s this A B C D] show ?thesis by (simp add: ge_sub_def Let_def)
qed

text \<open>The mixed additions take a point of the tables, with \<open>Z = 1\<close>.\<close>

lemma ge_madd_msub_point:
  assumes p: "p3_point p (x1, y1)" and c: "precomp_point c (x2, y2)"
  shows "ed_sum (x1, y1) (x2, y2) (x3, y3) \<Longrightarrow> p1p1_point (ge_madd p c) (x3, y3)"
    and "ed_sum (x1, y1) (- x2, y2) (x3, y3) \<Longrightarrow> p1p1_point (ge_msub p c) (x3, y3)"
proof -
  from p obtain z where z: "unit_q z" and X: "fe_is 101 (p3_X p) (x1 * z)" and Y: "fe_is 101 (p3_Y p) (y1 * z)"
    and Z: "fe_is 101 (p3_Z p) z" and T: "fe_is 101 (p3_T p) (x1 * y1 * z)" by (auto simp: p3_point_def)
  from c have P: "fe_is 101 (yplusx c) (y2 + x2)" and M: "fe_is 101 (yminusx c) (y2 - x2)"
    and D: "fe_is 101 (xy2d c) (2 * ed_d * (x2 * y2))" by (auto simp: precomp_point_def)
  note XY = p3_sums [OF X Y]
  have C: "fe_is 101 (fe_mul (xy2d c) (p3_T p)) (2 * ed_d * (x1 * x2 * y1 * y2) * z)"
    using fe_mul_rule [OF D T] by (simp add: mult_ac)
  have E: "fe_is 202 (fe_add (p3_Z p) (p3_Z p)) (2 * z)" using fe_is_add_sub(1) [OF Z Z] by simp
  have A: "fe_is 101 (fe_mul (fe_add (p3_Y p) (p3_X p)) (yplusx c)) ((y1 + x1) * (y2 + x2) * z)"
    using fe_mul_rule [OF XY(1) P] by (simp add: mult_ac)
  have B: "fe_is 101 (fe_mul (fe_sub (p3_Y p) (p3_X p)) (yminusx c)) ((y1 - x1) * (y2 - x2) * z)"
    using fe_mul_rule [OF XY(2) M] by (simp add: mult_ac)
  have A': "fe_is 101 (fe_mul (fe_add (p3_Y p) (p3_X p)) (yminusx c)) ((y1 + x1) * (y2 - x2) * z)"
    using fe_mul_rule [OF XY(1) M] by (simp add: mult_ac)
  have B': "fe_is 101 (fe_mul (fe_sub (p3_Y p) (p3_X p)) (yplusx c)) ((y1 - x1) * (y2 + x2) * z)"
    using fe_mul_rule [OF XY(2) P] by (simp add: mult_ac)
  show "ed_sum (x1, y1) (x2, y2) (x3, y3) \<Longrightarrow> p1p1_point (ge_madd p c) (x3, y3)"
    using p1p1_of_sum [OF _ z A B C E] by (simp add: ge_madd_def Let_def)
  show "ed_sum (x1, y1) (- x2, y2) (x3, y3) \<Longrightarrow> p1p1_point (ge_msub p c) (x3, y3)"
    using p1p1_of_difference [OF _ z A' B' C E] by (simp add: ge_msub_def Let_def)
qed

section \<open>Doubling\<close>

lemma ge_p2_dbl_point:
  assumes p: "p2_point p (x, y)" and c: "on_curve x y" and s: "ed_sum (x, y) (x, y) (x3, y3)"
  shows "p1p1_point (ge_p2_dbl p) (x3, y3)"
proof -
  from p obtain z where z: "unit_q z" and X: "fe_is 101 (p2_X p) (x * z)" and Y: "fe_is 101 (p2_Y p) (y * z)"
    and Z: "fe_is 101 (p2_Z p) z" by (auto simp: p2_point_def)
  let ?e = "ed_d * (x * x * y * y)"
  have e: "unit_q (1 + ?e)" "unit_q (1 - ?e)" "(x3 * (1 + ?e)) mod fe_q = (2 * x * y) mod fe_q"
    "(y3 * (1 - ?e)) mod fe_q = (y * y + x * x) mod fe_q"
    using s by (simp_all add: ed_sum_def Let_def mult_ac)
  have c': "(y * y - x * x) mod fe_q = (1 + ?e) mod fe_q"
    using c by (simp add: on_curve_def mult_ac)
  let ?A = "fe_sq (p2_X p)" and ?B = "fe_sq (p2_Y p)" and ?C = "fe_sq2 (p2_Z p)"
    and ?S = "fe_sq (fe_add (p2_X p) (p2_Y p))"
  have A: "fe_is 101 ?A (x * z * (x * z))" and B: "fe_is 101 ?B (y * z * (y * z))"
    and C: "fe_is 101 ?C (2 * (z * z))"
    using fe_sq_rule [OF X] fe_sq_rule [OF Y] fe_sq2_rule [OF Z] by simp_all
  have S: "fe_is 101 ?S ((x * z + y * z) * (x * z + y * z))"
    using fe_sq_rule [OF fe_is_add_sub(1) [OF X Y]] by simp
  have BA: "fe_is 202 (fe_add ?B ?A) (y * z * (y * z) + x * z * (x * z))"
    "fe_is 202 (fe_sub ?B ?A) (y * z * (y * z) - x * z * (x * z))"
    using fe_is_add_sub [OF B A] by simp_all
  have XX: "fe_is 303 (fe_sub ?S (fe_add ?B ?A)) ((x * z + y * z) * (x * z + y * z) - (y * z * (y * z) + x * z * (x * z)))"
    using fe_is_add_sub(2) [OF S BA(1)] by simp
  have TT: "fe_is 303 (fe_sub ?C (fe_sub ?B ?A)) (2 * (z * z) - (y * z * (y * z) - x * z * (x * z)))"
    using fe_is_add_sub(2) [OF C BA(2)] by simp
  have X3: "fe_is 303 (fe_sub ?S (fe_add ?B ?A)) (x3 * (z * z * (1 + ?e)))"
    using XX by (rule fe_is_eq) (use scale_mod [OF e(3), of "z * z"] in \<open>simp_all add: algebra_simps\<close>)
  have Y3: "fe_is 303 (fe_add ?B ?A) (y3 * (z * z * (1 - ?e)))"
    using BA(1) by (rule fe_is_eq) (use scale_mod [OF e(4), of "z * z"] in \<open>simp_all add: algebra_simps\<close>)
  have Z3: "fe_is 303 (fe_sub ?B ?A) (z * z * (1 + ?e))"
    using BA(2) by (rule fe_is_eq) (use scale_mod [OF c', of "z * z"] in \<open>simp_all add: algebra_simps\<close>)
  have T3: "fe_is 303 (fe_sub ?C (fe_sub ?B ?A)) (z * z * (1 - ?e))"
  proof (rule fe_is_eq [OF TT])
    have "(2 * (z * z) - z * z * (y * y - x * x)) mod fe_q = (2 * (z * z) - z * z * (1 + ?e)) mod fe_q"
      by (rule mod_diff_cong [OF refl scale_mod [OF c']])
    then show "(2 * (z * z) - (y * z * (y * z) - x * z * (x * z))) mod fe_q = (z * z * (1 - ?e)) mod fe_q"
      by (simp add: algebra_simps)
  qed simp
  have "unit_q (z * z * (1 + ?e))" "unit_q (z * z * (1 - ?e))" using z e(1,2) by simp_all
  with X3 Y3 Z3 T3 show ?thesis
    unfolding p1p1_point_def
    by (intro exI [of _ "z * z * (1 + ?e)"] exI [of _ "z * z * (1 - ?e)"]) (simp add: ge_p2_dbl_def Let_def)
qed

section \<open>Changes of representation\<close>

lemma p1p1_to_point:
  assumes "p1p1_point r (x, y)"
  shows "p2_point (ge_p1p1_to_p2 r) (x, y)" "p3_point (ge_p1p1_to_p3 r) (x, y)"
proof -
  from assms obtain z t where zt: "unit_q z" "unit_q t" and X: "fe_is 303 (p1_X r) (x * z)"
    and Y: "fe_is 303 (p1_Y r) (y * t)" and Z: "fe_is 303 (p1_Z r) z" and T: "fe_is 303 (p1_T r) t"
    by (auto simp: p1p1_point_def)
  have u: "unit_q (z * t)" using zt by simp
  have m: "fe_is 101 (fe_mul (p1_X r) (p1_T r)) (x * (z * t))" "fe_is 101 (fe_mul (p1_Y r) (p1_Z r)) (y * (z * t))"
    "fe_is 101 (fe_mul (p1_Z r) (p1_T r)) (z * t)" "fe_is 101 (fe_mul (p1_X r) (p1_Y r)) (x * y * (z * t))"
    using fe_mul_rule [OF X T] fe_mul_rule [OF Y Z] fe_mul_rule [OF Z T] fe_mul_rule [OF X Y]
    by (simp_all add: mult_ac)
  show "p2_point (ge_p1p1_to_p2 r) (x, y)" "p3_point (ge_p1p1_to_p3 r) (x, y)"
    unfolding p2_point_def p3_point_def using u m
    by (intro exI [of _ "z * t"]; simp add: ge_p1p1_to_p2_def ge_p1p1_to_p3_def)+
qed

lemma p3_to_point:
  assumes "p3_point p (x, y)"
  shows "p2_point (ge_p3_to_p2 p) (x, y)" "cached_point (ge_p3_to_cached p) (x, y)"
proof -
  from assms obtain z where z: "unit_q z" and X: "fe_is 101 (p3_X p) (x * z)" and Y: "fe_is 101 (p3_Y p) (y * z)"
    and Z: "fe_is 101 (p3_Z p) z" and T: "fe_is 101 (p3_T p) (x * y * z)" by (auto simp: p3_point_def)
  show "p2_point (ge_p3_to_p2 p) (x, y)"
    unfolding p2_point_def using z X Y Z by (auto simp: ge_p3_to_p2_def fe_copy_id)
  have "fe_is 101 (fe_mul (p3_T p) fe_d2) (2 * ed_d * (x * y) * z)"
    using fe_mul_rule [OF T fe_is_d2] by (simp add: mult_ac)
  then show "cached_point (ge_p3_to_cached p) (x, y)"
    unfolding cached_point_def using z p3_sums [OF X Y] Z by (auto simp: ge_p3_to_cached_def fe_copy_id)
qed

lemma zero_points: "p2_point ge_p2_0 (0, 1)" "p3_point ge_p3_0 (0, 1)" "cached_point ge_cached_0 (0, 1)"
  "precomp_point ge_precomp_0 (0, 1)"
  by (auto simp: p2_point_def p3_point_def cached_point_def precomp_point_def ge_p2_0_def ge_p3_0_def
    ge_cached_0_def ge_precomp_0_def intro!: exI [of _ 1] fe_is_0 fe_is_1)

section \<open>Concrete points\<close>

lemma fe_q_pos: "0 < fe_q"
  by (simp add: fe_q_def)

lemma unit_qI: "(x * i) mod fe_q = 1 \<Longrightarrow> unit_q x"
proof -
  assume "(x * i) mod fe_q = 1"
  then have "coprime (x * i) fe_q"
    by (metis coprime_1_left coprime_mod_left_iff fe_q_pos less_irrefl)
  then show "unit_q x" by simp
qed

definition base_x :: int where
  "base_x = 15112221349535400772501151409588531511454012693041857206046113283949847762202"

definition base_y :: int where
  "base_y = 46316835694926478169428394003475163141307993866256225615783033603165251855960"

definition base2_x :: int where
  "base2_x = 24727413235106541002554574571675588834622768167397638456726423682521233608206"

definition base2_y :: int where
  "base2_y = 15549675580280190176352668710449542251549572066445060580507079593062643049417"

lemma mod_certificate:
  assumes "x + 19 * k = r + 57896044618658097711785492504343953926634992332820282019728792003956564819968 * k" "0 \<le> r" "r < fe_q"
  shows "x mod fe_q = r"
proof -
  have "x = r + k * fe_q" using assms(1) by (simp add: fe_q_def)
  with assms(2,3) show ?thesis by simp
qed

lemma base_precomp: "precomp_point (ge_base0 ! 0) (base_x, base_y)"
proof -
  let ?u = "46827403850823179245072216630277197565144205554125654976674165829533817101731"
  have "(base_x * base_y) mod fe_q = ?u"
    by (rule mod_certificate [of _ "12089777079628320618000921127670825209163210154433485764836890627159878209761"]; code_simp)
  then have u: "(base_x * base_y) mod fe_q = ?u mod fe_q" by (metis mod_mod_trivial)
  have "fe_is 101 (xy2d (ge_base0 ! 0)) (2 * ed_d * ?u)" unfolding fe_is_def by code_simp
  then have "fe_is 101 (xy2d (ge_base0 ! 0)) (2 * ed_d * (base_x * base_y))"
    by (rule fe_is_cong) (simp only: scale_mod [OF u])
  moreover have "fe_is 101 (yplusx (ge_base0 ! 0)) (base_y + base_x)" unfolding fe_is_def by code_simp
  moreover have "fe_is 101 (yminusx (ge_base0 ! 0)) (base_y - base_x)" unfolding fe_is_def by code_simp
  ultimately show ?thesis by (simp add: precomp_point_def)
qed

lemma ed_sum_certificate:
  assumes a: "(x1 * x2) mod fe_q = a" and b: "(y1 * y2) mod fe_q = b" and c: "(a * b) mod fe_q = c"
    and e: "(ed_d * c) mod fe_q = e" and i: "((1 + e) * i) mod fe_q = 1" and j: "((1 - e) * j) mod fe_q = 1"
    and u: "(x1 * y2) mod fe_q = u" and v: "(y1 * x2) mod fe_q = v"
    and x3: "(x3 * (1 + e)) mod fe_q = (u + v) mod fe_q" and y3: "(y3 * (1 - e)) mod fe_q = (a + b) mod fe_q"
  shows "ed_sum (x1, y1) (x2, y2) (x3, y3)"
proof -
  let ?e = "ed_d * (x1 * x2 * y1 * y2)"
  have "?e mod fe_q = (ed_d * ((x1 * x2) * (y1 * y2))) mod fe_q" by (simp add: mult_ac)
  also have "\<dots> = e" unfolding e [symmetric] c [symmetric] a [symmetric] b [symmetric]
    by (simp add: mod_mult_left_eq mod_mult_right_eq)
  finally have E: "?e mod fe_q = e mod fe_q" using e by auto
  have p: "(1 + ?e) mod fe_q = (1 + e) mod fe_q" and m: "(1 - ?e) mod fe_q = (1 - e) mod fe_q"
    by (rule mod_add_cong [OF refl E], rule mod_diff_cong [OF refl E])
  have "((1 + ?e) * i) mod fe_q = 1" "((1 - ?e) * j) mod fe_q = 1"
    using mod_mult_cong [OF p refl, of i] mod_mult_cong [OF m refl, of j] i j by simp_all
  moreover have "(x3 * (1 + ?e)) mod fe_q = (x1 * y2 + y1 * x2) mod fe_q"
    using mod_mult_cong [OF refl p, of x3] x3 unfolding u [symmetric] v [symmetric] by (simp add: mod_simps)
  moreover have "(y3 * (1 - ?e)) mod fe_q = (y1 * y2 + x1 * x2) mod fe_q"
    using mod_mult_cong [OF refl m, of y3] y3 unfolding a [symmetric] b [symmetric]
    by (simp add: mod_simps add.commute)
  ultimately show ?thesis by (simp add: ed_sum_def Let_def unit_qI)
qed

lemma on_curve_certificate:
  assumes a: "(x * x) mod fe_q = a" and b: "(y * y) mod fe_q = b" and c: "(a * b) mod fe_q = c"
    and e: "(b - a) mod fe_q = (1 + ed_d * c) mod fe_q"
  shows "on_curve x y"
proof -
  have "(y * y - x * x) mod fe_q = (1 + ed_d * c) mod fe_q"
    using e unfolding a [symmetric] b [symmetric] by (simp add: mod_simps)
  also have "\<dots> = (1 + ed_d * (x * x) * (y * y)) mod fe_q"
  proof -
    have "c mod fe_q = ((x * x) * (y * y)) mod fe_q"
      unfolding c [symmetric] a [symmetric] b [symmetric] by (simp add: mod_mult_eq)
    from mod_add_cong [OF refl mod_mult_cong [OF refl this]] show ?thesis by (simp add: mult.assoc)
  qed
  finally show ?thesis by (simp add: on_curve_def)
qed

lemma base_on_curve: "on_curve base_x base_y"
proof (rule on_curve_certificate)
  show "(base_x * base_x) mod fe_q = 26187595835145689230469591415084376402084551887632582719101735842039498021991"
    by (rule mod_certificate [of _ "3944643120641682540557488748386534817562863454810087094083181913524639656337"]; code_simp)
  show "(base_y * base_y) mod fe_q = 37053468555941182535542715202780130513046395093004980492626426882532201484768"
    by (rule mod_certificate [of _ "37053468555941182535542715202780130513046395093004980492626426882532201484768"]; code_simp)
  show "(26187595835145689230469591415084376402084551887632582719101735842039498021991 * 37053468555941182535542715202780130513046395093004980492626426882532201484768) mod fe_q = 30655112042971184558329056706696549839726511367961720624960021019854854290862"
    by (rule mod_certificate [of _ "16760061334493241107500538505654000897334113208084852940225110938905278734074"]; code_simp)
  show "(37053468555941182535542715202780130513046395093004980492626426882532201484768 - 26187595835145689230469591415084376402084551887632582719101735842039498021991) mod fe_q = (1 + ed_d * 30655112042971184558329056706696549839726511367961720624960021019854854290862) mod fe_q"
    by code_simp
qed

lemma base_double: "ed_sum (base_x, base_y) (base_x, base_y) (base2_x, base2_y)"
proof (rule ed_sum_certificate)
  show "(base_x * base_x) mod fe_q = 26187595835145689230469591415084376402084551887632582719101735842039498021991"
    by (rule mod_certificate [of _ "3944643120641682540557488748386534817562863454810087094083181913524639656337"]; code_simp)
  show "(base_y * base_y) mod fe_q = 37053468555941182535542715202780130513046395093004980492626426882532201484768"
    by (rule mod_certificate [of _ "37053468555941182535542715202780130513046395093004980492626426882532201484768"]; code_simp)
  show "(26187595835145689230469591415084376402084551887632582719101735842039498021991 * 37053468555941182535542715202780130513046395093004980492626426882532201484768) mod fe_q = 30655112042971184558329056706696549839726511367961720624960021019854854290862"
    by (rule mod_certificate [of _ "16760061334493241107500538505654000897334113208084852940225110938905278734074"]; code_simp)
  show "(ed_d * 30655112042971184558329056706696549839726511367961720624960021019854854290862) mod fe_q = 10865872720795493305073123787695754110961843205372397773524691040492703462776"
    by (rule mod_certificate [of _ "-11013476258858789211687089225473122236650218946994022736324260506623670835796"]; code_simp)
  show "((1 + 10865872720795493305073123787695754110961843205372397773524691040492703462776) * 209325846291170943509691191589112255490563248687624486049616149279891676193) mod fe_q = 1"
    by (rule mod_certificate [of _ "39286068987166379365534598460247025388597226932259233411430977511593730040"]; code_simp)
  show "((1 - 10865872720795493305073123787695754110961843205372397773524691040492703462776) * 23433485286344922975343343183309822149119477277686524097973672123823657291327) mod fe_q = 1"
    by (rule mod_certificate [of _ "-4397973474754440286967242851607998898452437350460971718965314058899781133874"]; code_simp)
  show "(base_x * base_y) mod fe_q = 46827403850823179245072216630277197565144205554125654976674165829533817101731" "(base_y * base_x) mod fe_q = 46827403850823179245072216630277197565144205554125654976674165829533817101731"
    by (rule mod_certificate [of _ "12089777079628320618000921127670825209163210154433485764836890627159878209761"]; code_simp)+
  show "(base2_x * (1 + 10865872720795493305073123787695754110961843205372397773524691040492703462776)) mod fe_q = (46827403850823179245072216630277197565144205554125654976674165829533817101731 + 46827403850823179245072216630277197565144205554125654976674165829533817101731) mod fe_q"
    (is "?l mod fe_q = ?r mod fe_q")
  proof -
    have "?l mod fe_q = 35758763082988260778358940756210441203653418775431027933619539655111069383513" by (rule mod_certificate [of _ "4640816599768074523567265725477282336817799778256961706557227807567430185401"]; code_simp)
    moreover have "?r mod fe_q = 35758763082988260778358940756210441203653418775431027933619539655111069383513" by (rule mod_certificate [of _ "1"]; code_simp)
    ultimately show ?thesis by simp
  qed
  show "(base2_y * (1 - 10865872720795493305073123787695754110961843205372397773524691040492703462776)) mod fe_q = (26187595835145689230469591415084376402084551887632582719101735842039498021991 + 37053468555941182535542715202780130513046395093004980492626426882532201484768) mod fe_q"
    (is "?l mod fe_q = ?r mod fe_q")
  proof -
    have "?l mod fe_q = 5345019772428774054226814113520552988495954647817281191999370720615134686810" by (rule mod_certificate [of _ "-2918347821822279244224534467951863095252877302676643115518800860268071522765"]; code_simp)
    moreover have "?r mod fe_q = 5345019772428774054226814113520552988495954647817281191999370720615134686810" by (rule mod_certificate [of _ "1"]; code_simp)
    ultimately show ?thesis by simp
  qed
qed

section \<open>The properties of the group operations\<close>

text \<open>The base point in extended coordinates, as a sum with the neutral element.\<close>

definition base_p3 :: ge_p3 where
  "base_p3 = ge_p1p1_to_p3 (ge_madd ge_p3_0 (ge_base0 ! 0))"

lemma ed_sum_zero: "ed_sum (0, 1) (x, y) (x, y)"
  by (simp add: ed_sum_def Let_def)

lemma base_p3_point: "p3_point base_p3 (base_x, base_y)"
  unfolding base_p3_def
  by (rule p1p1_to_point(2)
    [OF ge_madd_msub_point(1) [OF zero_points(2) base_precomp ed_sum_zero]])

lemma ed_sum_negated: "ed_sum (x1, y1) (x2, y2) (x3, y3) \<Longrightarrow> ed_sum (x1, y1) (- (- x2), y2) (x3, y3)"
  by simp

text \<open>C5: the addition formulas. From a point in extended coordinates and a second one in cached or
  table form, \<open>ge_add\<close> and \<open>ge_madd\<close> give the sum, \<open>ge_sub\<close> and \<open>ge_msub\<close> the difference by the
  addition law of the curve wherever its denominators are invertible, without overflow and with the
  limbs inside the bounds of a completed point; the operands may be equal, opposite or neutral.\<close>

theorem ge_add_sub_correct:
  assumes "p3_point p P" "cached_point c Q" "precomp_point t Q"
  shows "(\<forall>R. ed_sum P Q R \<longrightarrow> p1p1_point (ge_add p c) R \<and> p1p1_point (ge_madd p t) R) \<and>
    (\<forall>R. ed_sum P (ed_neg Q) R \<longrightarrow> p1p1_point (ge_sub p c) R \<and> p1p1_point (ge_msub p t) R)"
proof -
  obtain x1 y1 x2 y2 where PQ: "P = (x1, y1)" "Q = (x2, y2)" by (cases P, cases Q)
  have "p1p1_point (ge_add p c) (x3, y3) \<and> p1p1_point (ge_madd p t) (x3, y3)" if "ed_sum P Q (x3, y3)" for x3 y3
    using ge_add_point [of p x1 y1 c x2 y2] ge_madd_msub_point(1) [of p x1 y1 t x2 y2] assms that PQ by simp
  moreover have "p1p1_point (ge_sub p c) (x3, y3) \<and> p1p1_point (ge_msub p t) (x3, y3)"
    if "ed_sum P (ed_neg Q) (x3, y3)" for x3 y3
    using ge_sub_point [of p x1 y1 c x2 y2] ge_madd_msub_point(2) [of p x1 y1 t x2 y2] assms that PQ by simp
  ultimately show ?thesis by (metis surj_pair)
qed

theorem ge_add_sub_correct_witness:
  "p1p1_point (ge_add base_p3 (ge_p3_to_cached base_p3)) (base2_x, base2_y) \<and>
   p1p1_point (ge_madd base_p3 (ge_base0 ! 0)) (base2_x, base2_y)"
  using ge_add_sub_correct [OF base_p3_point p3_to_point(2) [OF base_p3_point] base_precomp] base_double
  by blast

text \<open>C6: doubling. On a point of the curve \<open>ge_p2_dbl\<close> and \<open>ge_p3_dbl\<close>, which use neither the curve
  constant nor \<open>T\<close>, give the sum of the point with itself by the addition law.\<close>

theorem ge_dbl_correct:
  assumes "on_curve x y" "ed_sum (x, y) (x, y) R"
  shows "(\<forall>p. p2_point p (x, y) \<longrightarrow> p1p1_point (ge_p2_dbl p) R) \<and>
    (\<forall>p. p3_point p (x, y) \<longrightarrow> p1p1_point (ge_p3_dbl p) R)"
  using ge_p2_dbl_point [OF _ assms(1), of _ "fst R" "snd R"] p3_to_point(1) assms(2)
  by (simp add: ge_p3_dbl_def)

theorem ge_dbl_correct_witness: "p1p1_point (ge_p3_dbl base_p3) (base2_x, base2_y)"
  using ge_dbl_correct [OF base_on_curve base_double] base_p3_point by blast

text \<open>C7: the changes of representation keep the point and re-establish the limb bounds that the next
  addition or doubling needs: from a completed point to projective and extended coordinates, and from
  extended to projective and cached ones; the constants stand for the neutral element.\<close>

theorem ge_representations_correct:
  "(\<forall>r P. p1p1_point r P \<longrightarrow> p2_point (ge_p1p1_to_p2 r) P \<and> p3_point (ge_p1p1_to_p3 r) P) \<and>
   (\<forall>p P. p3_point p P \<longrightarrow> p2_point (ge_p3_to_p2 p) P \<and> cached_point (ge_p3_to_cached p) P) \<and>
   p2_point ge_p2_0 (0, 1) \<and> p3_point ge_p3_0 (0, 1) \<and> cached_point ge_cached_0 (0, 1) \<and>
   precomp_point ge_precomp_0 (0, 1)"
  using p1p1_to_point p3_to_point zero_points by (metis surj_pair)

theorem ge_representations_correct_witness:
  "p2_point (ge_p3_to_p2 base_p3) (base_x, base_y) \<and> cached_point (ge_p3_to_cached base_p3) (base_x, base_y)"
  using ge_representations_correct base_p3_point by blast

end
