(* ===== verification/Scalar_Mult.thy ===== *)
theory Scalar_Mult
  imports Group
begin

text \<open>
  Scalar multiplication: the two recodings of a scalar in signed digits and the loops of
  crypto-ops.c that consume them. \<open>None\<close> is the abort of an assertion in \<open>fe_cmov\<close>.
\<close>

section \<open>Sliding windows\<close>

text \<open>\<open>r[i] = 1 & (a[i >> 3] >> (i & 7))\<close>\<close>

definition slide_bits :: "u8 list \<Rightarrow> int list" where
  "slide_bits a = map (\<lambda>i. uint (1 AND drop_bit (i AND 7) (a ! (drop_bit 3 i)))) [0..<256]"

text \<open>\<open>for (k = i + b; k < 256; ++k)\<close>: a carry runs through the ones.\<close>

function slide_carry :: "nat \<Rightarrow> int list \<Rightarrow> int list" where
  "slide_carry k r =
     (if k < 256 then if r ! k = 0 then r[k := 1] else slide_carry (Suc k) (r[k := 0]) else r)"
  by auto

termination by (relation "measure (\<lambda>(k, r). 256 - k)") auto

text \<open>\<open>for (b = 1; b <= 6 && i + b < 256; ++b)\<close>\<close>

function slide_absorb :: "nat \<Rightarrow> nat \<Rightarrow> int list \<Rightarrow> int list" where
  "slide_absorb i b r =
     (if b \<le> 6 \<and> i + b < 256 then
        if r ! (i + b) \<noteq> 0 then
          if r ! i + push_bit b (r ! (i + b)) \<le> 15 then
            slide_absorb i (Suc b) (r[i := sc8 (r ! i + push_bit b (r ! (i + b))), i + b := 0])
          else if r ! i - push_bit b (r ! (i + b)) \<ge> - 15 then
            slide_absorb i (Suc b) (slide_carry (i + b) (r[i := sc8 (r ! i - push_bit b (r ! (i + b)))]))
          else r
        else slide_absorb i (Suc b) r
      else r)"
  by auto

termination by (relation "measure (\<lambda>(i, b, r). 7 - b)") auto

declare slide_carry.simps [simp del] slide_absorb.simps [simp del]

definition slide_step :: "nat \<Rightarrow> int list \<Rightarrow> int list" where
  "slide_step i r = (if r ! i \<noteq> 0 then slide_absorb i 1 r else r)"

definition slide :: "u8 list \<Rightarrow> int list" where
  "slide a = fold slide_step [0..<256] (slide_bits a)"

section \<open>Signed radix 16\<close>

text \<open>The recoding of \<open>ge_scalarmult_base\<close>.\<close>

definition nibbles :: "u8 list \<Rightarrow> int list" where
  "nibbles a = concat (map (\<lambda>i. [sc8 (uint (drop_bit 0 (a ! i) AND 15)), sc8 (uint (drop_bit 4 (a ! i) AND 15))])
     [0..<32])"

definition radix16_step :: "nat \<Rightarrow> int list \<times> int \<Rightarrow> int list \<times> int" where
  "radix16_step i ec =
     (let (e, carry) = ec;
          e = e[i := sc8 (e ! i + carry)];
          carry = sc8 (e ! i + 8);
          carry = sc8 (drop_bit 4 carry);
          e = e[i := sc8 (e ! i - push_bit 4 carry)]
      in (e, carry))"

definition radix16_base :: "u8 list \<Rightarrow> int list" where
  "radix16_base a =
     (let (e, carry) = fold radix16_step [0..<63] (nibbles a, 0)
      in e[63 := sc8 (e ! 63 + carry)])"

text \<open>The recoding of \<open>ge_scalarmult\<close>, with \<open>carry\<close> and \<open>carry2\<close> of type \<open>int\<close>.\<close>

definition radix16_bytes_step :: "u8 list \<Rightarrow> nat \<Rightarrow> int list \<times> int \<Rightarrow> int list \<times> int" where
  "radix16_bytes_step a i ec =
     (let (e, carry) = ec;
          carry = carry + uint (a ! i);
          carry2 = drop_bit 4 (carry + 8);
          e = e[2 * i := sc8 (carry - push_bit 4 carry2)];
          carry = drop_bit 4 (carry2 + 8);
          e = e[2 * i + 1 := sc8 (carry2 - push_bit 4 carry)]
      in (e, carry))"

definition radix16_var :: "u8 list \<Rightarrow> int list" where
  "radix16_var a =
     (let (e, carry) = fold (radix16_bytes_step a) [0..<31] (replicate 64 0, 0);
          carry = carry + uint (a ! 31);
          carry2 = drop_bit 4 (carry + 8);
          e = e[62 := sc8 (carry - push_bit 4 carry2)]
      in e[63 := sc8 carry2])"

section \<open>Multiplication of the base point\<close>

text \<open>A loop whose body may abort.\<close>

fun fold_option :: "('a \<Rightarrow> 'b \<Rightarrow> 'b option) \<Rightarrow> 'a list \<Rightarrow> 'b \<Rightarrow> 'b option" where
  "fold_option f [] s = Some s"
| "fold_option f (x # xs) s = do { s \<leftarrow> f x s; fold_option f xs s }"

text \<open>\<open>select(&t, i / 2, e[i]); ge_madd(&r, h, &t); ge_p1p1_to_p3(h, &r);\<close>\<close>

definition scalarmult_base_add :: "int list \<Rightarrow> nat \<Rightarrow> ge_p3 \<Rightarrow> ge_p3 option" where
  "scalarmult_base_add e i h =
     do {
       t \<leftarrow> select (i div 2) (e ! i);
       Some (ge_p1p1_to_p3 (ge_madd h t))
     }"

definition ge_scalarmult_base :: "u8 list \<Rightarrow> ge_p3 option" where
  "ge_scalarmult_base a =
     do {
       let e = radix16_base a;
       h \<leftarrow> fold_option (scalarmult_base_add e) (map (\<lambda>j. 2 * j + 1) [0..<32]) ge_p3_0;
       let s = ge_p1p1_to_p2 (ge_p3_dbl h);
       let s = ge_p1p1_to_p2 (ge_p2_dbl s);
       let s = ge_p1p1_to_p2 (ge_p2_dbl s);
       let h = ge_p1p1_to_p3 (ge_p2_dbl s);
       fold_option (scalarmult_base_add e) (map (\<lambda>j. 2 * j) [0..<32]) h
     }"

section \<open>Multiplication of a point\<close>

text \<open>\<open>Ai[i + 1] = A + Ai[i]\<close>: \<open>1 * A, \<dots>, 8 * A\<close>.\<close>

definition scalarmult_table :: "ge_p3 \<Rightarrow> ge_cached list" where
  "scalarmult_table A =
     fold (\<lambda>i Ai. Ai @ [ge_p3_to_cached (ge_p1p1_to_p3 (ge_add A (Ai ! i)))]) [0..<7] [ge_p3_to_cached A]"

definition scalarmult_step :: "ge_cached list \<Rightarrow> int list \<Rightarrow> nat \<Rightarrow> ge_p2 \<Rightarrow> ge_p2 option" where
  "scalarmult_step Ai e i r =
     do {
       let r = ge_p1p1_to_p2 (ge_p2_dbl r);
       let r = ge_p1p1_to_p2 (ge_p2_dbl r);
       let r = ge_p1p1_to_p2 (ge_p2_dbl r);
       let u = ge_p1p1_to_p3 (ge_p2_dbl r);
       cur \<leftarrow> select_cached Ai (e ! i);
       Some (ge_p1p1_to_p2 (ge_add u cur))
     }"

definition ge_scalarmult :: "u8 list \<Rightarrow> ge_p3 \<Rightarrow> ge_p2 option" where
  "ge_scalarmult a A = fold_option (scalarmult_step (scalarmult_table A) (radix16_var a)) (rev [0..<64]) ge_p2_0"

section \<open>Two scalars at once\<close>

text \<open>\<open>A, 3A, 5A, \<dots>, 15A\<close>\<close>

definition ge_dsm_precomp :: "ge_p3 \<Rightarrow> ge_cached list" where
  "ge_dsm_precomp s =
     (let s2 = ge_p1p1_to_p3 (ge_p3_dbl s)
      in fold (\<lambda>i r. r @ [ge_p3_to_cached (ge_p1p1_to_p3 (ge_add s2 (r ! i)))]) [0..<7] [ge_p3_to_cached s])"

definition dsm_digit :: "ge_cached list \<Rightarrow> int \<Rightarrow> ge_p1p1 \<Rightarrow> ge_p1p1" where
  "dsm_digit Ai d t =
     (if d > 0 then ge_add (ge_p1p1_to_p3 t) (Ai ! nat (d div 2))
      else if d < 0 then ge_sub (ge_p1p1_to_p3 t) (Ai ! nat (- d div 2))
      else t)"

definition dsm_digit_base :: "int \<Rightarrow> ge_p1p1 \<Rightarrow> ge_p1p1" where
  "dsm_digit_base d t =
     (if d > 0 then ge_madd (ge_p1p1_to_p3 t) (ge_Bi ! nat (d div 2))
      else if d < 0 then ge_msub (ge_p1p1_to_p3 t) (ge_Bi ! nat (- d div 2))
      else t)"

text \<open>The indices from the highest with a digit downwards.\<close>

definition dsm_indices :: "int list \<Rightarrow> int list \<Rightarrow> nat list" where
  "dsm_indices aslide bslide = dropWhile (\<lambda>i. \<not> (aslide ! i \<noteq> 0 \<or> bslide ! i \<noteq> 0)) (rev [0..<256])"

definition ge_double_scalarmult_base_vartime :: "u8 list \<Rightarrow> ge_p3 \<Rightarrow> u8 list \<Rightarrow> ge_p2" where
  "ge_double_scalarmult_base_vartime a A b =
     (let aslide = slide a;
          bslide = slide b;
          Ai = ge_dsm_precomp A
      in fold (\<lambda>i r. let t = ge_p2_dbl r;
                         t = dsm_digit Ai (aslide ! i) t;
                         t = dsm_digit_base (bslide ! i) t
                     in ge_p1p1_to_p2 t) (dsm_indices aslide bslide) ge_p2_0)"

definition ge_double_scalarmult_precomp_vartime ::
  "u8 list \<Rightarrow> ge_p3 \<Rightarrow> u8 list \<Rightarrow> ge_cached list \<Rightarrow> ge_p2" where
  "ge_double_scalarmult_precomp_vartime a A b Bi =
     (let aslide = slide a;
          bslide = slide b;
          Ai = ge_dsm_precomp A
      in fold (\<lambda>i r. let t = ge_p2_dbl r;
                         t = dsm_digit Ai (aslide ! i) t;
                         t = dsm_digit Bi (bslide ! i) t
                     in ge_p1p1_to_p2 t) (dsm_indices aslide bslide) ge_p2_0)"

end
