(* ===== verification/Recoding.thy ===== *)
theory Recoding
  imports Group_Proofs Scalar_Mult
begin

text \<open>
  The digits of a scalar and the table entries they select: the recodings of \<open>slide\<close>,
  \<open>ge_scalarmult_base\<close> and \<open>ge_scalarmult\<close> keep the value of the scalar and produce digits that
  the tables have entries for; the selection without branches, stated once for any conditional move,
  returns the entry of the digit; so the multiplications of \<open>Scalar_Mult\<close> never abort.
\<close>

section \<open>Selection without branches\<close>

lemma equal_value: "equal b c = (if b = c then 1 else 0)"
proof (cases "b = c")
  case False
  have nz: "b XOR c \<noteq> 0"
  proof
    assume "b XOR c = 0"
    then have "(b XOR c) XOR c = c" by simp
    with False show False by (simp add: xor.assoc)
  qed
  have "uint (ucast (b XOR c) :: u32) = uint (b XOR c)"
    by (rule uint_up_ucast) (simp add: is_up)
  moreover have "uint (b XOR c) < 256" using uint_bounded [of "b XOR c"] by simp
  moreover have "(ucast (b XOR c) :: u32) \<noteq> 0" using nz calculation(1) by (metis uint_0_iff unsigned_0)
  ultimately have "uint ((ucast (b XOR c) :: u32) - 1) < 2 ^ 31" by (simp add: uint_pred)
  then have "uint (drop_bit 31 ((ucast (b XOR c) :: u32) - 1)) = 0"
    unfolding uint_drop_bit by (simp add: drop_bit_eq_div)
  then have "drop_bit 31 ((ucast (b XOR c) :: u32) - 1) = 0" by (simp only: uint_0_iff)
  with False show ?thesis by (simp add: equal_def Let_def)
qed (simp add: equal_def)

lemma sign_and_magnitude_all:
  "\<forall>b\<in>set [- 128..127]. negative b = (if b < 0 then 1 else 0) \<and> babs b = word_of_int \<bar>b\<bar>"
  by code_simp

lemma sign_and_magnitude:
  assumes "- 128 \<le> b" "b < 128"
  shows negative_value: "negative b = (if b < 0 then 1 else 0)" and babs_value: "babs b = word_of_int \<bar>b\<bar>"
proof -
  have "- 128 \<le> b \<and> b \<le> 127" using assms by linarith
  then have "b \<in> set [- 128..127]" by (simp only: set_upto atLeastAtMost_iff)
  from bspec [OF sign_and_magnitude_all this]
  show "negative b = (if b < 0 then 1 else 0)" "babs b = word_of_int \<bar>b\<bar>" by blast+
qed

text \<open>The eight conditional moves of \<open>select\<close> and of the loop of \<open>ge_scalarmult\<close>, for any conditional
  move that keeps its first operand on 0, takes the second on 1, and stops otherwise.\<close>

locale branchless_select =
  fixes cmov :: "'e \<Rightarrow> 'e \<Rightarrow> u8 \<Rightarrow> 'e option"
    and ok :: "'e \<Rightarrow> bool"
  assumes cmov: "ok t \<Longrightarrow> ok u \<Longrightarrow> cmov t u b = (if b = 0 then Some t else if b = 1 then Some u else None)"
begin

lemma cmov_equal: "ok t \<Longrightarrow> ok u \<Longrightarrow> cmov t u (equal b c) = Some (if b = c then u else t)"
  by (simp add: cmov equal_value)

lemma select_8:
  assumes z: "ok z" and T: "\<And>i. i < 8 \<Longrightarrow> ok (T ! i)" and B: "B = word_of_int d" "0 \<le> d" "d \<le> 8"
  shows "do {
       t \<leftarrow> cmov z (T ! 0) (equal B 1);
       t \<leftarrow> cmov t (T ! 1) (equal B 2);
       t \<leftarrow> cmov t (T ! 2) (equal B 3);
       t \<leftarrow> cmov t (T ! 3) (equal B 4);
       t \<leftarrow> cmov t (T ! 4) (equal B 5);
       t \<leftarrow> cmov t (T ! 5) (equal B 6);
       t \<leftarrow> cmov t (T ! 6) (equal B 7);
       t \<leftarrow> cmov t (T ! 7) (equal B 8);
       k t
     } = k (if d = 0 then z else T ! (nat d - 1))"
proof -
  have "ok (T ! 0)" "ok (T ! 1)" "ok (T ! 2)" "ok (T ! 3)" "ok (T ! 4)" "ok (T ! 5)" "ok (T ! 6)" "ok (T ! 7)"
    using T by simp_all
  moreover have "d = 0 \<or> d = 1 \<or> d = 2 \<or> d = 3 \<or> d = 4 \<or> d = 5 \<or> d = 6 \<or> d = 7 \<or> d = 8" using B by arith
  ultimately show ?thesis using z unfolding B(1) by (elim disjE) (simp_all add: cmov_equal)
qed

lemma cmov_sign:
  "ok t \<Longrightarrow> ok u \<Longrightarrow> - 128 \<le> b \<Longrightarrow> b < 128 \<Longrightarrow> cmov t u (negative b) = Some (if b < 0 then u else t)"
  by (simp add: cmov negative_value)

end

text \<open>Table entries with bounded limbs.\<close>

definition precomp_ok :: "ge_precomp \<Rightarrow> bool" where
  "precomp_ok c \<longleftrightarrow> fe_bounded 101 (yplusx c) \<and> fe_bounded 101 (yminusx c) \<and> fe_bounded 101 (xy2d c)"

definition cached_ok :: "ge_cached \<Rightarrow> bool" where
  "cached_ok c \<longleftrightarrow> fe_bounded 202 (YplusX c) \<and> fe_bounded 202 (YminusX c) \<and> fe_bounded 101 (ca_Z c) \<and>
     fe_bounded 101 (T2d c)"

lemma ucast_bool_byte: "(ucast (b :: u8) :: u32) = 0 \<longleftrightarrow> b = 0" "(ucast (b :: u8) :: u32) = 1 \<longleftrightarrow> b = 1"
proof -
  have u: "uint (ucast b :: u32) = uint b" by (rule uint_up_ucast) (simp add: is_up)
  show "(ucast b :: u32) = 0 \<longleftrightarrow> b = 0" "(ucast b :: u32) = 1 \<longleftrightarrow> b = 1"
    by (simp_all only: word_uint_eq_iff u) simp_all
qed

interpretation base_select: branchless_select ge_precomp_cmov precomp_ok
proof
  fix t u b assume "precomp_ok t" "precomp_ok u"
  then show "ge_precomp_cmov t u b = (if b = 0 then Some t else if b = 1 then Some u else None)"
    by (auto simp: ge_precomp_cmov_def precomp_ok_def fe_cmov_value [of 101 _ 101] ucast_bool_byte)
qed

interpretation point_select: branchless_select ge_cached_cmov cached_ok
proof
  fix t u b assume "cached_ok t" "cached_ok u"
  then show "ge_cached_cmov t u b = (if b = 0 then Some t else if b = 1 then Some u else None)"
    by (auto simp: ge_cached_cmov_def cached_ok_def fe_cmov_value [of 101 _ 101] fe_cmov_value [of 202 _ 202]
      ucast_bool_byte)
qed

text \<open>The entry for a signed digit: the multiple for its magnitude, with the coordinates exchanged and the
  product negated for a negative digit.\<close>

definition precomp_minus :: "ge_precomp \<Rightarrow> ge_precomp" where
  "precomp_minus c = \<lparr>yplusx = yminusx c, yminusx = yplusx c, xy2d = fe_neg (xy2d c)\<rparr>"

definition cached_minus :: "ge_cached \<Rightarrow> ge_cached" where
  "cached_minus c = \<lparr>YplusX = YminusX c, YminusX = YplusX c, ca_Z = ca_Z c, T2d = fe_neg (T2d c)\<rparr>"

definition digit_entry :: "'e \<Rightarrow> ('e \<Rightarrow> 'e) \<Rightarrow> 'e list \<Rightarrow> int \<Rightarrow> 'e" where
  "digit_entry z neg T d =
     (let t = (if d = 0 then z else T ! (nat \<bar>d\<bar> - 1)) in if d < 0 then neg t else t)"

lemma fe_bounded_neg: "fe_bounded k f \<Longrightarrow> k \<le> 6300 \<Longrightarrow> fe_bounded k (fe_neg f)"
  using fe_is_neg [of k f "fe_val f"] by (simp add: fe_is_def)

lemma fe_bounded_copy: "fe_bounded k f \<Longrightarrow> fe_copy f = f"
  using fe_copy_id [of k f "fe_val f"] by (simp add: fe_is_def)

lemma precomp_ok_minus: "precomp_ok c \<Longrightarrow> precomp_ok (precomp_minus c)"
  by (simp add: precomp_ok_def precomp_minus_def fe_bounded_neg)

lemma cached_ok_minus: "cached_ok c \<Longrightarrow> cached_ok (cached_minus c)"
  by (simp add: cached_ok_def cached_minus_def fe_bounded_neg)

lemma precomp_minus_copy: "precomp_ok t \<Longrightarrow>
    \<lparr>yplusx = fe_copy (yminusx t), yminusx = fe_copy (yplusx t), xy2d = fe_neg (xy2d t)\<rparr> = precomp_minus t"
  by (simp add: precomp_minus_def precomp_ok_def fe_bounded_copy [of 101])

lemma cached_minus_copy: "cached_ok t \<Longrightarrow>
    \<lparr>YplusX = fe_copy (YminusX t), YminusX = fe_copy (YplusX t), ca_Z = fe_copy (ca_Z t), T2d = fe_neg (T2d t)\<rparr>
      = cached_minus t"
  by (simp add: cached_minus_def cached_ok_def fe_bounded_copy [of 101] fe_bounded_copy [of 202])

lemma zero_entries_ok: "precomp_ok ge_precomp_0" "cached_ok ge_cached_0"
  using fe_is_0 [of 101] fe_is_1 [of 101] fe_is_1 [of 202]
  by (simp_all add: precomp_ok_def cached_ok_def ge_precomp_0_def ge_cached_0_def fe_is_def)

text \<open>The bound on the limbs of a constant, limb by limb.\<close>

fun limbs_ok :: "nat \<Rightarrow> fe \<Rightarrow> bool" where
  "limbs_ok 0 f \<longleftrightarrow> f = []"
| "limbs_ok (Suc n) (CI a # CI b # f) \<longleftrightarrow> - 33889976 \<le> a \<and> a \<le> 33889976 \<and> - 16944988 \<le> b \<and> b \<le> 16944988 \<and> limbs_ok n f"
| "limbs_ok (Suc n) _ \<longleftrightarrow> False"

lemma limbs_ok_nth: "limbs_ok n f \<Longrightarrow> length f = 2 * n \<and> (\<forall>i < 2 * n. f ! i \<noteq> UB \<and>
    \<bar>ci_val (f ! i)\<bar> \<le> (if even i then 33889976 else 16944988))"
  by (induction n f rule: limbs_ok.induct) (auto simp: nth_Cons less_Suc_eq_0_disj split: nat.splits)

lemma limbs_ok_bounded: "limbs_ok 5 f \<Longrightarrow> fe_bounded 101 f"
  using limbs_ok_nth [of 5 f] unfolding fe_bounded_def
  by (intro conjI allI impI; (drule conjunct2, drule spec, drule mp, assumption)?) (auto split: if_splits)

definition precomp_limbs_ok :: "ge_precomp \<Rightarrow> bool" where
  "precomp_limbs_ok c \<longleftrightarrow> limbs_ok 5 (yplusx c) \<and> limbs_ok 5 (yminusx c) \<and> limbs_ok 5 (xy2d c)"

lemma precomp_limbs_okD: "precomp_limbs_ok c \<Longrightarrow> precomp_ok c"
  by (simp add: precomp_limbs_ok_def precomp_ok_def limbs_ok_bounded)

lemma ge_base_limbs: "length ge_base = 32 \<and> list_all (\<lambda>row. length row = 8 \<and> list_all precomp_limbs_ok row) ge_base"
  by code_simp

lemma ge_base_ok: "pos < 32 \<Longrightarrow> i < 8 \<Longrightarrow> precomp_ok (ge_base ! pos ! i)"
  using ge_base_limbs by (simp add: list_all_length precomp_limbs_okD)

lemma select_value:
  assumes "pos < 32" "- 8 \<le> b" "b \<le> 8"
  shows "select pos b = Some (digit_entry ge_precomp_0 precomp_minus (ge_base ! pos) b)"
proof -
  let ?t = "if b = 0 then ge_precomp_0 else ge_base ! pos ! (nat \<bar>b\<bar> - 1)"
  have T: "\<And>i. i < 8 \<Longrightarrow> precomp_ok (ge_base ! pos ! i)" using ge_base_ok assms(1) by blast
  have t: "precomp_ok ?t" using zero_entries_ok(1) T [of "nat \<bar>b\<bar> - 1"] assms by simp
  have "select pos b = ge_precomp_cmov ?t \<lparr>yplusx = fe_copy (yminusx ?t), yminusx = fe_copy (yplusx ?t),
      xy2d = fe_neg (xy2d ?t)\<rparr> (negative b)"
    unfolding select_def Let_def
    by (subst base_select.select_8 [OF zero_entries_ok(1) T babs_value]) (use assms in simp_all)
  also have "\<dots> = Some (if b < 0 then precomp_minus ?t else ?t)"
    unfolding precomp_minus_copy [OF t] using assms by (intro base_select.cmov_sign t precomp_ok_minus) simp_all
  finally show ?thesis by (simp add: digit_entry_def Let_def)
qed

lemma select_cached_value:
  assumes T: "\<And>i. i < 8 \<Longrightarrow> cached_ok (Ai ! i)" and b: "- 8 \<le> b" "b \<le> 8"
  shows "select_cached Ai b = Some (digit_entry ge_cached_0 cached_minus Ai b)"
proof -
  let ?t = "if b = 0 then ge_cached_0 else Ai ! (nat \<bar>b\<bar> - 1)"
  have t: "cached_ok ?t" using zero_entries_ok(2) T [of "nat \<bar>b\<bar> - 1"] b by simp
  have "select_cached Ai b = ge_cached_cmov ?t \<lparr>YplusX = fe_copy (YminusX ?t), YminusX = fe_copy (YplusX ?t),
      ca_Z = fe_copy (ca_Z ?t), T2d = fe_neg (T2d ?t)\<rparr> (negative b)"
    unfolding select_cached_def Let_def
    by (subst point_select.select_8 [OF zero_entries_ok(2) T babs_value]) (use b in simp_all)
  also have "\<dots> = Some (if b < 0 then cached_minus ?t else ?t)"
    unfolding cached_minus_copy [OF t] using b by (intro point_select.cmov_sign t cached_ok_minus) simp_all
  finally show ?thesis by (simp add: digit_entry_def Let_def)
qed

section \<open>Digits in base two\<close>

abbreviation bsum :: "nat \<Rightarrow> int list \<Rightarrow> int" where
  "bsum \<equiv> wsum (\<lambda>i. i)"

lemma wsum_cong: "(\<And>j. j < n \<Longrightarrow> r ! j = s ! j) \<Longrightarrow> wsum e n r = wsum e n s"
  by (simp add: wsum_def)

lemma bsum_zeros: "k \<le> n \<Longrightarrow> (\<And>j. k \<le> j \<Longrightarrow> j < n \<Longrightarrow> r ! j = 0) \<Longrightarrow> bsum n r = bsum k r"
  by (induction n rule: dec_induct) (simp_all add: wsum_Suc)

lemma bsum_ones: "k \<le> n \<Longrightarrow> (\<And>j. k \<le> j \<Longrightarrow> j < n \<Longrightarrow> r ! j = 1) \<Longrightarrow> bsum n r = bsum k r + (2 ^ n - 2 ^ k)"
  by (induction n rule: dec_induct) (simp_all add: wsum_Suc)

section \<open>Sliding windows\<close>

text \<open>The positions below \<open>i\<close> are finished: each holds 0 or an odd digit of at most four bits and a sign,
  and four zeros follow every digit.\<close>

definition windows :: "nat \<Rightarrow> int list \<Rightarrow> bool" where
  "windows i r \<longleftrightarrow> (\<forall>j<i. r ! j = 0 \<or> odd (r ! j) \<and> \<bar>r ! j\<bar> \<le> 15 \<and> (\<forall>k. j < k \<and> k \<le> j + 4 \<and> k < 256 \<longrightarrow> r ! k = 0))"

text \<open>The positions from \<open>i\<close> on still hold bits.\<close>

definition bits_from :: "nat \<Rightarrow> int list \<Rightarrow> bool" where
  "bits_from i r \<longleftrightarrow> (\<forall>k. i \<le> k \<and> k < 256 \<longrightarrow> r ! k = 0 \<or> r ! k = 1)"

text \<open>The finished digits stay below the weight of the next one.\<close>

lemma windows_low_bound:
  assumes "windows i r" "i < 256" "\<And>j. j < i \<Longrightarrow> i \<le> j + 4 \<Longrightarrow> r ! j = 0"
  shows "2 * \<bar>bsum i r\<bar> < 2 ^ i"
  using assms
proof (induction i rule: less_induct)
  case (less i)
  show ?case
  proof (cases "\<forall>j<i. r ! j = 0")
    case True
    then show ?thesis using bsum_zeros [of 0 i r] by simp
  next
    case False
    define j where "j = Max {j. j < i \<and> r ! j \<noteq> 0}"
    have fin: "finite {j. j < i \<and> r ! j \<noteq> 0}" "{j. j < i \<and> r ! j \<noteq> 0} \<noteq> {}" using False by auto
    have j: "j < i" "r ! j \<noteq> 0" using Max_in [OF fin] by (auto simp: j_def)
    have above: "r ! k = 0" if "j < k" "k < i" for k
      using Max_ge [OF fin(1), of k] that by (fastforce simp: j_def)
    have ji: "j + 5 \<le> i" using less.prems(3) [OF j(1)] j(2) by linarith
    have dj: "\<bar>r ! j\<bar> \<le> 15" using less.prems(1) j by (auto simp: windows_def)
    have "2 * \<bar>bsum j r\<bar> < 2 ^ j"
    proof (rule less.IH [OF j(1)])
      show "windows j r" using less.prems(1) j(1) by (simp add: windows_def)
      show "j < 256" using j less.prems(2) by simp
      fix m assume "m < j" "j \<le> m + 4"
      then show "r ! m = 0" using less.prems(1,2) j unfolding windows_def
        by (metis less_trans)
    qed
    moreover have "bsum i r = bsum (Suc j) r" using j above by (intro bsum_zeros) auto
    moreover have "\<bar>2 ^ j * r ! j\<bar> \<le> 2 ^ j * 15" using dj by (simp add: abs_mult)
    ultimately have "2 * \<bar>bsum i r\<bar> < 2 ^ j * 31" unfolding wsum_Suc by linarith
    also have "(2::int) ^ j * 31 \<le> 2 ^ (j + 5)" by (simp add: power_add)
    also have "(2::int) ^ (j + 5) \<le> 2 ^ i" using ji by (intro power_increasing) auto
    finally show ?thesis .
  qed
qed

lemma bits_fromD: "bits_from i r \<Longrightarrow> i \<le> k \<Longrightarrow> k < 256 \<Longrightarrow> r ! k \<noteq> 0 \<Longrightarrow> r ! k = 1"
  unfolding bits_from_def by blast

lemma slide_carry_spec:
  assumes "length r = 256" "k \<le> 256" "bits_from k r" "\<exists>j. k \<le> j \<and> j < 256 \<and> r ! j = 0"
  shows "length (slide_carry k r) = 256 \<and> (\<forall>j<k. slide_carry k r ! j = r ! j) \<and> bits_from k (slide_carry k r) \<and>
    (r ! k \<noteq> 0 \<longrightarrow> slide_carry k r ! k = 0) \<and> bsum 256 (slide_carry k r) = bsum 256 r + 2 ^ k"
  using assms
proof (induction k r rule: slide_carry.induct)
  case (1 k r)
  have k: "k < 256" using 1(5) by auto
  show ?case
  proof (cases "r ! k = 0")
    case True
    then have "slide_carry k r = r[k := 1]" using k by (simp add: slide_carry.simps [of k])
    then show ?thesis using 1 k True by (auto simp: bits_from_def nth_list_update wsum_update)
  next
    case False
    then have one: "r ! k = 1" using 1(4) k by (auto simp: bits_from_def)
    have sc: "slide_carry k r = slide_carry (Suc k) (r[k := 0])" using k False by (simp add: slide_carry.simps [of k])
    obtain j where j: "k \<le> j" "j < 256" "r ! j = 0" using 1(5) by auto
    then have "j \<noteq> k" using False by auto
    with j have ex: "\<exists>j. Suc k \<le> j \<and> j < 256 \<and> r[k := 0] ! j = 0" by (intro exI [of _ j]) auto
    have bf: "bits_from (Suc k) (r[k := 0])" using 1(4) by (auto simp: bits_from_def nth_list_update)
    note IH = 1(1) [OF k False _ _ bf ex]
    have IH': "length (slide_carry k r) = 256" "\<forall>j<Suc k. slide_carry k r ! j = r[k := 0] ! j"
      "bits_from (Suc k) (slide_carry k r)" "bsum 256 (slide_carry k r) = bsum 256 (r[k := 0]) + 2 ^ Suc k"
      using IH 1(2) k unfolding sc by simp_all
    have "slide_carry k r ! k = 0" using IH'(2) 1(2) k by simp
    moreover have "bits_from k (slide_carry k r)" using IH'(3) calculation by (auto simp: bits_from_def le_less_Suc_eq le_Suc_eq Suc_le_eq dest: le_imp_less_or_eq)
    moreover have "bsum 256 (r[k := 0]) = bsum 256 r - 2 ^ k" using 1(2) k one by (simp add: wsum_update)
    ultimately show ?thesis using IH' by simp
  qed
qed

text \<open>The window at \<open>i\<close> has absorbed the positions up to \<open>i + b\<close>.\<close>

definition window_at :: "int list \<Rightarrow> nat \<Rightarrow> nat \<Rightarrow> int list \<Rightarrow> bool" where
  "window_at s i b r \<longleftrightarrow> length r = 256 \<and> (\<forall>j<i. r ! j = s ! j) \<and> odd (r ! i) \<and> \<bar>r ! i\<bar> \<le> 15 \<and>
     (\<forall>k. i < k \<and> k < i + b \<and> k < 256 \<longrightarrow> r ! k = 0) \<and> bits_from (Suc i) r \<and> bsum 256 r = bsum 256 s"

lemma sc8_small: "\<bar>x\<bar> \<le> 15 \<Longrightarrow> sc8 x = x"
  unfolding sc8_def by (rule signed_take_bit_int_eq_self) auto

text \<open>A full window is left as it is.\<close>

lemma window_full:
  assumes "window_at s i b r" "5 \<le> b" "i < 256"
  shows "slide_absorb i b r = r"
  using assms
proof (induction i b r rule: slide_absorb.induct)
  case (1 i b r)
  show ?case
  proof (cases "b \<le> 6 \<and> i + b < 256")
    case True
    show ?thesis
    proof (cases "r ! (i + b) = 0")
      case zero: True
      have "window_at s i (Suc b) r"
        using 1(4) zero unfolding window_at_def by (metis add_Suc_right less_Suc_eq)
      with 1(3) [OF True] zero 1(5,6) show ?thesis by (simp add: slide_absorb.simps [of i b] True)
    next
      case False
      then have one: "r ! (i + b) = 1"
        using 1(4,5) True bits_fromD [of "Suc i" r "i + b"] by (auto simp: window_at_def)
      have "b = 5 \<or> b = 6" using True 1(5) by linarith
      then have "(32::int) \<le> 2 ^ b" by auto
      moreover have "\<bar>r ! i\<bar> \<le> 15" using 1(4) by (simp add: window_at_def)
      ultimately have "\<not> r ! i + 2 ^ b \<le> 15" "\<not> - 15 \<le> r ! i - 2 ^ b" by linarith+
      then show ?thesis using one by (simp add: slide_absorb.simps [of i b] push_bit_eq_mult)
    qed
  qed (auto simp: slide_absorb.simps [of i b])
qed

text \<open>A carry out of the last position would need a number of at least \<open>2 ^ 255\<close>.\<close>

lemma carry_stays:
  assumes w: "window_at s i b r" and b: "1 \<le> b" "b \<le> 4" "i + b < 256" and lo: "2 * \<bar>bsum i s\<bar> < 2 ^ i"
    and N: "bsum 256 s < 2 ^ 255" and big: "15 < r ! i + 2 ^ b"
  shows "\<exists>j. i + b \<le> j \<and> j < 256 \<and> r ! j = 0"
proof (rule ccontr)
  assume none: "\<not> ?thesis"
  have ones: "r ! j = 1" if "i + b \<le> j" "j < 256" for j
    using w b(1) that none bits_fromD [of "Suc i" r j] by (auto simp: window_at_def)
  have zero: "r ! j = 0" if "Suc i \<le> j" "j < i + b" for j
    using w b that unfolding window_at_def by (meson Suc_le_lessD less_trans)
  have "bsum 256 r = bsum (i + b) r + (2 ^ 256 - 2 ^ (i + b))"
    using b(3) ones by (intro bsum_ones) simp_all
  also have "bsum (i + b) r = bsum (Suc i) r" using b(1) zero by (intro bsum_zeros) simp_all
  also have "bsum (Suc i) r = bsum i s + 2 ^ i * r ! i"
    using w wsum_cong [of i r s] by (simp add: wsum_Suc window_at_def)
  finally have V: "bsum 256 s = bsum i s + 2 ^ i * (r ! i - 2 ^ b) + 2 ^ 256"
    using w by (simp add: window_at_def power_add algebra_simps)
  have X: "(0::int) < 2 ^ i" by simp
  have Y: "(2::int) ^ i * 2 ^ b \<le> 2 ^ 255"
    using b(3) unfolding power_add [symmetric] by (intro power_increasing) simp_all
  show False
  proof (cases "b = 4")
    case True
    have "r ! i \<noteq> 0" using w by (auto simp: window_at_def)
    then have "- 15 \<le> r ! i - 2 ^ b" using big True by simp
    then have "2 ^ i * (- 15) \<le> 2 ^ i * (r ! i - 2 ^ b)" by (intro mult_left_mono) simp_all
    with V lo N Y True show False by simp
  next
    case False
    then have "b = 1 \<or> b = 2 \<or> b = 3" using b(1,2) by linarith
    then have "0 \<le> r ! i - 2 ^ b" using big by auto
    then have "0 \<le> 2 ^ i * (r ! i - 2 ^ b)" by simp
    moreover have "(2::int) ^ i \<le> 2 ^ 255" using b(3) by (intro power_increasing) simp_all
    ultimately show False using V lo N by simp
  qed
qed

lemma window_absorb:
  assumes "window_at s i b r" "i < 256" "1 \<le> b" "2 * \<bar>bsum i s\<bar> < 2 ^ i" "bsum 256 s < 2 ^ 255"
  shows "window_at s i 5 (slide_absorb i b r)"
  using assms
proof (induction i b r rule: slide_absorb.induct)
  case (1 i b r)
  note w = 1(4) and i = 1(5) and b = 1(6) and lo = 1(7) and N = 1(8)
  have weak: "window_at s i 5 r" if "5 \<le> b \<or> 256 \<le> i + b"
    using w that unfolding window_at_def by auto
  have W: "length r = 256" "\<bar>r ! i\<bar> \<le> 15" "odd (r ! i)" "bsum 256 r = bsum 256 s"
    using w by (simp_all add: window_at_def)
  show ?case
  proof (cases "5 \<le> b \<or> 256 \<le> i + b")
    case True
    then have "slide_absorb i b r = r"
      using window_full [OF w _ i] by (auto simp: slide_absorb.simps [of i b])
    with weak True show ?thesis by simp
  next
    case False
    then have ib: "b \<le> 6 \<and> i + b < 256" and b4: "b \<le> 4" by simp_all
    note unfold = slide_absorb.simps [of i b, simplified ib if_True simp_thms]
    show ?thesis
    proof (cases "r ! (i + b) = 0")
      case True
      have "window_at s i (Suc b) r"
        using w True unfolding window_at_def by (metis add_Suc_right less_Suc_eq)
      with 1(3) [OF ib] True show ?thesis using i lo N by (simp add: slide_absorb.simps [of i b] ib)
    next
      case nz: False
      then have one: "r ! (i + b) = 1"
        using w b ib bits_fromD [of "Suc i" r "i + b"] by (auto simp: window_at_def)
      have p: "push_bit b (r ! (i + b)) = 2 ^ b" using one by (simp add: push_bit_eq_mult)
      have bits: "bits_from (Suc i) r" using w by (simp add: window_at_def)
      have even: "even ((2::int) ^ b)" and pos: "(0::int) < 2 ^ b" using b by simp_all
      show ?thesis
      proof (cases "r ! i + 2 ^ b \<le> 15")
        case True
        let ?r = "r[i := r ! i + 2 ^ b, i + b := 0]"
        have s8: "sc8 (r ! i + 2 ^ b) = r ! i + 2 ^ b" 
          by (rule sc8_small) (use W(2) True pos in linarith)
        have "window_at s i (Suc b) ?r"
          unfolding window_at_def
        proof (intro conjI)
          have "?r ! i = r ! i + 2 ^ b" using W(1) b i by simp
          moreover have "\<bar>r ! i + 2 ^ b\<bar> \<le> 15" using W(2) True pos by linarith
          ultimately show "odd (?r ! i)" "\<bar>?r ! i\<bar> \<le> 15" using W(3) even by simp_all
          show "\<forall>k. i < k \<and> k < i + Suc b \<and> k < 256 \<longrightarrow> ?r ! k = 0"
            using w W(1) by (auto simp: window_at_def nth_list_update less_Suc_eq)
          have "?r ! k = 0 \<or> ?r ! k = 1" if "Suc i \<le> k" "k < 256" for k
            using bits W(1) that by (cases "k = i + b") (simp_all add: bits_from_def)
          then show "bits_from (Suc i) ?r" by (simp add: bits_from_def)
          show "bsum 256 ?r = bsum 256 s"
            using W i ib b one by (simp add: wsum_update power_add algebra_simps)
        qed (use w b in \<open>auto simp: window_at_def\<close>)
        with 1(1) [OF ib nz] show ?thesis
          using i lo N True by (simp add: slide_absorb.simps [of i b] ib one p s8)
      next
        case gt: False
        let ?r = "r[i := r ! i - 2 ^ b]"
        let ?c = "slide_carry (i + b) ?r"
        have ge: "- 15 \<le> r ! i - 2 ^ b"
        proof -
          have nz: "r ! i \<noteq> 0" using W(3) by auto
          show ?thesis
          proof (cases "b = 4")
            case True
            with gt nz show ?thesis by simp
          next
            case False
            then have "(2::int) ^ b \<le> 2 ^ 3" using b4 by (intro power_increasing) simp_all
            with gt show ?thesis by simp
          qed
        qed
        have s8: "sc8 (r ! i - 2 ^ b) = r ! i - 2 ^ b" 
          by (rule sc8_small) (use W(2) ge pos in linarith)
        obtain j where j: "i + b \<le> j" "j < 256" "r ! j = 0"
          using carry_stays [OF w b b4 _ lo N] ib gt by auto
        have C: "length ?c = 256 \<and> (\<forall>j<i + b. ?c ! j = ?r ! j) \<and> bits_from (i + b) ?c \<and>
            (?r ! (i + b) \<noteq> 0 \<longrightarrow> ?c ! (i + b) = 0) \<and> bsum 256 ?c = bsum 256 ?r + 2 ^ (i + b)"
        proof (rule slide_carry_spec)
          show "bits_from (i + b) ?r" using bits b by (auto simp: bits_from_def)
          show "\<exists>j\<ge>i + b. j < 256 \<and> ?r ! j = 0" using j b by (intro exI [of _ j]) auto
        qed (use W ib in auto)
        have zero: "?c ! (i + b) = 0" using C one b by simp
        have "window_at s i (Suc b) ?c"
          unfolding window_at_def
        proof (intro conjI)
          have "?c ! i = r ! i - 2 ^ b" using C b W(1) i by simp
          moreover have "\<bar>r ! i - 2 ^ b\<bar> \<le> 15" using W(2) ge pos by linarith
          ultimately show "odd (?c ! i)" "\<bar>?c ! i\<bar> \<le> 15" using W(3) even by simp_all
          show "\<forall>k. i < k \<and> k < i + Suc b \<and> k < 256 \<longrightarrow> ?c ! k = 0"
            using w C zero by (auto simp: window_at_def less_Suc_eq)
          have "?c ! k = 0 \<or> ?c ! k = 1" if "Suc i \<le> k" "k < 256" for k
          proof (cases "k < i + b")
            case True
            then show ?thesis using C w that by (simp add: window_at_def)
          next
            case False
            then show ?thesis using C that by (simp add: bits_from_def)
          qed
          then show "bits_from (Suc i) ?c" by (simp add: bits_from_def)
          show "bsum 256 ?c = bsum 256 s"
            using C W i by (simp add: wsum_update power_add algebra_simps)
        qed (use w b C in \<open>auto simp: window_at_def\<close>)
        with 1(2) [OF ib nz] show ?thesis
          using i lo N gt ge by (simp add: slide_absorb.simps [of i b] ib one p s8)
      qed
    qed
  qed
qed

text \<open>One position, then all of them.\<close>

lemma slide_step_windows:
  assumes r: "length r = 256" "windows i r" "bits_from i r" and i: "i < 256" and N: "bsum 256 r < 2 ^ 255"
  shows "length (slide_step i r) = 256 \<and> windows (Suc i) (slide_step i r) \<and> bits_from (Suc i) (slide_step i r) \<and>
    bsum 256 (slide_step i r) = bsum 256 r"
proof (cases "r ! i = 0")
  case True
  then show ?thesis using r i by (auto simp: slide_step_def windows_def bits_from_def less_Suc_eq)
next
  case False
  then have one: "r ! i = 1" using r(3) i bits_fromD [of i r i] by simp
  have apart: "r ! j = 0" if "j < i" "i \<le> j + 4" for j
    using r(2) i False that unfolding windows_def by blast
  have lo: "2 * \<bar>bsum i r\<bar> < 2 ^ i" using r(2) i apart by (rule windows_low_bound)
  have "window_at r i 1 r" using r one by (auto simp: window_at_def bits_from_def)
  from window_absorb [OF this i order_refl lo N]
  have w: "window_at r i 5 (slide_absorb i 1 r)" .
  let ?s = "slide_absorb i 1 r"
  have "?s ! j = 0 \<or> odd (?s ! j) \<and> \<bar>?s ! j\<bar> \<le> 15 \<and> (\<forall>k. j < k \<and> k \<le> j + 4 \<and> k < 256 \<longrightarrow> ?s ! k = 0)" if "j < Suc i" for j
  proof (cases "j = i")
    case True
    have "odd (?s ! i)" "\<bar>?s ! i\<bar> \<le> 15" "\<forall>k. i < k \<and> k < i + 5 \<and> k < 256 \<longrightarrow> ?s ! k = 0"
      using w unfolding window_at_def by blast+
    then show ?thesis unfolding True by simp
  next
    case False
    then have ji: "j < i" using that by simp
    then have same: "\<forall>k<i. ?s ! k = r ! k" using w by (simp add: window_at_def)
    show ?thesis
    proof (cases "r ! j = 0")
      case nz: False
      then have "j + 4 < i" using apart [OF ji] by linarith
      moreover have "odd (r ! j)" "\<bar>r ! j\<bar> \<le> 15" "\<And>k. j < k \<Longrightarrow> k \<le> j + 4 \<Longrightarrow> k < 256 \<Longrightarrow> r ! k = 0"
        using r(2) ji nz unfolding windows_def by blast+
      ultimately show ?thesis using same ji by simp
    qed (use same ji in simp)
  qed
  then have "windows (Suc i) ?s" by (simp add: windows_def)
  then show ?thesis using w False by (simp add: slide_step_def window_at_def)
qed

lemma slide_steps:
  assumes "length r = 256" "bits_from 0 r" "bsum 256 r < 2 ^ 255" "n \<le> 256"
  shows "length (fold slide_step [0..<n] r) = 256 \<and> windows n (fold slide_step [0..<n] r) \<and>
    bits_from n (fold slide_step [0..<n] r) \<and> bsum 256 (fold slide_step [0..<n] r) = bsum 256 r"
  using assms(4)
proof (induction n)
  case 0
  then show ?case using assms by (simp add: windows_def)
next
  case (Suc n)
  then show ?case using slide_step_windows [of "fold slide_step [0..<n] r" n] assms(3) by simp
qed

section \<open>The bits of a scalar\<close>

lemma bsum_bits: "(\<And>i. i < n \<Longrightarrow> r ! i = of_bool (bit N i)) \<Longrightarrow> bsum n r = take_bit n N"
  by (induction n) (simp_all add: wsum_Suc take_bit_Suc_from_most)

lemma bit_le_val: "i < 8 * length a \<Longrightarrow> bit (le_val a) i = bit (a ! (i div 8)) (i mod 8)"
proof (induction a arbitrary: i)
  case (Cons b a)
  have b: "0 \<le> uint b" "uint b < 2 ^ 8" using uint_bounded [of b] by simp_all
  have "bit (le_val (b # a)) i = (if i < 8 then bit (uint b) i else bit (le_val a) (i - 8))"
    using bit_low_high [OF b, of "le_val a" i] by simp
  then show ?case using Cons
    by (cases "i < 8") (simp_all add: bit_uint_iff le_div_geq le_mod_geq)
qed simp

lemma slide_bits_nth:
  assumes "length a = 32" "i < 256"
  shows "slide_bits a ! i = of_bool (bit (le_val a) i)"
proof -
  have i: "i AND 7 = i mod 8" "drop_bit 3 i = i div 8"
    using take_bit_eq_mask [of 3 i] by (simp_all add: take_bit_eq_mod drop_bit_eq_div mask_eq_exp_minus_1)
  have "1 AND drop_bit n w = of_bool (bit w n)" for n and w :: u8
    by (simp add: and.commute [of 1] and_one_eq mod_2_eq_odd bit_iff_odd_drop_bit)
  then show ?thesis using assms bit_le_val [of i a] by (simp add: slide_bits_def i)
qed

lemma slide_value:
  assumes "length a = 32" "le_val a < 2 ^ 255"
  shows "length (slide a) = 256 \<and> windows 256 (slide a) \<and> bsum 256 (slide a) = le_val a"
proof -
  have "le_val a < 2 ^ 256" using le_val_less [of a] assms(1) by simp
  then have v: "bsum 256 (slide_bits a) = le_val a"
    using bsum_bits [of 256 "slide_bits a" "le_val a"] slide_bits_nth [OF assms(1)]
    by (simp add: take_bit_int_eq_self)
  show ?thesis
    using slide_steps [of "slide_bits a" 256] slide_bits_nth [OF assms(1)] assms(2) v
    by (simp add: slide_def bits_from_def slide_bits_def del: upt_rec_numeral)
qed

section \<open>A carry that is lost\<close>

text \<open>The scalar with all bits set.\<close>

lemma slide_carry_lost:
  "length r = 256 \<Longrightarrow> k \<le> 256 \<Longrightarrow> (\<And>j. k \<le> j \<Longrightarrow> j < 256 \<Longrightarrow> r ! j = 1) \<Longrightarrow>
    slide_carry k r = take k r @ replicate (256 - k) 0"
proof (induction k r rule: slide_carry.induct)
  case (1 k r)
  show ?case
  proof (cases "k < 256")
    case True
    have "slide_carry k r = slide_carry (Suc k) (r[k := 0])"
      using True 1(4) [of k] by (simp add: slide_carry.simps [of k])
    also have "\<dots> = take (Suc k) (r[k := 0]) @ replicate (256 - Suc k) 0"
      using 1(1) [OF True] 1(2,4) True by simp
    also have "\<dots> = take k r @ replicate (256 - k) 0"
      using True 1(2) by (intro nth_equalityI) (auto simp: nth_append nth_list_update less_Suc_eq)
    finally show ?thesis .
  qed (use 1 in \<open>simp add: slide_carry.simps [of 256]\<close>)
qed

lemma absorb_ones: "slide_absorb 0 1 (replicate 256 1) = - 1 # replicate 255 0"
proof -
  let ?r = "(replicate 256 1)[0 := 15, 1 := 0, 2 := 0, 3 := 0 :: int]"
  have a: "slide_absorb 0 1 (replicate 256 1) = slide_absorb 0 4 ((replicate 256 1)[0 := 3, 1 := 0, 0 := 7, 2 := 0, 0 := 15, 3 := 0])"
    by (simp add: slide_absorb.simps [of 0 "Suc 0"] slide_absorb.simps [of 0 "Suc (Suc 0)"] slide_absorb.simps [of 0 "Suc (Suc (Suc 0))"] slide_absorb.simps [of 0 3]
      sc8_small push_bit_eq_mult)
      (simp only: numeral_2_eq_2 [symmetric], simp)
  also have "(replicate 256 1)[0 := 3, 1 := 0, 0 := 7, 2 := 0, 0 := 15, 3 := 0] = ?r"
    by (intro nth_equalityI) (auto simp: nth_list_update)
  finally have b: "slide_absorb 0 1 (replicate 256 1) = slide_absorb 0 4 ?r" .
  have "slide_carry 4 (?r[0 := - 1]) = take 4 (?r[0 := - 1]) @ replicate (256 - 4) 0"
    by (rule slide_carry_lost) (auto simp: nth_list_update)
  also have "\<dots> = - 1 # replicate 255 0"
    by (intro nth_equalityI) (auto simp: nth_append nth_list_update nth_Cons')
  finally have "slide_carry 4 (?r[0 := - 1]) = - 1 # replicate 255 0" .
  then have "slide_absorb 0 4 ?r = slide_absorb 0 5 (- 1 # replicate 255 0)"
    by (simp add: slide_absorb.simps [of 0 4] sc8_small push_bit_eq_mult)
  also have "\<dots> = - 1 # replicate 255 0"
    by (simp add: slide_absorb.simps [of 0 5] slide_absorb.simps [of 0 6] slide_absorb.simps [of 0 7] nth_Cons')
  finally show ?thesis unfolding b .
qed

lemma slide_steps_zero: "(\<And>i. i \<in> set is \<Longrightarrow> r ! i = 0) \<Longrightarrow> fold slide_step is r = r"
  by (induction "is") (simp_all add: slide_step_def)

lemma slide_ones: "slide (replicate 32 255) = - 1 # replicate 255 0"
proof -
  have v: "le_val (replicate 32 255) = mask 256" unfolding mask_eq_exp_minus_1 by code_simp
  have "slide_bits (replicate 32 255) ! i = 1" if "i < 256" for i
    using slide_bits_nth [of "replicate 32 255" i] that by (simp add: v bit_mask_iff)
  then have "slide_bits (replicate 32 255) = replicate 256 1"
    by (intro nth_equalityI) (simp_all add: slide_bits_def del: upt_rec_numeral)
  moreover have "[0..<256] = 0 # [1..<256]" using upt_conv_Cons [of 0 256] by simp
  moreover have "(- 1 # replicate 255 0) ! i = (0 :: int)" if "i \<in> set [1..<256]" for i
  proof -
    have "1 \<le> i \<and> i < 256" using that by (simp only: set_upt atLeastLessThan_iff)
    then show ?thesis by (cases i) simp_all
  qed
  then have "fold slide_step [1..<256] (- 1 # replicate 255 0) = - 1 # replicate 255 0"
    by (rule slide_steps_zero)
  ultimately show ?thesis
    using absorb_ones
    by (simp add: slide_def slide_step_def nth_Cons' del: upt_rec_numeral)
qed

section \<open>Signed radix 16\<close>

abbreviation hsum :: "nat \<Rightarrow> int list \<Rightarrow> int" where
  "hsum \<equiv> wsum (\<lambda>i. 4 * i)"

lemma sc8_byte: "- 128 \<le> x \<Longrightarrow> x < 128 \<Longrightarrow> sc8 x = x"
  unfolding sc8_def by (rule signed_take_bit_int_eq_self) auto

text \<open>Digits from -8 to 7 determine the number, and the number determines them.\<close>

definition digits16 :: "nat \<Rightarrow> int list \<Rightarrow> bool" where
  "digits16 n e \<longleftrightarrow> (\<forall>j<n. - 8 \<le> e ! j \<and> e ! j \<le> 7)"

lemma hsum_shift: "hsum (Suc n) e = e ! 0 + 16 * hsum n (tl e)" if "length e = Suc m" "n \<le> m"
proof -
  from that obtain x xs where e: "e = x # xs" by (cases e) auto
  have "hsum (Suc n) e = (\<Sum>i<Suc n. 2 ^ (4 * i) * e ! i)" by (simp add: wsum_def)
  also have "\<dots> = x + (\<Sum>i<n. 2 ^ (4 * Suc i) * xs ! i)" unfolding e by (subst sum.lessThan_Suc_shift) simp
  also have "(\<Sum>i<n. 2 ^ (4 * Suc i) * xs ! i) = 16 * (\<Sum>i<n. 2 ^ (4 * i) * xs ! i)"
    by (simp add: sum_distrib_left power_add mult.assoc)
  finally show ?thesis unfolding e by (simp add: wsum_def)
qed

lemma digit_unique:
  "- 8 \<le> x \<Longrightarrow> x \<le> 7 \<Longrightarrow> - 8 \<le> y \<Longrightarrow> y \<le> 7 \<Longrightarrow> x + 16 * h = y + 16 * k \<Longrightarrow> x = y \<and> h = (k::int)"
  by arith

lemma digits16_unique:
  assumes "length e = Suc n" "length f = Suc n" "digits16 n e" "digits16 n f" "hsum (Suc n) e = hsum (Suc n) f"
  shows "e = f"
  using assms
proof (induction n arbitrary: e f)
  case 0
  then show ?case by (cases e; cases f) (simp_all add: wsum_Suc)
next
  case (Suc n)
  obtain x xs y ys where ef: "e = x # xs" "f = y # ys" using Suc.prems(1,2) by (cases e; cases f) auto
  have "- 8 \<le> x" "x \<le> 7" "- 8 \<le> y" "y \<le> 7" using Suc.prems(3,4) by (auto simp: digits16_def ef)
  moreover have "x + 16 * hsum (Suc n) xs = y + 16 * hsum (Suc n) ys"
    using Suc.prems hsum_shift [of e "Suc n" "Suc n"] hsum_shift [of f "Suc n" "Suc n"] by (simp add: ef)
  ultimately have "x = y" "hsum (Suc n) xs = hsum (Suc n) ys" using digit_unique by blast+
  moreover have "digits16 n xs" "digits16 n ys" using Suc.prems(3,4) by (auto simp: digits16_def ef)
  ultimately show ?case using Suc.IH [of xs ys] Suc.prems(1,2) by (simp add: ef)
qed

text \<open>The recoding of \<open>ge_scalarmult_base\<close>.\<close>

lemma le_val_take_Suc: "i < length a \<Longrightarrow> le_val (take (Suc i) a) = le_val (take i a) + 2 ^ (8 * i) * uint (a ! i)"
  by (simp add: take_Suc_conv_app_nth le_val_append power_mult)

lemma nibbles_nth:
  "length a = 32 \<Longrightarrow> i < 32 \<Longrightarrow> nibbles a ! (2 * i) = uint (a ! i) mod 16 \<and> nibbles a ! (2 * i + 1) = uint (a ! i) div 16"
proof -
  assume a: "length a = 32" "i < 32"
  have two: "concat (map (\<lambda>i. [f i, g i]) [0..<n]) ! (2 * i) = f i \<and>
      concat (map (\<lambda>i. [f i, g i]) [0..<n]) ! (2 * i + 1) = g i"
    if "i < n" for f g :: "nat \<Rightarrow> int" and n
    using that
  proof (induction n)
    case (Suc n)
    have "length (concat (map (\<lambda>i. [f i, g i]) [0..<n])) = 2 * n" by (induction n) simp_all
    with Suc show ?case by (cases "i = n") (simp_all add: nth_append)
  qed simp
  have b: "uint (a ! i) < 256" "0 \<le> uint (a ! i)" using uint_bounded [of "a ! i"] by simp_all
  have m: "uint (w AND 15) = uint w mod 16" for w :: u8
    using take_bit_eq_mask [of 4 "uint w"] by (simp add: uint_and mask_eq_exp_minus_1 take_bit_eq_mod)
  have "uint (a ! i) div 16 mod 16 = uint (a ! i) div 16"
    by (rule mod_pos_pos_trivial) (use b in \<open>simp_all add: pos_imp_zdiv_nonneg_iff\<close>)
  then have "uint (drop_bit 4 (a ! i) AND 15) = uint (a ! i) div 16" "uint (drop_bit 0 (a ! i) AND 15) = uint (a ! i) mod 16"
    by (simp_all only: m uint_drop_bit) (simp_all add: drop_bit_eq_div)
  moreover have "0 \<le> uint (a ! i) div 16" "uint (a ! i) div 16 < 16" using b by (simp_all add: pos_imp_zdiv_nonneg_iff)
  ultimately show ?thesis
    using two [OF a(2)] b by (simp add: nibbles_def sc8_byte del: upt_rec_numeral)
qed

lemma length_nibbles: "length (nibbles a) = 64"
proof -
  have "length (concat (map (\<lambda>i. [f i, g i]) [0..<n])) = 2 * n" for f g :: "nat \<Rightarrow> int" and n
    by (induction n) simp_all
  then show ?thesis by (simp add: nibbles_def del: upt_rec_numeral)
qed

lemma hsum_nibbles: "length a = 32 \<Longrightarrow> n \<le> 32 \<Longrightarrow> hsum (2 * n) (nibbles a) = le_val (take n a)"
proof (induction n)
  case (Suc n)
  have "hsum (2 * Suc n) (nibbles a) = hsum (2 * n) (nibbles a) + 2 ^ (8 * n) * (uint (a ! n) mod 16)
      + 2 ^ (8 * n) * (16 * (uint (a ! n) div 16))"
    using nibbles_nth [of a n] Suc.prems by (simp add: wsum_Suc power_add)
  also have "\<dots> = hsum (2 * n) (nibbles a) + 2 ^ (8 * n) * (uint (a ! n) mod 16 + 16 * (uint (a ! n) div 16))"
    by (simp only: distrib_left add.assoc)
  finally show ?case using Suc le_val_take_Suc [of n a] by simp
qed simp

lemma radix16_steps:
  assumes a: "length a = 32" "a ! 31 \<le> 127" and n: "n \<le> 63"
  shows "case fold radix16_step [0..<n] (nibbles a, 0) of (e, c) \<Rightarrow>
    length e = 64 \<and> digits16 n e \<and> (\<forall>j. n \<le> j \<and> j < 64 \<longrightarrow> e ! j = nibbles a ! j) \<and> (c = 0 \<or> c = 1) \<and>
    hsum 64 e + 2 ^ (4 * n) * c = le_val a"
  using n
proof (induction n)
  case 0
  then show ?case using hsum_nibbles [of a 32] a by (simp add: length_nibbles digits16_def)
next
  case (Suc n)
  obtain e c where ec: "fold radix16_step [0..<n] (nibbles a, 0) = (e, c)" by force
  have I: "length e = 64" "digits16 n e" "\<And>j. n \<le> j \<Longrightarrow> j < 64 \<Longrightarrow> e ! j = nibbles a ! j" "c = 0 \<or> c = 1"
    "hsum 64 e + 2 ^ (4 * n) * c = le_val a"
    using Suc by (simp_all add: ec)
  have x: "0 \<le> e ! n" "e ! n \<le> 15"
  proof -
    have b: "uint (a ! (n div 2)) < 256" using uint_bounded [of "a ! (n div 2)"] by simp
    have "e ! n = nibbles a ! n" using I(3) [of n] Suc.prems by simp
    moreover have "n = 2 * (n div 2) \<or> n = 2 * (n div 2) + 1" by linarith
    moreover have "n div 2 < 32" using Suc.prems by linarith
    ultimately have "e ! n = uint (a ! (n div 2)) mod 16 \<or> e ! n = uint (a ! (n div 2)) div 16"
      using nibbles_nth [OF a(1), of "n div 2"] by metis
    then show "0 \<le> e ! n" "e ! n \<le> 15" using b by (auto simp: pos_imp_zdiv_nonneg_iff)
  qed
  let ?c = "(e ! n + c + 8) div 16"
  let ?d = "e ! n + c - 16 * ?c"
  have c: "?c = 0 \<or> ?c = 1" and d: "- 8 \<le> ?d" "?d \<le> 7" using x I(4) by auto
  have s8: "sc8 (e ! n + c) = e ! n + c" "sc8 (e ! n + c + 8) = e ! n + c + 8" "sc8 ?c = ?c" "sc8 ?d = ?d"
    using x I(4) c d by (auto intro!: sc8_byte)
  then have "radix16_step n (e, c) = (e[n := ?d], ?c)"
    using I(1) Suc.prems by (simp add: radix16_step_def Let_def drop_bit_eq_div push_bit_eq_mult mult.commute)
  moreover have "hsum 64 (e[n := ?d]) + 2 ^ (4 * Suc n) * ?c = le_val a"
    using I(1,5) Suc.prems by (simp add: wsum_update power_add algebra_simps)
  moreover have "digits16 (Suc n) (e[n := ?d])"
    using I(1,2) d Suc.prems unfolding digits16_def by (auto simp: nth_list_update less_Suc_eq)
  ultimately show ?case using I c by (simp add: ec)
qed

lemma radix16_base_value:
  assumes a: "length a = 32" "a ! 31 \<le> 127"
  shows "length (radix16_base a) = 64 \<and> digits16 63 (radix16_base a) \<and> 0 \<le> radix16_base a ! 63 \<and> radix16_base a ! 63 \<le> 8 \<and>
    hsum 64 (radix16_base a) = le_val a"
proof -
  obtain e c where ec: "fold radix16_step [0..<63] (nibbles a, 0) = (e, c)" by force
  have I: "length e = 64" "digits16 63 e" "e ! 63 = nibbles a ! 63" "c = 0 \<or> c = 1"
    "hsum 64 e + 2 ^ 252 * c = le_val a"
    using radix16_steps [OF a, of 63] unfolding ec by simp_all
  have "uint (a ! 31) \<le> 127" using a(2) by (simp add: word_le_def)
  then have top: "0 \<le> e ! 63" "e ! 63 \<le> 7" using nibbles_nth [OF a(1), of 31] I(3) by (auto simp: pos_imp_zdiv_nonneg_iff)
  have r: "radix16_base a = e[63 := e ! 63 + c]"
    using top I(4) unfolding radix16_base_def ec by (auto simp: sc8_byte)
  have "hsum 64 (e[63 := e ! 63 + c]) = le_val a" using I(1,5) by (simp add: wsum_update)
  then show ?thesis unfolding r using I top by (auto simp: digits16_def)
qed

text \<open>The recoding of \<open>ge_scalarmult\<close>.\<close>

lemma radix16_bytes_steps:
  assumes a: "length a = 32" and n: "n \<le> 31"
  shows "case fold (radix16_bytes_step a) [0..<n] (replicate 64 0, 0) of (e, c) \<Rightarrow>
    length e = 64 \<and> digits16 (2 * n) e \<and> (c = 0 \<or> c = 1) \<and> hsum (2 * n) e + 2 ^ (8 * n) * c = le_val (take n a)"
  using n
proof (induction n)
  case 0
  then show ?case by (simp add: digits16_def)
next
  case (Suc n)
  obtain e c where ec: "fold (radix16_bytes_step a) [0..<n] (replicate 64 0, 0) = (e, c)" by force
  have I: "length e = 64" "digits16 (2 * n) e" "c = 0 \<or> c = 1" "hsum (2 * n) e + 2 ^ (8 * n) * c = le_val (take n a)"
    using Suc by (simp_all add: ec)
  define x where "x = c + uint (a ! n)"
  have x: "0 \<le> x" "x \<le> 256" using uint_bounded [of "a ! n"] I(3) by (auto simp: x_def)
  define c2 where "c2 = (x + 8) div 16"
  define c3 where "c3 = (c2 + 8) div 16"
  have c2: "0 \<le> c2" "c2 \<le> 16" "- 8 \<le> x - 16 * c2" "x - 16 * c2 \<le> 7" using x by (auto simp: c2_def)
  then have c3: "c3 = 0 \<or> c3 = 1" "- 8 \<le> c2 - 16 * c3" "c2 - 16 * c3 \<le> 7" by (auto simp: c3_def)
  let ?e = "e[2 * n := x - 16 * c2, 2 * n + 1 := c2 - 16 * c3]"
  have st: "radix16_bytes_step a n (e, c) = (?e, c3)"
    using c2 c3
    by (simp add: radix16_bytes_step_def Let_def sc8_byte drop_bit_eq_div push_bit_eq_mult mult.commute
      x_def [symmetric] c2_def [symmetric] c3_def [symmetric])
  have same: "hsum (2 * n) ?e = hsum (2 * n) e" by (intro wsum_cong) simp
  have at: "?e ! (2 * n) = x - 16 * c2" "?e ! Suc (2 * n) = c2 - 16 * c3" using I(1) Suc.prems by simp_all
  have "hsum (2 * Suc n) ?e + 2 ^ (8 * Suc n) * c3 = hsum (2 * n) e + 2 ^ (8 * n) * x"
  proof -
    have "2 * Suc n = Suc (Suc (2 * n))" by simp
    then have "hsum (2 * Suc n) ?e = hsum (2 * n) e + 2 ^ (4 * (2 * n)) * (x - 16 * c2) + 2 ^ (4 * Suc (2 * n)) * (c2 - 16 * c3)"
      by (simp only: wsum_Suc at same)
    then show ?thesis by (simp add: power_add algebra_simps)
  qed
  also have "\<dots> = le_val (take (Suc n) a)"
    using I(4) le_val_take_Suc [of n a] Suc.prems a by (simp add: x_def algebra_simps)
  finally have v: "hsum (2 * Suc n) ?e + 2 ^ (8 * Suc n) * c3 = le_val (take (Suc n) a)" .
  have "digits16 (2 * Suc n) ?e"
    unfolding digits16_def
  proof (intro allI impI)
    fix j assume "j < 2 * Suc n"
    then have "j < 2 * n \<or> j = 2 * n \<or> j = Suc (2 * n)" by arith
    then show "- 8 \<le> ?e ! j \<and> ?e ! j \<le> 7"
      using I(1,2) at c2 c3 Suc.prems by (elim disjE) (simp_all add: digits16_def)
  qed
  then show ?case using st v c3 I(1) by (simp add: ec)
qed

lemma radix16_var_value:
  assumes a: "length a = 32" "a ! 31 \<le> 127"
  shows "length (radix16_var a) = 64 \<and> digits16 63 (radix16_var a) \<and> 0 \<le> radix16_var a ! 63 \<and> radix16_var a ! 63 \<le> 8 \<and>
    hsum 64 (radix16_var a) = le_val a"
proof -
  obtain e c where ec: "fold (radix16_bytes_step a) [0..<31] (replicate 64 0, 0) = (e, c)" by force
  have I: "length e = 64" "digits16 62 e" "c = 0 \<or> c = 1" "hsum 62 e + 2 ^ 248 * c = le_val (take 31 a)"
    using radix16_bytes_steps [OF a(1), of 31] unfolding ec by simp_all
  define x where "x = c + uint (a ! 31)"
  have "uint (a ! 31) \<le> 127" using a(2) by (simp add: word_le_def)
  then have x: "0 \<le> x" "x \<le> 128" using I(3) by (auto simp: x_def)
  define c2 where "c2 = (x + 8) div 16"
  have c2: "0 \<le> c2" "c2 \<le> 8" "- 8 \<le> x - 16 * c2" "x - 16 * c2 \<le> 7" using x by (auto simp: c2_def)
  let ?e = "e[62 := x - 16 * c2, 63 := c2]"
  have r: "radix16_var a = ?e"
    using c2 unfolding radix16_var_def ec
    by (simp add: Let_def sc8_byte drop_bit_eq_div push_bit_eq_mult mult.commute
      x_def [symmetric] c2_def [symmetric])
  have same: "hsum 62 ?e = hsum 62 e" by (intro wsum_cong) simp
  have at: "?e ! 62 = x - 16 * c2" "?e ! 63 = c2" using I(1) by simp_all
  have "hsum 64 ?e = hsum 62 ?e + 2 ^ 248 * ?e ! 62 + 2 ^ 252 * ?e ! 63"
    using wsum_Suc [of "\<lambda>i. 4 * i" 62 ?e] wsum_Suc [of "\<lambda>i. 4 * i" 63 ?e] by simp
  also have "\<dots> = le_val (take 31 a) + 2 ^ 248 * uint (a ! 31)"
    unfolding same at using I(4) by (simp add: x_def)
  also have "\<dots> = le_val a" using le_val_take_Suc [of 31 a] a by simp
  finally have v: "hsum 64 ?e = le_val a" .
  have "digits16 63 ?e"
    unfolding digits16_def
  proof (intro allI impI)
    fix j :: nat assume "j < 63"
    then show "- 8 \<le> ?e ! j \<and> ?e ! j \<le> 7"
      using I(1,2) at c2 by (cases "j = 62") (auto simp: digits16_def)
  qed
  then show ?thesis unfolding r using v at c2 I(1) by simp
qed

section \<open>The properties of the recodings\<close>

text \<open>\<open>select\<close> reads every entry of the row and returns the one for the digit: the neutral entry for
  0, the entry of the magnitude for a positive digit, and for a negative one its negation, with the two
  sums exchanged and the product negated. No conditional move aborts.\<close>

theorem select_correct:
  assumes "pos < 32" "- 8 \<le> b" "b \<le> 8"
  shows "select pos b = Some (digit_entry ge_precomp_0 precomp_minus (ge_base ! pos) b)"
  using assms by (rule select_value)

theorem select_correct_witness:
  "select 3 (- 5) = Some (precomp_minus (ge_base ! 3 ! 4)) \<and> select 31 0 = Some ge_precomp_0"
  using select_correct [of 3 "- 5"] select_correct [of 31 0] by (simp add: digit_entry_def)

text \<open>C8: \<open>slide\<close> rewrites a scalar below \<open>2^255\<close> in base two with digits that are 0 or odd and of
  magnitude at most 15, at least four zeros after each of them, and the same value; no carry is lost.\<close>

theorem slide_correct:
  assumes "length a = 32" "le_val a < 2 ^ 255"
  shows "length (slide a) = 256 \<and> (\<Sum>i<256. 2 ^ i * slide a ! i) = le_val a \<and>
    (\<forall>i<256. slide a ! i \<noteq> 0 \<longrightarrow> odd (slide a ! i) \<and> \<bar>slide a ! i\<bar> \<le> 15 \<and>
       (\<forall>k. i < k \<and> k \<le> i + 4 \<and> k < 256 \<longrightarrow> slide a ! k = 0))"
  using slide_value [OF assms] unfolding wsum_def windows_def by blast

theorem slide_correct_witness:
  "(\<Sum>i<256. 2 ^ i * slide (le_bytes 32 (2 ^ 255 - 1)) ! i) = 2 ^ 255 - 1"
  using slide_correct [of "le_bytes 32 (2 ^ 255 - 1)"] by (simp add: le_val_le_bytes)

text \<open>C40: the bound of the preceding property is needed: for the largest 32-byte scalar the carry runs out
  of the array and \<open>slide\<close> leaves the digits of \<open>- 1\<close>, so that the scalar multiplications built on it,
  whose comments state no bound, would compute a wrong multiple.\<close>

theorem slide_loses_carry:
  "(\<Sum>i<256. 2 ^ i * slide (replicate 32 255) ! i) = - 1 \<and> le_val (replicate 32 255) = 2 ^ 256 - 1"
proof
  have "bsum 256 (slide (replicate 32 255)) = bsum 1 (slide (replicate 32 255))"
    unfolding slide_ones by (rule bsum_zeros) (simp_all add: nth_Cons')
  then show "(\<Sum>i<256. 2 ^ i * slide (replicate 32 255) ! i) = - 1" unfolding slide_ones by (simp add: wsum_def)
  show "le_val (replicate 32 255) = 2 ^ 256 - 1" by code_simp
qed

text \<open>C9: for scalars with \<open>a[31] <= 127\<close> the two radix-16 recodings, which work by nibbles and by bytes, give
  the same 64 digits; these are between -8 and 8, and their value is the scalar.\<close>

theorem radix16_correct:
  assumes "length a = 32" "a ! 31 \<le> 127"
  shows "radix16_base a = radix16_var a \<and> length (radix16_base a) = 64 \<and>
    (\<forall>i<64. - 8 \<le> radix16_base a ! i \<and> radix16_base a ! i \<le> 8) \<and>
    (\<Sum>i<64. 16 ^ i * radix16_base a ! i) = le_val a"
proof -
  note B = radix16_base_value [OF assms] and V = radix16_var_value [OF assms]
  have "radix16_base a = radix16_var a"
    by (rule digits16_unique [of _ 63]) (use B V in simp_all)
  moreover have "- 8 \<le> radix16_base a ! i \<and> radix16_base a ! i \<le> 8" if "i < 64" for i
  proof (cases "i = 63")
    case False
    then have "- 8 \<le> radix16_base a ! i \<and> radix16_base a ! i \<le> 7"
      using B that by (simp add: digits16_def)
    then show ?thesis by simp
  qed (use B in simp)
  moreover have "(\<Sum>i<64. 16 ^ i * radix16_base a ! i) = le_val a"
    using B by (simp add: wsum_def power_mult)
  ultimately show ?thesis using B by simp
qed

theorem radix16_correct_witness:
  "radix16_base (replicate 31 255 @ [127]) = radix16_var (replicate 31 255 @ [127])"
  using radix16_correct [of "replicate 31 255 @ [127]"] by (simp add: nth_append)

end
