(* ===== verification/Scalar_Mult_Proofs.thy ===== *)
theory Scalar_Mult_Proofs
  imports Recoding
begin

text \<open>
  The loops of the four scalar multiplications: every operand stays inside the limb bounds the
  field operations need, every digit has a table entry, and no assertion fails, for any point
  with bounded limbs.
\<close>

section \<open>Limb bounds through the loops\<close>

definition p2_ok :: "ge_p2 \<Rightarrow> bool" where
  "p2_ok p \<longleftrightarrow> fe_bounded 101 (p2_X p) \<and> fe_bounded 101 (p2_Y p) \<and> fe_bounded 101 (p2_Z p)"

definition p3_ok :: "ge_p3 \<Rightarrow> bool" where
  "p3_ok p \<longleftrightarrow> fe_bounded 101 (p3_X p) \<and> fe_bounded 101 (p3_Y p) \<and> fe_bounded 101 (p3_Z p) \<and> fe_bounded 101 (p3_T p)"

definition p1p1_ok :: "ge_p1p1 \<Rightarrow> bool" where
  "p1p1_ok p \<longleftrightarrow> fe_bounded 303 (p1_X p) \<and> fe_bounded 303 (p1_Y p) \<and> fe_bounded 303 (p1_Z p) \<and> fe_bounded 303 (p1_T p)"

lemma fe_bounded_mono: "fe_bounded k f \<Longrightarrow> k \<le> l \<Longrightarrow> fe_bounded l f"
  using fe_is_weaken [of k f "fe_val f" l] by (simp add: fe_is_def)

lemma fe_mul_ok: "fe_bounded k f \<Longrightarrow> fe_bounded l g \<Longrightarrow> k \<le> 330 \<Longrightarrow> l \<le> 330 \<Longrightarrow> fe_bounded 101 (fe_mul f g)"
  using fe_mul_rule [OF fe_is_self fe_is_self] by (simp add: fe_is_def)

lemma fe_sq_ok: "fe_bounded k f \<Longrightarrow> k \<le> 330 \<Longrightarrow> fe_bounded 101 (fe_sq f) \<and> fe_bounded 101 (fe_sq2 f)"
  using fe_sq_rule [OF fe_is_self] fe_sq2_rule [OF fe_is_self] by (simp add: fe_is_def)

lemma fe_sums_ok: "fe_bounded k f \<Longrightarrow> fe_bounded l g \<Longrightarrow> k + l \<le> 6300 \<Longrightarrow> k + l \<le> m \<Longrightarrow>
    fe_bounded m (fe_add f g) \<and> fe_bounded m (fe_sub f g)"
  using fe_is_add_sub [OF fe_is_self fe_is_self, of k f l g] fe_bounded_mono [of "k + l" _ m] by (simp add: fe_is_def)

lemmas ok_defs = p2_ok_def p3_ok_def p1p1_ok_def precomp_ok_def cached_ok_def

lemma sums_101: "fe_bounded 101 f \<Longrightarrow> fe_bounded 101 g \<Longrightarrow> fe_bounded 202 (fe_add f g) \<and> fe_bounded 202 (fe_sub f g)"
  by (erule (1) fe_sums_ok; simp)

lemma sums_202:
  "fe_bounded 202 f \<Longrightarrow> fe_bounded 101 g \<Longrightarrow> fe_bounded 303 (fe_add f g) \<and> fe_bounded 303 (fe_sub f g)"
  "fe_bounded 101 f \<Longrightarrow> fe_bounded 202 g \<Longrightarrow> fe_bounded 303 (fe_add f g) \<and> fe_bounded 303 (fe_sub f g)"
  by (erule (1) fe_sums_ok; simp)+

lemma muls_ok:
  "fe_bounded 101 f \<Longrightarrow> fe_bounded 101 g \<Longrightarrow> fe_bounded 101 (fe_mul f g)"
  "fe_bounded 202 f \<Longrightarrow> fe_bounded 202 g \<Longrightarrow> fe_bounded 101 (fe_mul f g)"
  "fe_bounded 202 f \<Longrightarrow> fe_bounded 101 g \<Longrightarrow> fe_bounded 101 (fe_mul f g)"
  "fe_bounded 303 f \<Longrightarrow> fe_bounded 303 g \<Longrightarrow> fe_bounded 101 (fe_mul f g)"
  by (erule (1) fe_mul_ok; simp)+

lemma sqs_ok:
  "fe_bounded 101 f \<Longrightarrow> fe_bounded 101 (fe_sq f) \<and> fe_bounded 101 (fe_sq2 f)"
  "fe_bounded 202 f \<Longrightarrow> fe_bounded 101 (fe_sq f) \<and> fe_bounded 101 (fe_sq2 f)"
  by (erule fe_sq_ok; simp)+

lemma to_303: "fe_bounded 202 f \<Longrightarrow> fe_bounded 303 f"
  by (erule fe_bounded_mono) simp

lemmas ok_rules = sums_101 sums_202 muls_ok sqs_ok to_303

lemma ge_add_ok: "p3_ok p \<Longrightarrow> cached_ok c \<Longrightarrow> p1p1_ok (ge_add p c) \<and> p1p1_ok (ge_sub p c)"
  by (simp add: ok_defs ge_add_def ge_sub_def Let_def ok_rules)

lemma ge_madd_ok: "p3_ok p \<Longrightarrow> precomp_ok c \<Longrightarrow> p1p1_ok (ge_madd p c) \<and> p1p1_ok (ge_msub p c)"
  by (simp add: ok_defs ge_madd_def ge_msub_def Let_def ok_rules)

lemma ge_p2_dbl_ok: "p2_ok p \<Longrightarrow> p1p1_ok (ge_p2_dbl p)"
  by (simp add: ok_defs ge_p2_dbl_def Let_def ok_rules)

lemma p1p1_ok_conv: "p1p1_ok r \<Longrightarrow> p2_ok (ge_p1p1_to_p2 r) \<and> p3_ok (ge_p1p1_to_p3 r)"
  by (simp add: ok_defs ge_p1p1_to_p2_def ge_p1p1_to_p3_def ok_rules)

lemma p3_ok_conv: "p3_ok p \<Longrightarrow> p2_ok (ge_p3_to_p2 p) \<and> cached_ok (ge_p3_to_cached p)"
  using fe_is_d2 by (simp add: ok_defs ge_p3_to_p2_def ge_p3_to_cached_def ok_rules fe_bounded_copy [of 101] fe_is_def)

lemma zero_ok: "p2_ok ge_p2_0" "p3_ok ge_p3_0"
  using fe_is_0 [of 101] fe_is_1 [of 101] by (simp_all add: ok_defs ge_p2_0_def ge_p3_0_def fe_is_def)


section \<open>No loop aborts\<close>

lemma fold_option_invariant:
  assumes "\<And>x s. x \<in> set xs \<Longrightarrow> I s \<Longrightarrow> \<exists>t. f x s = Some t \<and> I t" "I s"
  shows "\<exists>t. fold_option f xs s = Some t \<and> I t"
  using assms
proof (induction xs arbitrary: s)
  case (Cons x xs)
  obtain t where "f x s = Some t" "I t" using Cons.prems(1) [of x s] Cons.prems(2) by auto
  with Cons.IH [of t] Cons.prems(1) show ?case by simp
qed simp

lemma fold_invariant:
  assumes "\<And>x s. x \<in> set xs \<Longrightarrow> I s \<Longrightarrow> I (f x s)" "I s"
  shows "I (fold f xs s)"
  using assms by (induction xs arbitrary: s) simp_all

lemma digit_entry_ok:
  assumes "ok z" "\<And>t. ok t \<Longrightarrow> ok (m t)" "\<And>i. i < 8 \<Longrightarrow> ok (T ! i)" "- 8 \<le> d" "d \<le> 8"
  shows "ok (digit_entry z m T d)"
proof -
  define t where "t = (if d = 0 then z else T ! (nat \<bar>d\<bar> - 1))"
  have "ok t" using assms(1) assms(3) [of "nat \<bar>d\<bar> - 1"] assms(4,5) by (simp add: t_def)
  moreover have "digit_entry z m T d = (if d < 0 then m t else t)" by (simp only: digit_entry_def t_def Let_def)
  ultimately show ?thesis using assms(2) by simp
qed

lemma radix_digit:
  assumes "length e = 64 \<and> digits16 63 e \<and> 0 \<le> e ! 63 \<and> e ! 63 \<le> 8 \<and> v" "i < 64"
  shows "- 8 \<le> e ! i \<and> e ! i \<le> 8"
proof (cases "i = 63")
  case False
  then have "- 8 \<le> e ! i \<and> e ! i \<le> 7" using assms by (simp add: digits16_def)
  then show ?thesis by simp
qed (use assms in simp)

lemma scalarmult_base_add_ok:
  assumes "i < 64" "- 8 \<le> e ! i" "e ! i \<le> 8" "p3_ok h"
  shows "\<exists>h'. scalarmult_base_add e i h = Some h' \<and> p3_ok h'"
proof -
  have i: "i div 2 < 32" using assms(1) by simp
  have "precomp_ok (digit_entry ge_precomp_0 precomp_minus (ge_base ! (i div 2)) (e ! i))"
    by (rule digit_entry_ok [OF zero_entries_ok(1) precomp_ok_minus ge_base_ok [OF i] assms(2,3)])
  then show ?thesis
    using select_value [OF i assms(2,3)] assms(4) by (simp add: scalarmult_base_add_def ge_madd_ok p1p1_ok_conv)
qed

lemma ge_scalarmult_base_ok:
  assumes "length a = 32" "a ! 31 \<le> 127"
  shows "\<exists>h. ge_scalarmult_base a = Some h \<and> p3_ok h"
proof -
  let ?e = "radix16_base a"
  have d: "- 8 \<le> ?e ! i \<and> ?e ! i \<le> 8" if "i < 64" for i
    using radix16_base_value [OF assms] that by (rule radix_digit)
  have loop: "\<exists>t. fold_option (scalarmult_base_add ?e) xs h = Some t \<and> p3_ok t"
    if "p3_ok h" "\<forall>i\<in>set xs. i < 64" for xs h
    using that d by (intro fold_option_invariant scalarmult_base_add_ok) auto
  obtain h where h: "fold_option (scalarmult_base_add ?e) (map (\<lambda>j. 2 * j + 1) [0..<32]) ge_p3_0 = Some h" "p3_ok h"
    using loop [OF zero_ok(2), of "map (\<lambda>j. 2 * j + 1) [0..<32]"] by auto
  have "p3_ok (ge_p1p1_to_p3 (ge_p2_dbl (ge_p1p1_to_p2 (ge_p2_dbl (ge_p1p1_to_p2 (ge_p2_dbl (ge_p1p1_to_p2 (ge_p3_dbl h))))))))"
    using h(2) by (simp add: ge_p3_dbl_def p3_ok_conv ge_p2_dbl_ok p1p1_ok_conv)
  from loop [OF this, of "map (\<lambda>j. 2 * j) [0..<32]"] h(1) show ?thesis
    by (auto simp: ge_scalarmult_base_def Let_def)
qed

text \<open>The tables of multiples of a point.\<close>

lemma table_ok:
  assumes "cached_ok c" "\<And>c. cached_ok c \<Longrightarrow> cached_ok (g c)"
  shows "length (fold (\<lambda>i r. r @ [g (r ! i)]) [0..<n] [c]) = Suc n \<and>
    (\<forall>i\<le>n. cached_ok (fold (\<lambda>i r. r @ [g (r ! i)]) [0..<n] [c] ! i))"
proof (induction n)
  case (Suc n)
  let ?r = "fold (\<lambda>i r. r @ [g (r ! i)]) [0..<n] [c]"
  have "cached_ok (?r ! n)" using Suc by simp
  then show ?case using Suc assms(2) by (auto simp: nth_append le_Suc_eq)
qed (use assms in simp)

lemma scalarmult_table_ok: "p3_ok A \<Longrightarrow> i < 8 \<Longrightarrow> cached_ok (scalarmult_table A ! i)"
  using table_ok [of "ge_p3_to_cached A" "\<lambda>c. ge_p3_to_cached (ge_p1p1_to_p3 (ge_add A c))" 7]
  by (simp add: scalarmult_table_def p3_ok_conv ge_add_ok p1p1_ok_conv less_Suc_eq_le del: upt_rec_numeral)

lemma ge_dsm_precomp_ok: "p3_ok A \<Longrightarrow> i < 8 \<Longrightarrow> cached_ok (ge_dsm_precomp A ! i)"
  using table_ok [of "ge_p3_to_cached A" "\<lambda>c. ge_p3_to_cached (ge_p1p1_to_p3 (ge_add (ge_p1p1_to_p3 (ge_p3_dbl A)) c))" 7]
  by (simp add: ge_dsm_precomp_def Let_def p3_ok_conv ge_add_ok p1p1_ok_conv ge_p3_dbl_def ge_p2_dbl_ok less_Suc_eq_le
    del: upt_rec_numeral)

lemma ge_scalarmult_ok:
  assumes "length a = 32" "a ! 31 \<le> 127" "p3_ok A"
  shows "\<exists>r. ge_scalarmult a A = Some r \<and> p2_ok r"
  unfolding ge_scalarmult_def
proof (rule fold_option_invariant)
  fix i r assume i: "i \<in> set (rev [0..<64])" and r: "p2_ok r"
  have d: "- 8 \<le> radix16_var a ! i" "radix16_var a ! i \<le> 8"
    using radix_digit [OF radix16_var_value [OF assms(1,2)], of i] i by simp_all
  have T: "\<And>i. i < 8 \<Longrightarrow> cached_ok (scalarmult_table A ! i)" using scalarmult_table_ok [OF assms(3)] .
  have "cached_ok (digit_entry ge_cached_0 cached_minus (scalarmult_table A) (radix16_var a ! i))"
    by (rule digit_entry_ok [OF zero_entries_ok(2) cached_ok_minus T d])
  then show "\<exists>t. scalarmult_step (scalarmult_table A) (radix16_var a) i r = Some t \<and> p2_ok t"
    using select_cached_value [OF T d] r
    by (simp add: scalarmult_step_def Let_def ge_p2_dbl_ok p1p1_ok_conv ge_add_ok)
qed (rule zero_ok)

lemma ge_Bi_ok: "i < 8 \<Longrightarrow> precomp_ok (ge_Bi ! i)"
proof -
  have "length ge_Bi = 8 \<and> list_all precomp_limbs_ok ge_Bi" by code_simp
  then show "i < 8 \<Longrightarrow> precomp_ok (ge_Bi ! i)" by (simp add: list_all_length precomp_limbs_okD)
qed

text \<open>A window digit indexes the table of odd multiples.\<close>

lemma window_index:
  assumes "\<bar>d\<bar> \<le> (15::int)"
  shows "d > 0 \<Longrightarrow> nat (d div 2) < 8" "d < 0 \<Longrightarrow> nat (- d div 2) < 8"
  using assms by linarith+

lemma dsm_digit_ok:
  assumes "\<bar>d\<bar> \<le> 15" "p1p1_ok t"
  shows "(\<And>i. i < 8 \<Longrightarrow> cached_ok (Ai ! i)) \<Longrightarrow> p1p1_ok (dsm_digit Ai d t)" "p1p1_ok (dsm_digit_base d t)"
  using assms window_index [OF assms(1)] ge_Bi_ok
  by (simp_all add: dsm_digit_def dsm_digit_base_def ge_add_ok ge_madd_ok p1p1_ok_conv)

lemma slide_digit_small:
  assumes "length a = 32" "le_val a < 2 ^ 255" "i < 256"
  shows "\<bar>slide a ! i\<bar> \<le> 15"
  using slide_value [OF assms(1,2)] assms(3) unfolding windows_def by (metis abs_zero zero_le_numeral)

lemma dsm_indices_less: "i \<in> set (dsm_indices as bs) \<Longrightarrow> i < 256"
  unfolding dsm_indices_def by (drule set_dropWhileD) simp

lemma ge_double_scalarmult_ok:
  assumes a: "length a = 32" "le_val a < 2 ^ 255" and b: "length b = 32" "le_val b < 2 ^ 255" and A: "p3_ok A"
  shows "p2_ok (ge_double_scalarmult_base_vartime a A b)"
    and "(\<And>i. i < 8 \<Longrightarrow> cached_ok (Bi ! i)) \<Longrightarrow> p2_ok (ge_double_scalarmult_precomp_vartime a A b Bi)"
proof -
  note small = slide_digit_small [OF a] slide_digit_small [OF b]
  show "p2_ok (ge_double_scalarmult_base_vartime a A b)"
    unfolding ge_double_scalarmult_base_vartime_def Let_def
  proof (rule fold_invariant)
    fix i r assume "i \<in> set (dsm_indices (slide a) (slide b))" "p2_ok r"
    then show "p2_ok (ge_p1p1_to_p2 (dsm_digit_base (slide b ! i) (dsm_digit (ge_dsm_precomp A) (slide a ! i) (ge_p2_dbl r))))"
      using small dsm_indices_less ge_dsm_precomp_ok [OF A]
      by (simp add: dsm_digit_ok p1p1_ok_conv ge_p2_dbl_ok)
  qed (rule zero_ok)
  show "p2_ok (ge_double_scalarmult_precomp_vartime a A b Bi)" if Bi: "\<And>i. i < 8 \<Longrightarrow> cached_ok (Bi ! i)"
    unfolding ge_double_scalarmult_precomp_vartime_def Let_def
  proof (rule fold_invariant)
    fix i r assume "i \<in> set (dsm_indices (slide a) (slide b))" "p2_ok r"
    then show "p2_ok (ge_p1p1_to_p2 (dsm_digit Bi (slide b ! i) (dsm_digit (ge_dsm_precomp A) (slide a ! i) (ge_p2_dbl r))))"
      using small dsm_indices_less ge_dsm_precomp_ok [OF A] Bi
      by (simp add: dsm_digit_ok p1p1_ok_conv ge_p2_dbl_ok)
  qed (rule zero_ok)
qed

section \<open>The property of the scalar multiplications\<close>

lemma le_val_top: "length a = 32 \<Longrightarrow> a ! 31 \<le> 127 \<Longrightarrow> le_val a < 2 ^ 255"
proof -
  assume a: "length a = 32" "a ! 31 \<le> 127"
  have "le_val a = le_val (take 31 a) + 2 ^ 248 * uint (a ! 31)" using le_val_take_Suc [of 31 a] a(1) by simp
  moreover have "le_val (take 31 a) < 2 ^ 248" using le_val_less [of "take 31 a"] a(1) by simp
  moreover have "uint (a ! 31) \<le> 127" using a(2) by (simp add: word_le_def)
  ultimately show ?thesis by simp
qed

text \<open>C10: for scalars with \<open>a[31] <= 127\<close> and any point with bounded limbs, on the curve or not, the four scalar
  multiplications return: no conditional move is called with a bit other than 0 or 1, no table is read outside its
  eight entries, no field operation overflows, and the limbs of the result are inside the bounds again.\<close>

theorem scalar_mult_safe:
  assumes "length a = 32" "a ! 31 \<le> 127" "length b = 32" "b ! 31 \<le> 127" "p3_ok A" "length Bi = 8" "list_all cached_ok Bi"
  shows "(\<exists>h. ge_scalarmult_base a = Some h \<and> p3_ok h) \<and> (\<exists>r. ge_scalarmult a A = Some r \<and> p2_ok r) \<and>
    p2_ok (ge_double_scalarmult_base_vartime a A b) \<and> p2_ok (ge_double_scalarmult_precomp_vartime a A b Bi)"
  using ge_scalarmult_base_ok [OF assms(1,2)] ge_scalarmult_ok [OF assms(1,2,5)]
    ge_double_scalarmult_ok [OF assms(1) le_val_top [OF assms(1,2)] assms(3) le_val_top [OF assms(3,4)] assms(5)]
    assms(6,7)
  by (simp add: list_all_length)

theorem scalar_mult_safe_witness:
  "\<exists>h. ge_scalarmult_base (replicate 31 255 @ [127]) = Some h \<and> p3_ok h"
  using scalar_mult_safe [of "replicate 31 255 @ [127]" "replicate 32 0" ge_p3_0 "replicate 8 ge_cached_0"] zero_ok zero_entries_ok
  by (simp add: nth_append list_all_length)

end
