(* ===== verification/Group_Bytes.thy ===== *)
theory Group_Bytes
  imports Group
begin

text \<open>
  Points and bytes: \<open>ge_tobytes\<close>, \<open>ge_p3_tobytes\<close>, \<open>ge_frombytes_vartime\<close> and
  \<open>ge_fromfe_frombytes_vartime\<close> of crypto-ops.c, built with its assertions.
\<close>

text \<open>A call returns a result, returns -1, or aborts (a failed assertion, or a condition on an
  undefined value).\<close>

datatype 'a outcome = Done 'a | Fail | Abort

text \<open>\<open>if (c)\<close> on an \<open>int\<close>.\<close>

fun if_c :: "i32 \<Rightarrow> 'a outcome \<Rightarrow> 'a outcome \<Rightarrow> 'a outcome" where
  "if_c (CI v) a b = (if v \<noteq> 0 then a else b)"
| "if_c UB a b = Abort"

text \<open>\<open>a != b\<close> on two values of type \<open>int\<close>.\<close>

fun ne_c :: "i32 \<Rightarrow> i32 \<Rightarrow> i32" where
  "ne_c (CI v) (CI w) = CI (if v \<noteq> w then 1 else 0)"
| "ne_c _ _ = UB"

text \<open>\<open>assert(c); \<dots>\<close>\<close>

definition assert_c :: "i32 \<Rightarrow> 'a outcome \<Rightarrow> 'a outcome" where
  "assert_c c a = if_c c a Abort"

fun not_c :: "i32 \<Rightarrow> i32" where
  "not_c (CI v) = CI (if v = 0 then 1 else 0)"
| "not_c UB = UB"

section \<open>Encoding\<close>

text \<open>\<open>s[31] ^= fe_isnegative(x) << 7\<close>\<close>

definition set_sign :: "u8 list \<Rightarrow> i32 \<Rightarrow> u8 list option" where
  "set_sign s n = map_option (\<lambda>b. s[31 := s ! 31 XOR b]) (to_u8 (shl n 7))"

definition ge_tobytes :: "ge_p2 \<Rightarrow> u8 list option" where
  "ge_tobytes h =
     do {
       let recip = fe_invert (p2_Z h);
       let x = fe_mul (p2_X h) recip;
       let y = fe_mul (p2_Y h) recip;
       s \<leftarrow> fe_tobytes y;
       set_sign s (fe_isnegative x)
     }"

definition ge_p3_tobytes :: "ge_p3 \<Rightarrow> u8 list option" where
  "ge_p3_tobytes h =
     do {
       let recip = fe_invert (p3_Z h);
       let x = fe_mul (p3_X h) recip;
       let y = fe_mul (p3_Y h) recip;
       s \<leftarrow> fe_tobytes y;
       set_sign s (fe_isnegative x)
     }"

section \<open>Decoding\<close>

text \<open>The limbs of a number that is not below \<open>2^255 - 19\<close>.\<close>

definition fe_noncanonical :: "i64 list \<Rightarrow> bool" where
  "fe_noncanonical h \<longleftrightarrow>
     h ! 9 = CI 33554428 \<and> h ! 8 = CI 268435440 \<and> h ! 7 = CI 536870880 \<and> h ! 6 = CI 2147483520 \<and>
     h ! 5 = CI 4294967295 \<and> h ! 4 = CI 67108860 \<and> h ! 3 = CI 134217720 \<and> h ! 2 = CI 536870880 \<and>
     h ! 1 = CI 1073741760 \<and> ci_val (h ! 0) \<ge> 4294967277"

text \<open>The end of \<open>ge_frombytes_vartime\<close>: the sign of \<open>x\<close>, and \<open>T\<close>.\<close>

definition ge_frombytes_sign :: "u8 list \<Rightarrow> fe \<Rightarrow> fe \<Rightarrow> fe \<Rightarrow> ge_p3 outcome" where
  "ge_frombytes_sign s X Y Z =
     (let finish = (\<lambda>X. Done \<lparr>p3_X = X, p3_Y = Y, p3_Z = Z, p3_T = fe_mul X Y\<rparr>)
      in if_c (ne_c (fe_isnegative X) (of_unsigned (drop_bit 7 (s ! 31))))
           (if_c (not_c (fe_isnonzero X)) Fail (finish (fe_neg X)))
           (finish X))"

definition ge_frombytes_vartime :: "u8 list \<Rightarrow> ge_p3 outcome" where
  "ge_frombytes_vartime s =
     (let h = fe_load255 s in
      if fe_noncanonical h then Fail else
      (let Y = fe_load_carry h;
           Z = fe_1;
           u = fe_sq Y;
           v = fe_mul u fe_d;
           u = fe_sub u Z;
           v = fe_add v Z;
           X = fe_divpowm1 u v;
           vxx = fe_sq X;
           vxx = fe_mul vxx v;
           check = fe_sub vxx u
       in if_c (fe_isnonzero check)
            (let check = fe_add vxx u
             in if_c (fe_isnonzero check) Fail (ge_frombytes_sign s (fe_mul X fe_sqrtm1) Y Z))
            (ge_frombytes_sign s X Y Z)))"

text \<open>\<open>ge_fromfe_frombytes_vartime\<close>. The label \<open>setsign\<close> and what follows, then the final
  assertion that the point is on the curve.\<close>

definition ge_fromfe_check :: "fe \<Rightarrow> fe \<Rightarrow> fe \<Rightarrow> i32" where
  "ge_fromfe_check X Y Z =
     (let check_iz = fe_invert Z;
          check_x = fe_mul X check_iz;
          check_y = fe_mul Y check_iz;
          check_x = fe_sq check_x;
          check_y = fe_sq check_y;
          check_v = fe_mul check_x check_y;
          check_v = fe_mul fe_d check_v;
          check_v = fe_add check_v check_x;
          check_v = fe_sub check_v check_y;
          check_x = fe_1;
          check_v = fe_add check_v check_x
      in not_c (fe_isnonzero check_v))"

definition ge_fromfe_setsign :: "fe \<Rightarrow> fe \<Rightarrow> fe \<Rightarrow> int \<Rightarrow> ge_p2 outcome" where
  "ge_fromfe_setsign X z w sign =
     (let finish = (\<lambda>X. let Z = fe_add z w;
                            Y = fe_sub z w;
                            X = fe_mul X Z
                        in assert_c (ge_fromfe_check X Y Z) (Done \<lparr>p2_X = X, p2_Y = Y, p2_Z = Z\<rparr>))
      in if_c (ne_c (fe_isnegative X) (CI sign))
           (assert_c (fe_isnonzero X) (finish (fe_neg X)))
           (finish X))"

text \<open>The label \<open>negative\<close>.\<close>

definition ge_fromfe_negative :: "fe \<Rightarrow> fe \<Rightarrow> fe \<Rightarrow> fe \<Rightarrow> ge_p2 outcome" where
  "ge_fromfe_negative X x z w =
     (let x = fe_mul x fe_sqrtm1;
          y = fe_sub w x
      in if_c (fe_isnonzero y)
           (let y = fe_add w x
            in assert_c (not_c (fe_isnonzero y)) (ge_fromfe_setsign (fe_mul X fe_fffb3) z w 1))
           (ge_fromfe_setsign (fe_mul X fe_fffb4) z w 1))"

definition ge_fromfe_frombytes_vartime :: "u8 list \<Rightarrow> ge_p2 outcome" where
  "ge_fromfe_frombytes_vartime s =
     (let u = fe_load_carry (fe_load256 s);
          v = fe_sq2 u;
          w = fe_1;
          w = fe_add v w;
          x = fe_sq w;
          y = fe_mul fe_ma2 v;
          x = fe_add x y;
          X = fe_divpowm1 w x;
          y = fe_sq X;
          x = fe_mul y x;
          y = fe_sub w x;
          z = fe_copy fe_ma;
          square = (\<lambda>X. let X = fe_mul X u;
                            z = fe_mul z v
                        in ge_fromfe_setsign X z w 0)
      in if_c (fe_isnonzero y)
           (let y = fe_add w x
            in if_c (fe_isnonzero y)
                 (ge_fromfe_negative X x z w)
                 (square (fe_mul X fe_fffb1)))
           (square (fe_mul X fe_fffb2)))"

end
