(* ===== verification/Group_Bytes_Proofs.thy ===== *)
theory Group_Bytes_Proofs
  imports Group_Proofs Group_Bytes
begin

text \<open>
  The decoding of \<open>ge_frombytes_vartime\<close>: the limb-wise comparison rejects exactly the encodings that are not
  below \<open>2^255 - 19\<close>; whatever is accepted is a point of the curve with the encoded second coordinate and
  parity of the first, and encodes to the same bytes again.
\<close>

section \<open>Canonical encodings\<close>

text \<open>The comparison of \<open>ge_frombytes_vartime\<close> limb by limb is the comparison with \<open>2^255 - 19\<close>.\<close>

lemma top_fields:
  fixes N :: int
  shows "N mod 2 ^ 255 \<ge> fe_q \<longleftrightarrow> take_bit 23 (drop_bit 232 N) = 2 ^ 23 - 1 \<and> take_bit 24 (drop_bit 208 N) = 2 ^ 24 - 1 \<and>
    take_bit 24 (drop_bit 184 N) = 2 ^ 24 - 1 \<and> take_bit 24 (drop_bit 160 N) = 2 ^ 24 - 1 \<and>
    take_bit 32 (drop_bit 128 N) = 2 ^ 32 - 1 \<and> take_bit 24 (drop_bit 104 N) = 2 ^ 24 - 1 \<and>
    take_bit 24 (drop_bit 80 N) = 2 ^ 24 - 1 \<and> take_bit 24 (drop_bit 56 N) = 2 ^ 24 - 1 \<and>
    take_bit 24 (drop_bit 32 N) = 2 ^ 24 - 1 \<and> take_bit 32 N \<ge> 2 ^ 32 - 19" (is "?L \<longleftrightarrow> ?R")
proof -
  define f where "f p n = take_bit n (drop_bit p N)" for p n
  have f: "0 \<le> f p n" "f p n \<le> 2 ^ n - 1" for p n
    using take_bit_int_less_exp [of n "drop_bit p N"] by (simp_all add: f_def del: take_bit_int_less_exp)
  have N: "N mod 2 ^ 255 = f 0 32 + 2 ^ 32 * f 32 24 + 2 ^ 56 * f 56 24 + 2 ^ 80 * f 80 24 + 2 ^ 104 * f 104 24 +
    2 ^ 128 * f 128 32 + 2 ^ 160 * f 160 24 + 2 ^ 184 * f 184 24 + 2 ^ 208 * f 208 24 + 2 ^ 232 * f 232 23"
    using split_fields [of 0 N 32] split_fields [of 32 N 24] split_fields [of 56 N 24] split_fields [of 80 N 24]
    split_fields [of 104 N 24] split_fields [of 128 N 32] split_fields [of 160 N 24] split_fields [of 184 N 24]
    split_fields [of 208 N 24] split_fields [of 232 N 23] split_bits [of N 255]
    unfolding take_bit_eq_mod [of 255 N, symmetric] f_def by simp
  note b = f [of 0 32] f [of 32 24] f [of 56 24] f [of 80 24] f [of 104 24] f [of 128 32] f [of 160 24] f [of 184 24]
    f [of 208 24] f [of 232 23]
  have "?R \<longleftrightarrow> f 232 23 = 2 ^ 23 - 1 \<and> f 208 24 = 2 ^ 24 - 1 \<and> f 184 24 = 2 ^ 24 - 1 \<and> f 160 24 = 2 ^ 24 - 1 \<and>
    f 128 32 = 2 ^ 32 - 1 \<and> f 104 24 = 2 ^ 24 - 1 \<and> f 80 24 = 2 ^ 24 - 1 \<and> f 56 24 = 2 ^ 24 - 1 \<and>
    f 32 24 = 2 ^ 24 - 1 \<and> f 0 32 \<ge> 2 ^ 32 - 19"
    by (simp add: f_def)
  also have "\<dots> \<longleftrightarrow> ?L"
    unfolding N fe_q_def using b by simp linarith
  finally show ?thesis by simp
qed

lemma load_3_masked:
  "length s = 32 \<Longrightarrow> uint (load_3 s 29 AND 8388607) = take_bit 23 (drop_bit 232 (le_val s))"
proof -
  assume s: "length s = 32"
  have "load_3 s 29 AND 8388607 = take_bit 23 (load_3 s 29)"
    by (simp add: take_bit_eq_mask mask_eq_exp_minus_1)
  then show ?thesis using load_3_field [of 29 s] s by (simp add: uint_take_bit)
qed

lemma fe_noncanonical_iff:
  assumes "length s = 32"
  shows "fe_noncanonical (fe_load255 s) \<longleftrightarrow> fe_q \<le> le_val s mod 2 ^ 255"
proof -
  have h: "take_bit 23 (drop_bit 232 (le_val s)) < 2 ^ 24"
    using take_bit_int_less_exp [of 23 "drop_bit 232 (le_val s)"] by simp
  show ?thesis
    unfolding fe_noncanonical_def fe_load255_def fe_load_limbs_value [OF assms load_3_masked [OF assms] h] top_fields
    by (auto simp: nth10)
qed

section \<open>Decoding\<close>

lemma fe_is_d: "fe_is 101 fe_d ed_d"
  unfolding fe_is_def ed_d_def by code_simp

lemma fe_is_sqrtm1: "\<exists>i. fe_is 101 fe_sqrtm1 i \<and> (i * i) mod fe_q = (- 1) mod fe_q"
proof (intro exI conjI)
  show "fe_is 101 fe_sqrtm1 (fe_val fe_sqrtm1)" unfolding fe_is_def by code_simp
  show "(fe_val fe_sqrtm1 * fe_val fe_sqrtm1) mod fe_q = (- 1) mod fe_q" by code_simp
qed

lemma of_unsigned_sign: "of_unsigned (drop_bit 7 (b :: u8)) = (CI (if bit b 7 then 1 else 0) :: i32)"
proof -
  have "uint (drop_bit 7 b) = uint b div 128" unfolding uint_drop_bit by (simp add: drop_bit_eq_div)
  moreover have "uint b < 256" "0 \<le> uint b" using uint_bounded [of b] by simp_all
  moreover have "bit b 7 \<longleftrightarrow> odd (uint b div 2 ^ 7)" using bit_uint_iff [of b 7] bit_iff_odd [of "uint b" 7] by simp
  moreover have "uint b div 128 = 0 \<or> uint b div 128 = 1" using \<open>uint b < 256\<close> \<open>0 \<le> uint b\<close> by presburger
  ultimately have "uint (drop_bit 7 b) = (if bit b 7 then 1 else 0)" by auto
  then show ?thesis by (auto simp: of_unsigned_less)
qed

text \<open>The sign step: either fails, or returns the representation of \<open>x\<close> with the wanted parity.\<close>

lemma ge_frombytes_sign_value:
  assumes X: "fe_is 101 X x" and Y: "fe_is 101 Y y" and Z: "fe_is 101 Z 1"
  shows "(ge_frombytes_sign s X Y Z = Fail \<and> x mod fe_q = 0 \<and> bit (s ! 31) 7) \<or>
    (\<exists>h x'. ge_frombytes_sign s X Y Z = Done h \<and> p3_point h (x', y) \<and> p3_Z h = Z \<and> p3_Y h = Y \<and> fe_is 101 (p3_X h) x' \<and>
       (x' = x \<or> x' = - x) \<and> (odd (x' mod fe_q) \<longleftrightarrow> bit (s ! 31) 7))"
proof -
  have X220: "fe_is 220 X x" using X by (rule fe_is_weaken) simp
  let ?f = "\<lambda>X. \<lparr>p3_X = X, p3_Y = Y, p3_Z = Z, p3_T = fe_mul X Y\<rparr>"
  have pt: "p3_point (?f X') (x', y)" if "fe_is 101 X' x'" for X' x'
    unfolding p3_point_def using fe_mul_rule [OF that Y] that Y Z by (intro exI [of _ 1]) simp
  have neg: "fe_is 101 (fe_neg X) (- x)" using X by (rule fe_is_neg) simp
  have par: "odd ((- x) mod fe_q) \<longleftrightarrow> even (x mod fe_q)" if "x mod fe_q \<noteq> 0"
  proof -
    have "(- x) mod fe_q = fe_q - x mod fe_q" using that by (simp add: zmod_zminus1_eq_if)
    then show ?thesis by (simp add: fe_q_def)
  qed
  show ?thesis
  proof (cases "odd (x mod fe_q) \<longleftrightarrow> bit (s ! 31) 7")
    case True
    then have "ge_frombytes_sign s X Y Z = Done (?f X)"
      by (auto simp: ge_frombytes_sign_def fe_isnegative_value [OF X220] of_unsigned_sign)
    then show ?thesis using pt [OF X] X True by auto
  next
    case False
    then have r: "ge_frombytes_sign s X Y Z = (if x mod fe_q = 0 then Fail else Done (?f (fe_neg X)))"
      by (auto simp: ge_frombytes_sign_def fe_isnegative_value [OF X220] fe_isnonzero_value [OF X220] of_unsigned_sign)
    show ?thesis
    proof (cases "x mod fe_q = 0")
      case True
      then show ?thesis using r False by simp
    next
      case nz: False
      then show ?thesis using r pt [OF neg] neg par [OF nz] False by auto
    qed
  qed
qed

text \<open>\<open>h\<close> decodes \<open>s\<close> with first coordinate \<open>x\<close>.\<close>

definition decoded :: "u8 list \<Rightarrow> ge_p3 \<Rightarrow> int \<Rightarrow> bool" where
  "decoded s h x \<longleftrightarrow> le_val s mod 2 ^ 255 < fe_q \<and> p3_point h (x, le_val s mod 2 ^ 255) \<and>
     fe_is 101 (p3_X h) x \<and> fe_is 101 (p3_Y h) (le_val s mod 2 ^ 255) \<and> p3_Z h = fe_1 \<and>
     on_curve x (le_val s mod 2 ^ 255) \<and> (odd (x mod fe_q) \<longleftrightarrow> bit (s ! 31) 7)"

lemma on_curve_minus: "on_curve x y \<Longrightarrow> on_curve (- x) y"
  by (simp add: on_curve_def)

lemma decoded_sign:
  assumes X: "fe_is 101 X x" and Y: "fe_is 101 Y (le_val s mod 2 ^ 255)" and c: "on_curve x (le_val s mod 2 ^ 255)"
    and small: "le_val s mod 2 ^ 255 < fe_q"
  shows "ge_frombytes_sign s X Y fe_1 = Fail \<or> (\<exists>h x'. ge_frombytes_sign s X Y fe_1 = Done h \<and> decoded s h x')"
proof -
  have one: "fe_is 101 fe_1 1" by (simp add: fe_is_1)
  from ge_frombytes_sign_value [OF X Y one, of s] show ?thesis
  proof (elim disjE exE conjE)
    fix h x' assume "ge_frombytes_sign s X Y fe_1 = Done h" "p3_point h (x', le_val s mod 2 ^ 255)" "p3_Z h = fe_1"
      "p3_Y h = Y" "fe_is 101 (p3_X h) x'" "x' = x" "odd (x' mod fe_q) \<longleftrightarrow> bit (s ! 31) 7"
    then show ?thesis using Y c small unfolding decoded_def by blast
  next
    fix h x' assume "ge_frombytes_sign s X Y fe_1 = Done h" "p3_point h (x', le_val s mod 2 ^ 255)" "p3_Z h = fe_1"
      "p3_Y h = Y" "fe_is 101 (p3_X h) x'" "x' = - x" "odd (x' mod fe_q) \<longleftrightarrow> bit (s ! 31) 7"
    then show ?thesis using Y on_curve_minus [OF c] small unfolding decoded_def by blast
  qed blast
qed

lemma curve_of_equation:
  assumes "(x * x * (y * y * ed_d + 1)) mod fe_q = (y * y - 1) mod fe_q"
  shows "on_curve x y"
proof -
  have "(y * y - x * x) mod fe_q = ((y * y - 1) + (1 - x * x)) mod fe_q" by simp
  also have "\<dots> = (x * x * (y * y * ed_d + 1) + (1 - x * x)) mod fe_q"
    by (rule mod_add_cong [OF assms [symmetric] refl])
  also have "x * x * (y * y * ed_d + 1) + (1 - x * x) = 1 + ed_d * (x * x) * (y * y)" by (simp add: algebra_simps)
  finally show ?thesis by (simp add: on_curve_def)
qed

lemma ge_frombytes_sound:
  assumes s: "length s = 32"
  shows "ge_frombytes_vartime s = Fail \<or> (\<exists>h x. ge_frombytes_vartime s = Done h \<and> decoded s h x)"
proof (cases "fe_noncanonical (fe_load255 s)")
  case True
  then show ?thesis by (simp add: ge_frombytes_vartime_def Let_def)
next
  case False
  then have small: "le_val s mod 2 ^ 255 < fe_q" using fe_noncanonical_iff [OF s] by simp
  define y where "y = le_val s mod 2 ^ 255"
  define Y where "Y = fe_load_carry (fe_load255 s)"
  have Y: "fe_is 101 Y y" using fe_is_load255 [OF s] by (simp add: Y_def y_def)
  have one: "fe_is 1 fe_1 1" by (simp add: fe_is_1)
  define U where "U = fe_sub (fe_sq Y) fe_1"
  define V where "V = fe_add (fe_mul (fe_sq Y) fe_d) fe_1"
  define u where "u = y * y - 1"
  define v where "v = y * y * ed_d + 1"
  have yy: "fe_is 101 (fe_sq Y) (y * y)" using fe_sq_rule [OF Y] by simp
  have U: "fe_is 102 U u" using fe_is_add_sub(2) [OF yy one] by (simp add: U_def u_def)
  have V: "fe_is 102 V v"
    using fe_is_add_sub(1) [OF fe_mul_rule [OF yy fe_is_d] one] by (simp add: V_def v_def)
  define X where "X = fe_divpowm1 U V"
  obtain x where X: "fe_is 101 X x"
    using fe_is_divpowm1 [OF fe_is_weaken [OF U] fe_is_weaken [OF V]] by (auto simp: X_def)
  define W where "W = fe_mul (fe_sq X) V"
  have W: "fe_is 101 W (x * x * v)" using fe_mul_rule [OF fe_sq_rule [OF X] V] by (simp add: W_def)
  have minus: "fe_is 220 (fe_sub W U) (x * x * v - u)" and plus: "fe_is 220 (fe_add W U) (x * x * v + u)"
    using fe_is_add_sub [OF W U] by (simp_all add: fe_is_weaken [of 203 _ _ 220])
  note run = ge_frombytes_vartime_def Let_def False Y_def [symmetric] U_def [symmetric] V_def [symmetric]
    X_def [symmetric] W_def [symmetric] fe_isnonzero_value [OF minus] fe_isnonzero_value [OF plus]
  show ?thesis
  proof (cases "(x * x * v - u) mod fe_q = 0")
    case True
    then have "(x * x * v) mod fe_q = u mod fe_q" by (simp only: mod_eq_dvd_iff dvd_eq_mod_eq_0)
    then have c: "on_curve x y" unfolding u_def v_def by (rule curve_of_equation)
    have "ge_frombytes_vartime s = ge_frombytes_sign s X Y fe_1" using True by (simp add: run)
    then show ?thesis using decoded_sign [of X x Y s] X Y c small unfolding y_def by simp
  next
    case nz: False
    obtain i where i: "fe_is 101 fe_sqrtm1 i" "(i * i) mod fe_q = (- 1) mod fe_q" using fe_is_sqrtm1 by blast
    have Xi: "fe_is 101 (fe_mul X fe_sqrtm1) (x * i)" using fe_mul_rule [OF X i(1)] by simp
    show ?thesis
    proof (cases "(x * x * v + u) mod fe_q = 0")
      case True
      then have e: "(- (x * x * v)) mod fe_q = u mod fe_q"
        by (metis mod_eq_dvd_iff dvd_eq_mod_eq_0 add.commute diff_minus_eq_add minus_diff_eq dvd_minus_iff mod_0 uminus_add_conv_diff)
      have "(x * i * (x * i) * v) mod fe_q = (i * i * (x * x * v)) mod fe_q" by (simp add: mult_ac)
      also have "\<dots> = (- 1 * (x * x * v)) mod fe_q" by (rule mod_mult_cong [OF i(2) refl])
      also have "\<dots> = u mod fe_q" using e by simp
      finally have c: "on_curve (x * i) y" unfolding u_def v_def by (rule curve_of_equation)
      have "ge_frombytes_vartime s = ge_frombytes_sign s (fe_mul X fe_sqrtm1) Y fe_1"
        using nz True by (simp add: run)
      then show ?thesis using decoded_sign [of "fe_mul X fe_sqrtm1" "x * i" Y s] Xi Y c small unfolding y_def by simp
    next
      case False
      then show ?thesis using nz by (simp add: run)
    qed
  qed
qed

section \<open>Encoding what was decoded\<close>

lemma le_bytes_low_bits:
  assumes "length s = 32" "k < 32" "n < 8"
  shows "bit (le_bytes 32 (le_val s mod 2 ^ 255) ! k) n \<longleftrightarrow> bit (s ! k) n \<and> 8 * k + n < 255"
proof -
  have s: "s ! k = word_of_int (drop_bit (8 * k) (le_val s))"
    using le_bytes_le_val [OF assms(1)] assms(2) by (metis le_bytes_def nth_map_upt0)
  have "le_bytes 32 (le_val s mod 2 ^ 255) ! k = word_of_int (drop_bit (8 * k) (take_bit 255 (le_val s)))"
    using assms(2) by (simp only: le_bytes_def nth_map_upt0 take_bit_eq_mod)
  then show ?thesis unfolding s using assms(3) by (simp only: bit_word_of_int_iff bit_drop_bit_eq bit_take_bit_iff comp_def) auto
qed

lemma set_sign_value:
  assumes "length s = 32" "n = CI (if bit (s ! 31) 7 then 1 else 0)"
  shows "set_sign (le_bytes 32 (le_val s mod 2 ^ 255)) n = Some s"
proof -
  let ?b = "if bit (s ! 31) 7 then 128 else 0 :: u8"
  let ?t = "le_bytes 32 (le_val s mod 2 ^ 255)"
  have "to_u8 (shl (CI 1 :: i32) 7) = Some 128" "to_u8 (shl (CI 0 :: i32) 7) = Some 0" by code_simp+
  then have "to_u8 (shl n 7) = Some ?b" using assms(2) by simp
  moreover have "?t[31 := ?t ! 31 XOR ?b] = s"
  proof (rule nth_equalityI)
    fix k assume "k < length (?t[31 := ?t ! 31 XOR ?b])"
    then have k: "k < 32" by simp
    show "?t[31 := ?t ! 31 XOR ?b] ! k = s ! k"
    proof (rule bit_word_eqI)
      fix m assume "m < LENGTH(8)"
      then have m: "m < 8" by simp
      have b: "bit ?b m \<longleftrightarrow> m = 7 \<and> bit (s ! 31) 7"
      proof -
        have "m = 0 \<or> m = 1 \<or> m = 2 \<or> m = 3 \<or> m = 4 \<or> m = 5 \<or> m = 6 \<or> m = 7" using m by arith
        then show ?thesis by (elim disjE) simp_all
      qed
      show "bit (?t[31 := ?t ! 31 XOR ?b] ! k) m = bit (s ! k) m"
        using le_bytes_low_bits [OF assms(1) k m] k m
        by (cases "k = 31"; cases "m = 7") (auto simp: bit_xor_iff b)
    qed
  qed (use assms(1) in simp)
  ultimately show ?thesis by (simp add: set_sign_def)
qed

lemma decoded_encode:
  assumes s: "length s = 32" and d: "decoded s h x"
  shows "ge_p3_tobytes h = Some s"
proof -
  let ?y = "le_val s mod 2 ^ 255"
  have y: "?y < fe_q" "0 \<le> ?y" and X: "fe_is 101 (p3_X h) x" and Y: "fe_is 101 (p3_Y h) ?y" and Z: "p3_Z h = fe_1"
    and par: "odd (x mod fe_q) \<longleftrightarrow> bit (s ! 31) 7" using d by (simp_all add: decoded_def)
  have "fe_is 330 fe_1 1" by (simp add: fe_is_1)
  from fe_is_invert [OF this] have R: "fe_is 101 (fe_invert fe_1) 1" by (simp only: power_one)
  have "fe_is 220 (fe_mul (p3_X h) (fe_invert fe_1)) x" "fe_is 220 (fe_mul (p3_Y h) (fe_invert fe_1)) ?y"
    using fe_mul_rule [OF X R] fe_mul_rule [OF Y R] by (auto intro: fe_is_weaken)
  then have "fe_tobytes (fe_mul (p3_Y h) (fe_invert fe_1)) = Some (le_bytes 32 ?y)"
    "fe_isnegative (fe_mul (p3_X h) (fe_invert fe_1)) = CI (if bit (s ! 31) 7 then 1 else 0)"
    using fe_is_tobytes [of "fe_mul (p3_Y h) (fe_invert fe_1)" ?y] fe_isnegative_value [of "fe_mul (p3_X h) (fe_invert fe_1)" x]
    y par by (simp_all only: mod_pos_pos_trivial)
  then show ?thesis using set_sign_value [OF s refl] by (simp add: ge_p3_tobytes_def Z Let_def)
qed

section \<open>The properties of the encodings\<close>

text \<open>C11: on any 32 bytes \<open>ge_frombytes_vartime\<close> returns, without overflow and without a condition on an undefined
  value. It fails on every encoding of a number not below \<open>2^255 - 19\<close>; a point it returns lies on the curve, has the
  number in the low 255 bits as its second coordinate and the sign bit as the parity of its first.\<close>

theorem ge_frombytes_correct:
  assumes "length s = 32"
  shows "(fe_q \<le> le_val s mod 2 ^ 255 \<longrightarrow> ge_frombytes_vartime s = Fail) \<and> ge_frombytes_vartime s \<noteq> Abort \<and>
    (\<forall>h. ge_frombytes_vartime s = Done h \<longrightarrow>
       (\<exists>x. p3_point h (x, le_val s mod 2 ^ 255) \<and> on_curve x (le_val s mod 2 ^ 255) \<and>
         (odd (x mod fe_q) \<longleftrightarrow> bit (s ! 31) 7)))"
  using ge_frombytes_sound [OF assms] fe_noncanonical_iff [OF assms]
  by (auto simp: decoded_def ge_frombytes_vartime_def Let_def)

theorem ge_frombytes_correct_witness:
  "ge_frombytes_vartime (le_bytes 32 (2 ^ 255 - 19)) = Fail \<and> ge_frombytes_vartime (le_bytes 32 1) \<noteq> Abort"
  using ge_frombytes_correct [of "le_bytes 32 (2 ^ 255 - 19)"] ge_frombytes_correct [of "le_bytes 32 1"]
  by (simp add: le_val_le_bytes fe_q_def)

text \<open>C12: encoding reverses decoding: \<open>ge_p3_tobytes\<close> returns the 32 bytes from which
  \<open>ge_frombytes_vartime\<close> made the point, sign bit included.\<close>

theorem ge_bytes_roundtrip:
  assumes "length s = 32" "ge_frombytes_vartime s = Done h"
  shows "ge_p3_tobytes h = Some s"
  using ge_frombytes_sound [OF assms(1)] decoded_encode [OF assms(1)] assms(2) by auto

text \<open>The encoding of the neutral element decodes.\<close>

lemma ge_frombytes_one: "\<exists>h. ge_frombytes_vartime (le_bytes 32 1) = Done h"
proof -
  let ?s = "le_bytes 32 1"
  have v: "le_val ?s = 1" by (simp add: le_val_le_bytes)
  then have False: "\<not> fe_noncanonical (fe_load255 ?s)" using fe_noncanonical_iff [of ?s] by (simp add: fe_q_def)
  define Y where "Y = fe_load_carry (fe_load255 ?s)"
  have Y: "fe_is 101 Y 1" using fe_is_load255 [of ?s] by (simp add: Y_def v)
  have one: "fe_is 1 fe_1 1" "fe_is 101 fe_1 1" by (simp_all add: fe_is_1)
  define U where "U = fe_sub (fe_sq Y) fe_1"
  define V where "V = fe_add (fe_mul (fe_sq Y) fe_d) fe_1"
  have yy: "fe_is 101 (fe_sq Y) 1" using fe_sq_rule [OF Y] by simp
  have U: "fe_is 102 U 0" using fe_is_add_sub(2) [OF yy one(1)] by (simp add: U_def)
  have V: "fe_is 102 V (ed_d + 1)"
    using fe_is_add_sub(1) [OF fe_mul_rule [OF yy fe_is_d] one(1)] by (simp add: V_def)
  define X where "X = fe_divpowm1 U V"
  have X: "fe_is 101 X 0"
    using fe_is_divpowm1 [OF fe_is_weaken [OF U] fe_is_weaken [OF V]] by (simp add: X_def)
  define W where "W = fe_mul (fe_sq X) V"
  have W: "fe_is 101 W 0" using fe_mul_rule [OF fe_sq_rule [OF X] V] by (simp add: W_def)
  have "fe_is 220 (fe_sub W U) 0" using fe_is_add_sub(2) [OF W U] by (simp add: fe_is_weaken [of 203 _ _ 220])
  from fe_isnonzero_value [OF this]
  have r: "ge_frombytes_vartime ?s = ge_frombytes_sign ?s X Y fe_1"
    by (simp add: ge_frombytes_vartime_def Let_def False Y_def [symmetric] U_def [symmetric] V_def [symmetric]
      X_def [symmetric] W_def [symmetric])
  have "\<not> bit (?s ! 31) 7" by code_simp
  then show ?thesis using ge_frombytes_sign_value [OF X Y one(2), of ?s] r by auto
qed

theorem ge_bytes_roundtrip_witness:
  "\<exists>h. ge_frombytes_vartime (le_bytes 32 1) = Done h \<and> ge_p3_tobytes h = Some (le_bytes 32 1)"
  using ge_frombytes_one ge_bytes_roundtrip [of "le_bytes 32 1"] by auto

end
