(* ===== verification/Keccak.thy ===== *)
theory Keccak
  imports Prelude
begin

text \<open>
  keccak.c and hash.c: the permutation Keccak-f[1600] on 25 lanes, updated in place as the code does, the
  sponge around it, and the fast hash of CryptoNote, which is the sponge's first 32 bytes.
\<close>

section \<open>The permutation\<close>

definition ROTL64 :: "u64 \<Rightarrow> nat \<Rightarrow> u64" where
  "ROTL64 x y = push_bit y x OR drop_bit (64 - y) x"

definition keccakf_rndc :: "u64 list" where
  "keccakf_rndc =
    [0x0000000000000001, 0x0000000000008082, 0x800000000000808a,
     0x8000000080008000, 0x000000000000808b, 0x0000000080000001,
     0x8000000080008081, 0x8000000000008009, 0x000000000000008a,
     0x0000000000000088, 0x0000000080008009, 0x000000008000000a,
     0x000000008000808b, 0x800000000000008b, 0x8000000000008089,
     0x8000000000008003, 0x8000000000008002, 0x8000000000000080,
     0x000000000000800a, 0x800000008000000a, 0x8000000080008081,
     0x8000000000008080, 0x0000000080000001, 0x8000000080008008]"

definition keccakf_rotc :: "nat list" where
  "keccakf_rotc =
    [1, 3, 6, 10, 15, 21, 28, 36, 45, 55, 2, 14,
     27, 41, 56, 8, 25, 43, 62, 18, 39, 61, 20, 44]"

definition keccakf_piln :: "nat list" where
  "keccakf_piln =
    [10, 7, 11, 17, 18, 3, 5, 16, 8, 21, 24, 4,
     15, 23, 19, 13, 12, 2, 20, 14, 22, 9, 6, 1]"

type_synonym lanes = "u64 list"

definition keccak_theta :: "lanes \<Rightarrow> lanes" where
  "keccak_theta st =
     (let bc = map (\<lambda>i. st ! i XOR st ! (i + 5) XOR st ! (i + 10) XOR st ! (i + 15) XOR st ! (i + 20)) [0..<5]
      in fold (\<lambda>i st. let t = bc ! ((i + 4) mod 5) XOR ROTL64 (bc ! ((i + 1) mod 5)) 1
                      in fold (\<lambda>j st. st[j + i := st ! (j + i) XOR t]) [0, 5, 10, 15, 20] st) [0..<5] st)"

text \<open>\<open>j = keccakf_piln[i]; bc[0] = st[j]; st[j] = ROTL64(t, keccakf_rotc[i]); t = bc[0];\<close>\<close>

definition rho_pi_step :: "nat \<Rightarrow> lanes \<times> u64 \<Rightarrow> lanes \<times> u64" where
  "rho_pi_step i stt =
     (let (st, t) = stt;
          j = keccakf_piln ! i
      in (st[j := ROTL64 t (keccakf_rotc ! i)], st ! j))"

definition keccak_rho_pi :: "lanes \<Rightarrow> lanes" where
  "keccak_rho_pi st = fst (fold rho_pi_step [0..<24] (st, st ! 1))"

definition keccak_chi :: "lanes \<Rightarrow> lanes" where
  "keccak_chi st =
     fold (\<lambda>j st. let bc = map (\<lambda>i. st ! (j + i)) [0..<5]
                  in fold (\<lambda>i st. st[j + i := st ! (j + i) XOR (NOT (bc ! ((i + 1) mod 5)) AND bc ! ((i + 2) mod 5))])
                       [0..<5] st) [0, 5, 10, 15, 20] st"

definition keccak_round :: "nat \<Rightarrow> lanes \<Rightarrow> lanes" where
  "keccak_round r st =
     (let st = keccak_chi (keccak_rho_pi (keccak_theta st))
      in st[0 := st ! 0 XOR keccakf_rndc ! r])"

definition keccakf :: "lanes \<Rightarrow> nat \<Rightarrow> lanes" where
  "keccakf st rounds = fold keccak_round [0..<rounds] st"

section \<open>The hash\<close>

text \<open>\<open>((uint64_t *) p)[i]\<close> on a little-endian host.\<close>

definition load64 :: "u8 list \<Rightarrow> nat \<Rightarrow> u64" where
  "load64 p i = word_of_int (le_val (take 8 (drop (8 * i) p)))"

definition lane_bytes :: "lanes \<Rightarrow> u8 list" where
  "lane_bytes st = concat (map (\<lambda>w. le_bytes 8 (uint w)) st)"

definition xor_block :: "nat \<Rightarrow> u8 list \<Rightarrow> lanes \<Rightarrow> lanes" where
  "xor_block rsizw p st = fold (\<lambda>i st. st[i := st ! i XOR load64 p i]) [0..<rsizw] st"

definition HASH_DATA_AREA :: nat where
  "HASH_DATA_AREA = 136"

text \<open>The loop over full blocks: the state and what is left of the input.\<close>

function keccak_absorb :: "nat \<Rightarrow> lanes \<Rightarrow> u8 list \<Rightarrow> lanes \<times> u8 list" where
  "keccak_absorb rsiz st inp =
     (if 0 < rsiz \<and> rsiz \<le> length inp
      then keccak_absorb rsiz (keccakf (xor_block (rsiz div 8) inp st) 24) (drop rsiz inp)
      else (st, inp))"
  by auto

termination by (relation "measure (\<lambda>(rsiz, st, inp). length inp)") auto

declare keccak_absorb.simps [simp del]

text \<open>The last block in \<open>temp\<close>.\<close>

definition keccak_last :: "nat \<Rightarrow> u8 list \<Rightarrow> u8 list" where
  "keccak_last rsiz inp =
     (let temp = inp @ 1 # replicate (rsiz - Suc (length inp)) 0
      in temp[rsiz - 1 := temp ! (rsiz - 1) OR 0x80])"

text \<open>\<open>inlen\<close> and \<open>mdlen\<close> are of type \<open>int\<close>. The call is undefined, and the result \<open>None\<close>, where the buffer is
  shorter than \<open>inlen\<close>, where a negative \<open>inlen\<close> becomes the size of a \<open>memcpy\<close>, where the rate is not positive (the
  loop does not end or runs off the input) and where it is above 144, so that the last block does not fit in
  \<open>temp\<close>.\<close>

definition keccak :: "u8 list \<Rightarrow> int \<Rightarrow> int \<Rightarrow> u8 list option" where
  "keccak inp inlen mdlen =
     (let rsiz = (if mdlen = 200 then int HASH_DATA_AREA else 200 - 2 * mdlen)
      in if inlen < 0 \<or> int (length inp) < inlen \<or> rsiz \<le> 0 \<or> 144 < rsiz then None
         else
           (let rsiz = nat rsiz;
                rsizw = rsiz div 8;
                (st, inp) = keccak_absorb rsiz (replicate 25 0) (take (nat inlen) inp);
                st = xor_block rsizw (keccak_last rsiz inp) st;
                st = keccakf st 24
            in Some (take (nat mdlen) (lane_bytes st))))"

definition keccak1600 :: "u8 list \<Rightarrow> int \<Rightarrow> u8 list option" where
  "keccak1600 inp inlen = keccak inp inlen 200"

section \<open>hash.c\<close>

text \<open>A \<open>size_t\<close> passed as an \<open>int\<close> parameter keeps its low 32 bits.\<close>

definition size_to_int :: "nat \<Rightarrow> int" where
  "size_to_int n = signed_take_bit 31 (int n)"

definition hash_permutation :: "lanes \<Rightarrow> lanes" where
  "hash_permutation state = keccakf state 24"

definition hash_process :: "u8 list \<Rightarrow> nat \<Rightarrow> u8 list option" where
  "hash_process buf count = keccak1600 buf (size_to_int count)"

definition HASH_SIZE :: nat where
  "HASH_SIZE = 32"

definition cn_fast_hash :: "u8 list \<Rightarrow> nat \<Rightarrow> u8 list option" where
  "cn_fast_hash data len = map_option (take HASH_SIZE) (hash_process data len)"

end
