(* ===== verification/Tree_Hash.thy ===== *)
theory Tree_Hash
  imports Keccak
begin

text \<open>
  tree-hash.c: the root of the hash tree of a block's transactions. The buffers are flat byte arrays, a row of
  32 bytes for each hash, so that a hash over two adjacent rows reads 64 bytes from the first, and the levels of
  the tree are computed in place. Failed assertions and accesses outside a buffer are \<open>None\<close>. The hash function
  is an argument of the loops; \<open>tree_hash\<close> passes \<open>cn_fast_hash\<close>.
\<close>

section \<open>Buffers of rows\<close>

text \<open>\<open>memcpy\<close> from and to a buffer.\<close>

definition read_at :: "u8 list \<Rightarrow> nat \<Rightarrow> nat \<Rightarrow> u8 list option" where
  "read_at buf off n = (if off + n \<le> length buf then Some (take n (drop off buf)) else None)"

definition write_at :: "nat \<Rightarrow> u8 list \<Rightarrow> u8 list \<Rightarrow> u8 list option" where
  "write_at off bs buf =
     (if off + length bs \<le> length buf then Some (take off buf @ bs @ drop (off + length bs) buf) else None)"

section \<open>The number of nodes of the first level\<close>

definition ispowerof2_size_t :: "u64 \<Rightarrow> bool" where
  "ispowerof2_size_t x \<longleftrightarrow> x \<noteq> 0 \<and> x AND (x - 1) = 0"

text \<open>\<open>for (jj = 1; tmp != 0; ++jj) tmp /= 2\<close>\<close>

function tree_hash_log :: "u64 \<Rightarrow> nat \<Rightarrow> nat" where
  "tree_hash_log tmp jj = (if tmp \<noteq> 0 then tree_hash_log (tmp div 2) (Suc jj) else jj)"
  by auto

termination
proof (relation "measure (\<lambda>(tmp, jj). unat tmp)")
  fix tmp :: u64
  assume "tmp \<noteq> 0"
  then have "0 < unat tmp" by (simp add: unat_gt_0)
  then have "unat (tmp div 2) < unat tmp" by (simp add: unat_div)
  then show "((tmp div 2, Suc jj), tmp, jj) \<in> measure (\<lambda>(tmp, jj). unat tmp)" for jj by simp
qed simp

declare tree_hash_log.simps [simp del]

definition tree_hash_cnt :: "u64 \<Rightarrow> u64 option" where
  "tree_hash_cnt count =
     (if count < 3 then None
      else
        (let jj = tree_hash_log (count - 1) 1;
             cnt = push_bit (jj - 2) 1
         in if 0 < cnt \<and> count div 2 \<le> cnt \<and> cnt \<le> count \<and> ispowerof2_size_t cnt then Some cnt else None))"

section \<open>The levels of the tree\<close>

text \<open>\<open>for (i = \<dots>, j = \<dots>; j < cnt; i += 2, ++j) cn_fast_hash(src[i], 64, ints[j])\<close> of the first level, which reads
  \<open>hashes\<close>; the result is \<open>ints\<close> and the last \<open>i\<close>.\<close>

function tree_hash_first ::
    "(u8 list \<Rightarrow> nat \<Rightarrow> u8 list option) \<Rightarrow> u8 list \<Rightarrow> nat \<Rightarrow> nat \<Rightarrow> nat \<Rightarrow> u8 list \<Rightarrow> (u8 list \<times> nat) option" where
  "tree_hash_first H hashes cnt i j ints =
     (if j < cnt then
        Option.bind (H (drop (32 * i) hashes) 64) (\<lambda>h.
        Option.bind (write_at (32 * j) h ints) (\<lambda>ints. tree_hash_first H hashes cnt (i + 2) (Suc j) ints))
      else Some (ints, i))"
  by auto

termination by (relation "measure (\<lambda>(H, hashes, cnt, i, j, ints). cnt - j)") auto

text \<open>The same loop of the other levels, which read and write \<open>ints\<close>.\<close>

function tree_hash_level ::
    "(u8 list \<Rightarrow> nat \<Rightarrow> u8 list option) \<Rightarrow> nat \<Rightarrow> nat \<Rightarrow> nat \<Rightarrow> u8 list \<Rightarrow> u8 list option" where
  "tree_hash_level H cnt i j ints =
     (if j < cnt then
        Option.bind (H (drop (32 * i) ints) 64) (\<lambda>h.
        Option.bind (write_at (32 * j) h ints) (\<lambda>ints. tree_hash_level H cnt (i + 2) (Suc j) ints))
      else Some ints)"
  by auto

termination by (relation "measure (\<lambda>(H, cnt, i, j, ints). cnt - j)") auto

text \<open>\<open>while (cnt > 2) { cnt >>= 1; \<dots> }\<close>\<close>

function tree_hash_levels :: "(u8 list \<Rightarrow> nat \<Rightarrow> u8 list option) \<Rightarrow> nat \<Rightarrow> u8 list \<Rightarrow> u8 list option" where
  "tree_hash_levels H cnt ints =
     (if 2 < cnt then
        Option.bind (tree_hash_level H (cnt div 2) 0 0 ints) (\<lambda>ints. tree_hash_levels H (cnt div 2) ints)
      else Some ints)"
  by auto

termination by (relation "measure (\<lambda>(H, cnt, ints). cnt)") auto

declare tree_hash_first.simps [simp del] tree_hash_level.simps [simp del] tree_hash_levels.simps [simp del]

section \<open>The root\<close>

text \<open>\<open>count\<close> and all sizes are \<open>size_t\<close>; the result is the content of \<open>root_hash\<close>.\<close>

definition tree_hash_with :: "(u8 list \<Rightarrow> nat \<Rightarrow> u8 list option) \<Rightarrow> u8 list \<Rightarrow> u64 \<Rightarrow> u8 list option" where
  "tree_hash_with H hashes count =
     (if count = 0 then None
      else if count = 1 then read_at hashes 0 HASH_SIZE
      else if count = 2 then H hashes (2 * HASH_SIZE)
      else
        Option.bind (tree_hash_cnt count) (\<lambda>cnt.
          if \<not> cnt < (- 1) div 2 then None
          else
            (let ints = replicate (unat (cnt * 32)) 0;
                 i = 2 * cnt - count
             in Option.bind (read_at hashes 0 (unat (i * 32))) (\<lambda>bs.
                Option.bind (write_at 0 bs ints) (\<lambda>ints.
                Option.bind (tree_hash_first H hashes (unat cnt) (unat i) (unat i) ints) (\<lambda>(ints, i).
                  if i \<noteq> unat count then None
                  else Option.bind (tree_hash_levels H (unat cnt) ints) (\<lambda>ints. H ints 64)))))))"

definition tree_hash :: "u8 list \<Rightarrow> u64 \<Rightarrow> u8 list option" where
  "tree_hash hashes count = tree_hash_with cn_fast_hash hashes count"

end
