(* ===== verification/Keccak_Proofs.thy ===== *)
theory Keccak_Proofs
  imports Keccak
begin

text \<open>
  The in-place permutation of keccak.c is Keccak-f[1600] of FIPS 202, its tables being those the standard
  derives. The sponge is specified on byte strings, with the padding of the original submission; the code computes it
  for every rate of whole words that the interface allows, loses the last bytes of each block where the rate is not
  of whole words, and is undefined exactly outside the interface.
\<close>

section \<open>The permutation of the standard\<close>

text \<open>FIPS 202, section 3.2, on lanes: \<open>A x y\<close> for \<open>x, y < 5\<close>, indices modulo 5. Moving a lane along \<open>z\<close> is the rotation
  of the library of words.\<close>

type_synonym keccak_state = "nat \<Rightarrow> nat \<Rightarrow> u64"

definition spec_theta :: "keccak_state \<Rightarrow> keccak_state" where
  "spec_theta A =
     (let C = (\<lambda>x. A x 0 XOR A x 1 XOR A x 2 XOR A x 3 XOR A x 4);
          D = (\<lambda>x. C ((x + 4) mod 5) XOR word_rotl 1 (C ((x + 1) mod 5)))
      in (\<lambda>x y. A x y XOR D x))"

text \<open>The walk \<open>(x, y) := (y, 2 x + 3 y)\<close> from \<open>(1, 0)\<close>; step \<open>t\<close> rotates by \<open>(t + 1) (t + 2) / 2\<close>.\<close>

definition rho_walk :: "nat \<Rightarrow> nat \<times> nat" where
  "rho_walk t = ((\<lambda>(x, y). (y, (2 * x + 3 * y) mod 5)) ^^ t) (1, 0)"

definition rho_offset :: "nat \<Rightarrow> nat \<Rightarrow> nat" where
  "rho_offset x y = (if x = 0 \<and> y = 0 then 0
     else the (map_of (map (\<lambda>t. (rho_walk t, (t + 1) * (t + 2) div 2 mod 64)) [0..<24]) (x, y)))"

definition spec_rho :: "keccak_state \<Rightarrow> keccak_state" where
  "spec_rho A = (\<lambda>x y. word_rotl (rho_offset x y) (A x y))"

definition spec_pi :: "keccak_state \<Rightarrow> keccak_state" where
  "spec_pi A = (\<lambda>x y. A ((x + 3 * y) mod 5) x)"

definition spec_chi :: "keccak_state \<Rightarrow> keccak_state" where
  "spec_chi A = (\<lambda>x y. A x y XOR (NOT (A ((x + 1) mod 5) y) AND A ((x + 2) mod 5) y))"

text \<open>The round constants come from the register \<open>x^8 + x^6 + x^5 + x^4 + 1\<close>, its bits from the lowest.\<close>

fun lfsr_next :: "bool list \<Rightarrow> bool list" where
  "lfsr_next [r0, r1, r2, r3, r4, r5, r6, r7] = [r7, r0, r1, r2, r3 \<noteq> r7, r4 \<noteq> r7, r5 \<noteq> r7, r6]"
| "lfsr_next _ = []"

definition lfsr :: "nat \<Rightarrow> bool list" where
  "lfsr t = (lfsr_next ^^ t) [True, False, False, False, False, False, False, False]"

definition spec_constant :: "nat \<Rightarrow> int" where
  "spec_constant i = (\<Sum>j\<leftarrow>[0..<7]. if hd (lfsr (j + 7 * i)) then 2 ^ (2 ^ j - 1) else 0)"

definition spec_iota :: "nat \<Rightarrow> keccak_state \<Rightarrow> keccak_state" where
  "spec_iota i A = (\<lambda>x y. if x = 0 \<and> y = 0 then A 0 0 XOR word_of_int (spec_constant i) else A x y)"

definition spec_round :: "nat \<Rightarrow> keccak_state \<Rightarrow> keccak_state" where
  "spec_round i A = spec_iota i (spec_chi (spec_pi (spec_rho (spec_theta A))))"

text \<open>Lane \<open>(x, y)\<close> is \<open>st[x + 5 y]\<close>.\<close>

definition lanes_of :: "lanes \<Rightarrow> keccak_state" where
  "lanes_of st = (\<lambda>x y. st ! (x + 5 * y))"

definition same_lanes :: "keccak_state \<Rightarrow> keccak_state \<Rightarrow> bool" where
  "same_lanes A B \<longleftrightarrow> (\<forall>x<5. \<forall>y<5. A x y = B x y)"

text \<open>The rotation of the code.\<close>

lemma ROTL64_rot: "n < 64 \<Longrightarrow> ROTL64 w n = word_rotl n w"
  using rotl_shifts [of n w] by (simp add: ROTL64_def)

text \<open>A loop that updates each of its positions once.\<close>

lemma fold_update_length [simp]: "length (fold (\<lambda>i st. st[h i := g i st]) is st) = length st"
  by (induction "is" arbitrary: st) simp_all

lemma fold_update_nth:
  assumes "distinct is" "inj h" "\<forall>i\<in>set is. h i < length st"
  shows "fold (\<lambda>i st. st[h i := f i (st ! h i)]) is st ! k =
    (if k \<in> h ` set is then f (the_inv h k) (st ! k) else st ! k)"
  using assms
proof (induction "is" arbitrary: st)
  case (Cons i "is")
  then show ?case
    by (cases "k = h i") (auto simp: the_inv_f_f inj_image_mem_iff dest: injD)
qed simp

text \<open>The iterates of a function, computed one after the other.\<close>

primrec iterates :: "('a \<Rightarrow> 'a) \<Rightarrow> 'a \<Rightarrow> nat \<Rightarrow> 'a list" where
  "iterates f x 0 = []"
| "iterates f x (Suc n) = x # iterates f (f x) n"

lemma iterates_eq: "map (\<lambda>t. (f ^^ t) x) [k..<k + n] = iterates f ((f ^^ k) x) n"
proof (induction n arbitrary: k)
  case (Suc n)
  from this [of "Suc k"] show ?case by (simp add: upt_rec)
qed simp

lemma iterates_numeral: "iterates f x (numeral k) = x # iterates f (f x) (pred_numeral k)"
  by (simp add: numeral_eq_Suc)

lemma upt_24: "[0..<24] = [0, 1, 2, 3, 4, 5, 6, 7, 8, 9, 10, 11, 12, 13, 14, 15, 16, 17, 18, 19, 20, 21, 22, 23::nat]"
  by (simp add: upt_rec)

lemma upt_7: "[0..<7] = [0, 1, 2, 3, 4, 5, 6::nat]"
  by (simp add: upt_rec)

lemma all_24: "(\<forall>i<24. P i) \<longleftrightarrow> (\<forall>i\<in>set [0, 1, 2, 3, 4, 5, 6, 7, 8, 9, 10, 11, 12, 13, 14, 15, 16, 17, 18, 19, 20, 21, 22, 23]. P (i::nat))"
  unfolding upt_24 [symmetric] by (simp add: Ball_def del: upt_rec_numeral)

definition lfsr_table :: "bool list" where
  "lfsr_table =
  [True, False, False, False, False, False, False, False, True, False, True, True, False, False,
   False, True, True, True, True, False, True, False, False, False, False, True, True, True,
   True, True, True, True, True, False, False, True, False, False, False, False, True, False,
   True, False, False, True, True, True, True, True, False, True, False, True, False, True,
   False, True, True, True, False, False, False, False, False, True, True, False, False, False,
   True, False, True, False, True, True, False, False, True, True, False, False, True, False,
   True, True, True, True, True, True, False, True, True, True, True, False, False, True,
   True, False, True, True, True, False, True, True, True, False, False, True, False, True,
   False, True, False, False, True, False, True, False, False, False, True, False, False, True,
   False, True, True, False, True, False, False, False, True, True, False, False, True, True,
   True, False, False, True, True, True, True, False, False, False, True, True, False, True,
   True, False, False, False, False, True, False, False, False, True, False, True, True, True]"

lemma lfsr_table: "t < 168 \<Longrightarrow> hd (lfsr t) = lfsr_table ! t"
proof -
  assume t: "t < 168"
  have "map hd (map lfsr [0..<168]) = lfsr_table"
    using iterates_eq [of lfsr_next "[True, False, False, False, False, False, False, False]" 0 168]
    by (simp add: lfsr_def [symmetric] iterates_numeral lfsr_table_def del: upt_rec_numeral map_map)
  from arg_cong [OF this, of "\<lambda>l. l ! t"] show ?thesis using t by (simp del: upt_rec_numeral)
qed

lemma constants_ok: "\<forall>i<24. keccakf_rndc ! i = word_of_int (spec_constant i)"
proof -
  have "spec_constant i = (\<Sum>j\<leftarrow>[0..<7]. if lfsr_table ! (j + 7 * i) then 2 ^ (2 ^ j - 1) else 0)" if "i < 24" for i
    unfolding spec_constant_def using that by (intro arg_cong [of _ _ sum_list] map_cong) (auto simp: lfsr_table)
  then have "(\<forall>i<24. keccakf_rndc ! i = word_of_int (spec_constant i)) \<longleftrightarrow>
      (\<forall>i<24. keccakf_rndc ! i = word_of_int (\<Sum>j\<leftarrow>[0..<7]. if lfsr_table ! (j + 7 * i) then 2 ^ (2 ^ j - 1) else 0))" by simp
  also have "\<dots>" unfolding all_24 upt_7 by (simp add: lfsr_table_def keccakf_rndc_def)
  finally show ?thesis .
qed

lemma all_5: "(\<forall>x<5. P x) \<longleftrightarrow> P 0 \<and> P 1 \<and> P 2 \<and> P 3 \<and> P (4::nat)"
  by (auto simp: less_Suc_eq numeral_eq_Suc)

lemma upt_5: "[0..<5] = [0, 1, 2, 3, 4::nat]"
  by (simp add: upt_rec)

lemma inj_plus: "inj (\<lambda>j. j + i :: nat)" "inj (\<lambda>j. i + j :: nat)"
  by (simp_all add: inj_def)

lemma the_inv_plus: "the_inv (\<lambda>j. j + i :: nat) (k + i) = k" "the_inv (\<lambda>j. i + j :: nat) (i + k) = k"
  using the_inv_f_f [OF inj_plus(1)] the_inv_f_f [OF inj_plus(2)] by auto

lemma theta_column:
  assumes "length st = 25" "i < 5" "x < 5" "y < 5"
  shows "fold (\<lambda>j st. st[j + i := st ! (j + i) XOR t]) [0, 5, 10, 15, 20] st ! (x + 5 * y) =
    (if x = i then st ! (x + 5 * y) XOR t else st ! (x + 5 * y))"
proof -
  have m: "x + 5 * y \<in> (\<lambda>j. j + i) ` set [0, 5, 10, 15, 20] \<longleftrightarrow> x = i"
  proof
    assume "x + 5 * y \<in> (\<lambda>j. j + i) ` set [0, 5, 10, 15, 20]"
    then show "x = i" using assms by simp presburger
  next
    assume "x = i"
    moreover have "5 * y \<in> set [0, 5, 10, 15, 20]" using assms(4) by (simp, presburger)
    ultimately show "x + 5 * y \<in> (\<lambda>j. j + i) ` set [0, 5, 10, 15, 20]" by (intro image_eqI [of _ _ "5 * y"]) simp_all
  qed
  show ?thesis
    using fold_update_nth [of "[0, 5, 10, 15, 20]" "\<lambda>j. j + i" st "\<lambda>_ w. w XOR t" "x + 5 * y"] assms inj_plus(1) [of i]
    unfolding m by simp
qed

lemma theta_ok: "length st = 25 \<Longrightarrow> same_lanes (lanes_of (keccak_theta st)) (spec_theta (lanes_of st))"
proof -
  assume len: "length st = 25"
  define bc where "bc = map (\<lambda>i. st ! i XOR st ! (i + 5) XOR st ! (i + 10) XOR st ! (i + 15) XOR st ! (i + 20)) [0..<5]"
  define T where "T i = bc ! ((i + 4) mod 5) XOR ROTL64 (bc ! ((i + 1) mod 5)) 1" for i
  define R where "R i st = fold (\<lambda>j st. st[j + i := st ! (j + i) XOR T i]) [0, 5, 10, 15, 20] st" for i and st :: lanes
  have R: "length (R i s) = length s" for i s unfolding R_def by (rule fold_update_length)
  have "length (fold R [0..<n] st) = 25 \<and> (\<forall>x<5. \<forall>y<5. fold R [0..<n] st ! (x + 5 * y) =
      (if x < n then st ! (x + 5 * y) XOR T x else st ! (x + 5 * y)))" if "n \<le> 5" for n
    using that
  proof (induction n)
    case (Suc n)
    have at: "R n s ! (x + 5 * y) = (if x = n then s ! (x + 5 * y) XOR T n else s ! (x + 5 * y))"
      if "length s = 25" "x < 5" "y < 5" for s x y
      using theta_column [OF that(1) _ that(2,3), of n "T n"] Suc.prems unfolding R_def by simp
    show ?case using Suc at [of "fold R [0..<n] st"] by (auto simp: R less_Suc_eq)
  qed (use len in simp)
  from this [of 5] have "\<forall>x<5. \<forall>y<5. fold R [0..<5] st ! (x + 5 * y) = st ! (x + 5 * y) XOR T x" by simp
  moreover have "keccak_theta st = fold R [0..<5] st"
    by (simp only: keccak_theta_def Let_def bc_def [symmetric] T_def [symmetric] R_def [abs_def])
  ultimately have "\<forall>x<5. \<forall>y<5. keccak_theta st ! (x + 5 * y) = st ! (x + 5 * y) XOR T x" by simp
  moreover have "bc ! i = st ! i XOR st ! (i + 5) XOR st ! (i + 10) XOR st ! (i + 15) XOR st ! (i + 20)" if "i < 5" for i
    using that by (simp add: bc_def)
  ultimately show ?thesis
    by (simp add: same_lanes_def lanes_of_def spec_theta_def Let_def T_def ROTL64_rot)
qed

lemma chi_row:
  assumes "length st = 25" "j < 5" "x < 5" "y < 5"
  defines "bc \<equiv> map (\<lambda>i. st ! (5 * j + i)) [0..<5]"
  shows "fold (\<lambda>i st. st[5 * j + i := st ! (5 * j + i) XOR (NOT (bc ! ((i + 1) mod 5)) AND bc ! ((i + 2) mod 5))]) [0..<5] st ! (x + 5 * y) =
    (if y = j then st ! (x + 5 * y) XOR (NOT (st ! ((x + 1) mod 5 + 5 * y)) AND st ! ((x + 2) mod 5 + 5 * y)) else st ! (x + 5 * y))"
proof -
  have m: "x + 5 * y \<in> (\<lambda>i. 5 * j + i) ` set [0..<5] \<longleftrightarrow> y = j"
  proof
    assume "x + 5 * y \<in> (\<lambda>i. 5 * j + i) ` set [0..<5]"
    then obtain i where "i \<in> set [0..<5]" "x + 5 * y = 5 * j + i" by blast
    then show "y = j" using assms(3) by (simp del: upt_rec_numeral)
  qed (use assms(3) in \<open>auto intro: image_eqI [of _ _ x]\<close>)
  have b: "bc ! (z mod 5) = st ! (z mod 5 + 5 * j)" for z by (simp add: bc_def add.commute)
  have inv: "y = j \<Longrightarrow> the_inv (\<lambda>i. 5 * j + i) (x + 5 * y) = x" using the_inv_plus(2) [of "5 * j" x] by (simp add: add.commute)
  show ?thesis
    using fold_update_nth [of "[0..<5]" "\<lambda>i. 5 * j + i" st
        "\<lambda>i w. w XOR (NOT (bc ! ((i + 1) mod 5)) AND bc ! ((i + 2) mod 5))" "x + 5 * y"]
      assms(1,2) inj_plus(2) [of "5 * j"] inv
    unfolding m b by auto
qed

lemma chi_ok: "length st = 25 \<Longrightarrow> same_lanes (lanes_of (keccak_chi st)) (spec_chi (lanes_of st))"
proof -
  assume len: "length st = 25"
  define R where "R j st = (let bc = map (\<lambda>i. st ! (5 * j + i)) [0..<5]
    in fold (\<lambda>i st. st[5 * j + i := st ! (5 * j + i) XOR (NOT (bc ! ((i + 1) mod 5)) AND bc ! ((i + 2) mod 5))]) [0..<5] st)" for j and st :: lanes
  have R: "length (R j s) = length s" for j s by (simp add: R_def Let_def del: upt_rec_numeral)
  have at: "R j s ! (x + 5 * y) = (if y = j then s ! (x + 5 * y) XOR (NOT (s ! ((x + 1) mod 5 + 5 * y)) AND s ! ((x + 2) mod 5 + 5 * y))
      else s ! (x + 5 * y))" if "length s = 25" "j < 5" "x < 5" "y < 5" for j s x y
    using chi_row [OF that] by (simp only: R_def Let_def)
  have "length (fold R [0..<n] st) = 25 \<and> (\<forall>x<5. \<forall>y<5. fold R [0..<n] st ! (x + 5 * y) =
      (if y < n then st ! (x + 5 * y) XOR (NOT (st ! ((x + 1) mod 5 + 5 * y)) AND st ! ((x + 2) mod 5 + 5 * y)) else st ! (x + 5 * y)))"
    if "n \<le> 5" for n
    using that
  proof (induction n)
    case (Suc n)
    then show ?case using at [of "fold R [0..<n] st" n] by (auto simp: R less_Suc_eq)
  qed (use len in simp)
  from this [of 5] have "\<forall>x<5. \<forall>y<5. fold R [0..<5] st ! (x + 5 * y) =
      st ! (x + 5 * y) XOR (NOT (st ! ((x + 1) mod 5 + 5 * y)) AND st ! ((x + 2) mod 5 + 5 * y))" by simp
  moreover have "keccak_chi st = fold R [0..<5] st"
  proof -
    have js: "[0, 5, 10, 15, 20] = map ((*) 5) [0..<5::nat]" by (simp add: upt_5)
    show ?thesis unfolding keccak_chi_def js fold_map R_def [abs_def] by (simp only: comp_def)
  qed
  ultimately show ?thesis by (simp add: same_lanes_def lanes_of_def spec_chi_def)
qed
text \<open>The source of step \<open>i\<close> of the in-place rotation and permutation.\<close>

definition rho_pi_source :: "nat \<Rightarrow> nat" where
  "rho_pi_source i = (if i = 0 then 1 else keccakf_piln ! (i - 1))"

lemma piln_facts: "length keccakf_piln = 24" "distinct keccakf_piln" "set keccakf_piln = {1..<25}"
  "\<forall>i<24. keccakf_piln ! i < 25"
proof -
  show len: "length keccakf_piln = 24" and "distinct keccakf_piln" by (simp_all add: keccakf_piln_def)
  have "set keccakf_piln \<subseteq> {1..<25}" by (simp add: keccakf_piln_def)
  moreover have "card (set keccakf_piln) = card {1..<25::nat}"
    using distinct_card [of keccakf_piln] by (simp add: keccakf_piln_def)
  ultimately show set: "set keccakf_piln = {1..<25}" by (intro card_subset_eq) simp_all
  show "\<forall>i<24. keccakf_piln ! i < 25" using nth_mem [of _ keccakf_piln] unfolding len set by auto
qed

definition rho_table :: "((nat \<times> nat) \<times> nat) list" where
  "rho_table =
  [((1, 0), 1), ((0, 2), 3), ((2, 1), 6), ((1, 2), 10), ((2, 3), 15), ((3, 3), 21), ((3, 0), 28), ((0, 1), 36),
   ((1, 3), 45), ((3, 1), 55), ((1, 4), 2), ((4, 4), 14), ((4, 0), 27), ((0, 3), 41), ((3, 4), 56), ((4, 3), 8),
   ((3, 2), 25), ((2, 2), 43), ((2, 0), 62), ((0, 4), 18), ((4, 2), 39), ((2, 4), 61), ((4, 1), 20), ((1, 1), 44)]"

lemma rho_offset_table: "rho_offset x y = (if x = 0 \<and> y = 0 then 0 else the (map_of rho_table (x, y)))"
proof -
  have "map rho_walk [0..<24] = map fst rho_table"
    using iterates_eq [of "\<lambda>(x, y :: nat). (y, (2 * x + 3 * y) mod 5)" "(1, 0)" 0 24]
    by (simp add: rho_walk_def [abs_def] iterates_numeral rho_table_def del: upt_rec_numeral)
  moreover have "map (\<lambda>t. (t + 1) * (t + 2) div 2 mod 64) [0..<24] = map snd rho_table"
    unfolding upt_24 by (simp add: rho_table_def)
  moreover have "map (\<lambda>t. (f t, g t)) l = zip (map f l) (map g l)" for f :: "nat \<Rightarrow> nat \<times> nat" and g :: "nat \<Rightarrow> nat" and l
    by (induction l) simp_all
  ultimately have "map (\<lambda>t. (rho_walk t, (t + 1) * (t + 2) div 2 mod 64)) [0..<24] = rho_table"
    by (simp only: zip_map_fst_snd)
  then show ?thesis by (simp only: rho_offset_def)
qed

lemma rho_pi_table: "\<forall>i<24. (let x = keccakf_piln ! i mod 5; y = keccakf_piln ! i div 5 in
    rho_pi_source i = (x + 3 * y) mod 5 + 5 * x \<and> rho_offset ((x + 3 * y) mod 5) x = keccakf_rotc ! i \<and> keccakf_rotc ! i < 64)"
  unfolding all_24 rho_offset_table
  by (simp add: rho_table_def rho_pi_source_def keccakf_piln_def keccakf_rotc_def Let_def)

lemma rho_pi_steps:
  assumes "length st = 25" "n \<le> 24"
  shows "\<exists>s. fold rho_pi_step [0..<n] (st, st ! 1) = (s, st ! rho_pi_source n) \<and> length s = 25 \<and>
      (\<forall>i<n. s ! (keccakf_piln ! i) = ROTL64 (st ! rho_pi_source i) (keccakf_rotc ! i)) \<and>
      (\<forall>k<25. k \<notin> (!) keccakf_piln ` {..<n} \<longrightarrow> s ! k = st ! k)"
  using assms(2)
proof (induction n)
  case (Suc n)
  then obtain s where F: "fold rho_pi_step [0..<n] (st, st ! 1) = (s, st ! rho_pi_source n)"
    and I: "length s = 25" "\<And>i. i < n \<Longrightarrow> s ! (keccakf_piln ! i) = ROTL64 (st ! rho_pi_source i) (keccakf_rotc ! i)"
    "\<And>k. k < 25 \<Longrightarrow> k \<notin> (!) keccakf_piln ` {..<n} \<Longrightarrow> s ! k = st ! k"
    by auto
  let ?j = "keccakf_piln ! n" and ?w = "ROTL64 (st ! rho_pi_source n) (keccakf_rotc ! n)"
  have j: "?j < 25" using piln_facts(4) Suc.prems by simp
  have ne: "keccakf_piln ! i \<noteq> ?j" if "i < n" for i
    using nth_eq_iff_index_eq [OF piln_facts(2), of i n] piln_facts(1) that Suc.prems by simp
  have "s ! ?j = st ! ?j" using I(3) [OF j] ne by fastforce
  then have "fold rho_pi_step [0..<Suc n] (st, st ! 1) = (s[?j := ?w], st ! rho_pi_source (Suc n))"
    using F by (simp add: rho_pi_step_def Let_def rho_pi_source_def)
  moreover have "s[?j := ?w] ! (keccakf_piln ! i) = ROTL64 (st ! rho_pi_source i) (keccakf_rotc ! i)" if "i < Suc n" for i
    using ne [of i] I(1,2) j that by (cases "i = n") auto
  moreover have "s[?j := ?w] ! k = st ! k" if "k < 25" "k \<notin> (!) keccakf_piln ` {..<Suc n}" for k
    using I(3) [of k] that by (auto simp: lessThan_Suc)
  ultimately show ?case using I(1) by simp
qed (simp add: assms rho_pi_source_def)

lemma ROTL64_0: "ROTL64 w 0 = w"
  by (rule bit_word_eqI) (auto simp: ROTL64_def bit_simps dest: bit_imp_le_length)

lemma rho_pi_ok: "length st = 25 \<Longrightarrow> same_lanes (lanes_of (keccak_rho_pi st)) (spec_pi (spec_rho (lanes_of st)))"
proof -
  assume len: "length st = 25"
  have F: "keccak_rho_pi st ! (keccakf_piln ! i) = ROTL64 (st ! rho_pi_source i) (keccakf_rotc ! i)" if "i < 24" for i
    using rho_pi_steps [OF len order_refl] that by (auto simp: keccak_rho_pi_def)
  have Z: "keccak_rho_pi st ! 0 = st ! 0"
  proof -
    have "0 \<notin> (!) keccakf_piln ` {..<24}" using nth_mem [of _ keccakf_piln] unfolding piln_facts(1,3) by fastforce
    then show ?thesis using rho_pi_steps [OF len order_refl] by (auto simp: keccak_rho_pi_def)
  qed
  have "keccak_rho_pi st ! (x + 5 * y) = word_rotl (rho_offset ((x + 3 * y) mod 5) x) (st ! ((x + 3 * y) mod 5 + 5 * x))"
    if "x < 5" "y < 5" for x y
  proof (cases "x + 5 * y = 0")
    case True
    then show ?thesis using Z ROTL64_rot [of 0] by (simp add: rho_offset_def ROTL64_0)
  next
    case False
    moreover have "x + 5 * y < 25" using that by simp
    ultimately obtain i where i: "i < 24" "keccakf_piln ! i = x + 5 * y"
      using piln_facts(1,3) by (metis in_set_conv_nth atLeastLessThan_iff less_one not_le)
    have "(x + 5 * y) mod 5 = x" "(x + 5 * y) div 5 = y" using that by simp_all
    then show ?thesis using rho_pi_table [rule_format, OF i(1)] F [OF i(1)] by (simp add: i(2) Let_def ROTL64_rot)
  qed
  then show ?thesis by (simp add: same_lanes_def lanes_of_def spec_pi_def spec_rho_def)
qed

text \<open>Every step depends on the 25 lanes only.\<close>

lemma same_lanes_theta: "same_lanes A B \<Longrightarrow> same_lanes (spec_theta A) (spec_theta B)"
  by (simp add: same_lanes_def spec_theta_def Let_def)

lemma same_lanes_rho_pi: "same_lanes A B \<Longrightarrow> same_lanes (spec_pi (spec_rho A)) (spec_pi (spec_rho B))"
  by (simp add: same_lanes_def spec_pi_def spec_rho_def)

lemma same_lanes_chi: "same_lanes A B \<Longrightarrow> same_lanes (spec_chi A) (spec_chi B)"
  by (simp add: same_lanes_def spec_chi_def)

lemma same_lanes_trans: "same_lanes A B \<Longrightarrow> same_lanes B C \<Longrightarrow> same_lanes A C"
  by (simp add: same_lanes_def)

lemma lengths: "length (keccak_theta st) = length st" "length (keccak_rho_pi st) = length st" "length (keccak_chi st) = length st"
proof -
  have f: "(\<And>i s. length (f i s) = length s) \<Longrightarrow> length (fold f is s) = length s" for f :: "nat \<Rightarrow> lanes \<Rightarrow> lanes" and "is" s
    by (induction "is" arbitrary: s) simp_all
  show "length (keccak_theta st) = length st"
    unfolding keccak_theta_def Let_def by (intro f) simp
  show "length (keccak_chi st) = length st"
    unfolding keccak_chi_def Let_def by (intro f) simp
  have g: "length (fst (fold rho_pi_step is p)) = length (fst p)"
    for "is" p by (induction "is" arbitrary: p) (simp_all add: rho_pi_step_def Let_def split_def)
  show "length (keccak_rho_pi st) = length st" unfolding keccak_rho_pi_def g by simp
qed

lemma keccakf_length: "length (keccakf st n) = length st"
proof -
  have "length (fold keccak_round is st) = length st" for "is"
    by (induction "is" arbitrary: st) (simp_all add: keccak_round_def Let_def lengths)
  then show ?thesis by (simp only: keccakf_def)
qed

lemma round_ok:
  assumes "length st = 25" "i < 24"
  shows "same_lanes (lanes_of (keccak_round i st)) (spec_round i (lanes_of st))" "length (keccak_round i st) = 25"
proof -
  let ?a = "keccak_theta st" and ?b = "keccak_rho_pi (keccak_theta st)"
  have len: "length ?a = 25" "length ?b = 25" "length (keccak_chi ?b) = 25" using assms by (simp_all add: lengths)
  have "same_lanes (lanes_of ?b) (spec_pi (spec_rho (spec_theta (lanes_of st))))"
    using rho_pi_ok [OF len(1)] same_lanes_rho_pi [OF theta_ok [OF assms(1)]] by (rule same_lanes_trans)
  from same_lanes_trans [OF chi_ok [OF len(2)] same_lanes_chi [OF this]]
  have c: "same_lanes (lanes_of (keccak_chi ?b)) (spec_chi (spec_pi (spec_rho (spec_theta (lanes_of st)))))" .
  have "keccak_round i st ! (x + 5 * y) = (if x = 0 \<and> y = 0 then keccak_chi ?b ! 0 XOR keccakf_rndc ! i else keccak_chi ?b ! (x + 5 * y))" for x y
    using len(3) by (simp add: keccak_round_def Let_def nth_list_update)
  moreover have "keccak_chi ?b ! 0 = spec_chi (spec_pi (spec_rho (spec_theta (lanes_of st)))) 0 0"
    using c [unfolded same_lanes_def, rule_format, of 0 0] by (simp add: lanes_of_def)
  ultimately show "same_lanes (lanes_of (keccak_round i st)) (spec_round i (lanes_of st))"
    using c constants_ok assms(2) by (auto simp: same_lanes_def lanes_of_def spec_round_def spec_iota_def)
  show "length (keccak_round i st) = 25" using len(3) by (simp add: keccak_round_def Let_def)
qed

lemma spec_round_cong: "same_lanes A B \<Longrightarrow> same_lanes (spec_round i A) (spec_round i B)"
proof -
  assume "same_lanes A B"
  then have "same_lanes (spec_chi (spec_pi (spec_rho (spec_theta A)))) (spec_chi (spec_pi (spec_rho (spec_theta B))))"
    by (intro same_lanes_chi same_lanes_rho_pi same_lanes_theta)
  then show ?thesis by (simp add: spec_round_def spec_iota_def same_lanes_def)
qed

lemma keccakf_value:
  assumes "length st = 25" "n \<le> 24"
  shows "length (keccakf st n) = 25 \<and> same_lanes (lanes_of (keccakf st n)) (fold spec_round [0..<n] (lanes_of st))"
  using assms(2)
proof (induction n)
  case (Suc n)
  then have I: "length (keccakf st n) = 25" "same_lanes (lanes_of (keccakf st n)) (fold spec_round [0..<n] (lanes_of st))" by simp_all
  have "keccakf st (Suc n) = keccak_round n (keccakf st n)" by (simp add: keccakf_def)
  then show ?case
    using round_ok [OF I(1), of n] spec_round_cong [OF I(2), of n] Suc.prems by (auto intro: same_lanes_trans)
qed (simp add: keccakf_def assms same_lanes_def)


section \<open>The sponge of the standard\<close>

text \<open>Padding \<open>pad10*1\<close> with the byte order of the original submission: a byte \<open>1\<close>, zeros, and the last byte of the
  block or'ed with \<open>0x80\<close>.\<close>

definition pad_bytes :: "nat \<Rightarrow> u8 list" where
  "pad_bytes n = (1 # replicate (n - 1) 0)[n - 1 := (1 # replicate (n - 1) 0) ! (n - 1) OR 0x80]"

definition padded :: "nat \<Rightarrow> u8 list \<Rightarrow> u8 list" where
  "padded r m = m @ pad_bytes (r - length m mod r)"

function chunks :: "nat \<Rightarrow> 'a list \<Rightarrow> 'a list list" where
  "chunks r xs = (if 0 < r \<and> r \<le> length xs then take r xs # chunks r (drop r xs) else [])"
  by auto

termination by (relation "measure (\<lambda>(r, xs). length xs)") auto

declare chunks.simps [simp del]

text \<open>The state as a string of 200 bytes, and the permutation on such strings.\<close>

definition state_of :: "u8 list \<Rightarrow> keccak_state" where
  "state_of S = (\<lambda>x y. word_of_int (le_val (take 8 (drop (8 * (x + 5 * y)) S))))"

definition state_bytes :: "keccak_state \<Rightarrow> u8 list" where
  "state_bytes A = concat (map (\<lambda>i. le_bytes 8 (uint (A (i mod 5) (i div 5)))) [0..<25])"

definition spec_f :: "u8 list \<Rightarrow> u8 list" where
  "spec_f S = state_bytes (fold spec_round [0..<24] (state_of S))"

text \<open>FIPS 202, section 4: every block of \<open>r\<close> bytes, followed by zeros for the capacity, is combined with the state.\<close>

definition spec_absorb :: "nat \<Rightarrow> u8 list \<Rightarrow> u8 list \<Rightarrow> u8 list" where
  "spec_absorb r S b = spec_f (map2 (XOR) S (b @ replicate (200 - r) 0))"

definition sponge_blocks :: "nat \<Rightarrow> u8 list list \<Rightarrow> u8 list" where
  "sponge_blocks r bs = foldl (spec_absorb r) (replicate 200 0) bs"

definition spec_sponge :: "nat \<Rightarrow> u8 list \<Rightarrow> u8 list" where
  "spec_sponge r m = sponge_blocks r (chunks r (padded r m))"

text \<open>What is left of a block whose length is not a multiple of 8 when it is read in words.\<close>

definition whole_words :: "u8 list \<Rightarrow> u8 list" where
  "whole_words b = take (8 * (length b div 8)) b @ replicate (length b mod 8) 0"

section \<open>The code computes it\<close>

lemma load64_take: "i < r div 8 \<Longrightarrow> load64 (take r p) i = load64 p i"
proof -
  assume "i < r div 8"
  then have "8 * i + 8 \<le> r" by linarith
  then show ?thesis by (simp add: load64_def drop_take min_def)
qed

lemma xor_block_length [simp]: "length (xor_block n p st) = length st"
  by (simp add: xor_block_def)

lemma xor_block_nth: "k < length st \<Longrightarrow> xor_block n p st ! k = st ! k XOR (if k < n then load64 p k else 0)"
proof (induction n)
  case (Suc n)
  have "xor_block (Suc n) p st = (xor_block n p st)[n := xor_block n p st ! n XOR load64 p n]"
    by (simp add: xor_block_def)
  with Suc show ?case by (auto simp: nth_list_update less_Suc_eq)
qed (simp add: xor_block_def)

lemma xor_block_take: "xor_block (r div 8) (take r p) st = xor_block (r div 8) p st"
  by (rule nth_equalityI) (simp_all add: xor_block_nth load64_take)

text \<open>One block: state after state.\<close>

definition absorbed :: "nat \<Rightarrow> lanes \<Rightarrow> u8 list \<Rightarrow> lanes" where
  "absorbed r st b = keccakf (xor_block (r div 8) b st) 24"

lemma fold_round_cong: "same_lanes A B \<Longrightarrow> same_lanes (fold spec_round is A) (fold spec_round is B)"
  by (induction "is" arbitrary: A B) (simp_all add: spec_round_cong)

text \<open>The state as bytes.\<close>

definition words_of_bytes :: "u8 list \<Rightarrow> lanes" where
  "words_of_bytes bs = map (load64 bs) [0..<25]"

lemma length_words_of_bytes [simp]: "length (words_of_bytes bs) = 25"
  by (simp add: words_of_bytes_def del: upt_rec_numeral)

lemma load64_lane_bytes:
  assumes "i < length st"
  shows "load64 (lane_bytes st) i = st ! i"
  using assms
proof (induction st arbitrary: i)
  case (Cons w st)
  show ?case
  proof (cases i)
    case 0
    have "uint w mod 256 ^ 8 = uint w" using uint_bounded [of w] by simp
    then show ?thesis using 0 by (simp add: load64_def lane_bytes_def le_val_le_bytes)
  next
    case (Suc j)
    with Cons show ?thesis by (simp add: load64_def lane_bytes_def)
  qed
qed simp

lemma words_lane_bytes: "length st = 25 \<Longrightarrow> words_of_bytes (lane_bytes st) = st"
  by (rule nth_equalityI) (simp_all add: words_of_bytes_def load64_lane_bytes del: upt_rec_numeral)

lemma le_val_xor: "length a = length b \<Longrightarrow> le_val (map2 (XOR) a b) = le_val a XOR le_val b"
proof (induction a b rule: list_induct2)
  case (Cons x xs y ys)
  have s: "0 \<le> uint z" "uint z < 2 ^ 8" for z :: u8 using uint_bounded [of z] by simp_all
  have "uint (x XOR y) + 2 ^ 8 * (le_val xs XOR le_val ys) = (uint x + 2 ^ 8 * le_val xs) XOR (uint y + 2 ^ 8 * le_val ys)"
    by (rule bit_eqI) (simp only: bit_low_high [OF s] bit_xor_iff uint_xor [symmetric], simp add: uint_xor bit_xor_iff)
  with Cons show ?case by simp
qed simp

lemma load64_xor:
  "length a = length b \<Longrightarrow> load64 (map2 (XOR) a b) i = load64 a i XOR load64 b i"
  by (simp add: load64_def drop_map take_map drop_zip take_zip le_val_xor word_of_int_xor)

lemma load64_whole_words:
  "load64 (whole_words b @ replicate k 0) i = (if i < length b div 8 then load64 b i else 0)"
proof -
  let ?q = "length b div 8"
  have c: "whole_words b @ replicate k 0 = take (8 * ?q) b @ replicate (length b mod 8 + k) 0"
    by (simp add: whole_words_def replicate_add)
  have l: "length (take (8 * ?q) b) = 8 * ?q" by simp
  show ?thesis
  proof (cases "i < ?q")
    case True
    then have "8 * i + 8 \<le> 8 * ?q" by simp
    then show ?thesis using True unfolding c load64_def by (simp add: drop_take min_def)
  next
    case False
    then have "set (take 8 (drop (8 * i) (whole_words b @ replicate k 0))) \<subseteq> {0}"
      unfolding c by (auto dest!: in_set_takeD)
    then have "le_val (take 8 (drop (8 * i) (whole_words b @ replicate k 0))) = 0" by (auto simp: le_val_zero_iff)
    then show ?thesis using False by (simp add: load64_def)
  qed
qed

lemma lane_bytes_length: "length (lane_bytes st) = 8 * length st"
  by (simp add: lane_bytes_def length_concat comp_def sum_list_triv)

lemma lane_bytes_zero: "lane_bytes (replicate n 0) = replicate (8 * n) 0"
proof (induction n)
  case (Suc n)
  have "le_bytes 8 0 = replicate 8 (0 :: u8)" by (simp add: le_bytes_def map_replicate_const)
  then show ?case using Suc by (simp add: lane_bytes_def replicate_add [symmetric])
qed (simp add: lane_bytes_def)

lemma lane_bytes_ok:
  assumes "length st = 25" "same_lanes (lanes_of st) A"
  shows "lane_bytes st = state_bytes A"
proof -
  have "st = map (\<lambda>i. st ! i) [0..<25]" using assms(1) by (rule list_eq_map_nth)
  moreover have "st ! i = A (i mod 5) (i div 5)" if "i < 25" for i
  proof -
    have "i mod 5 < 5" "i div 5 < 5" "i mod 5 + 5 * (i div 5) = i" using that by simp_all
    with assms(2) show ?thesis unfolding same_lanes_def lanes_of_def by metis
  qed
  ultimately have "st = map (\<lambda>i. A (i mod 5) (i div 5)) [0..<25]" by (metis (no_types, lifting) atLeastLessThan_iff map_cong set_upt)
  then show ?thesis by (simp add: lane_bytes_def state_bytes_def comp_def del: upt_rec_numeral)
qed

text \<open>One block, and a list of blocks, on the bytes of the state.\<close>

lemma absorbed_bytes:
  assumes "length st = 25" "length b = r" "r \<le> 200"
  shows "length (absorbed r st b) = 25" "lane_bytes (absorbed r st b) = spec_absorb r (lane_bytes st) (whole_words b)"
proof -
  let ?S = "map2 (XOR) (lane_bytes st) (whole_words b @ replicate (200 - r) 0)"
  have len: "length (lane_bytes st) = length (whole_words b @ replicate (200 - r) 0)"
    using assms by (simp add: lane_bytes_length whole_words_def)
  have w: "words_of_bytes ?S = xor_block (r div 8) b st"
    using assms
    by (intro nth_equalityI)
      (simp_all add: words_of_bytes_def load64_xor [OF len] load64_whole_words load64_lane_bytes xor_block_nth del: upt_rec_numeral)
  have "same_lanes (lanes_of (words_of_bytes ?S)) (state_of ?S)"
  proof -
    have "x + 5 * y < 25" if "x < 5" "y < 5" for x y :: nat using that by simp
    then show ?thesis by (simp add: same_lanes_def lanes_of_def words_of_bytes_def state_of_def load64_def del: upt_rec_numeral)
  qed
  moreover have len': "length (words_of_bytes ?S) = 25" by simp
  ultimately have "same_lanes (lanes_of (keccakf (words_of_bytes ?S) 24)) (fold spec_round [0..<24] (state_of ?S))"
    using keccakf_value [OF len', of 24] fold_round_cong by (blast intro: same_lanes_trans)
  with keccakf_value [OF len', of 24] show "length (absorbed r st b) = 25"
    "lane_bytes (absorbed r st b) = spec_absorb r (lane_bytes st) (whole_words b)"
    unfolding absorbed_def spec_absorb_def spec_f_def w by (simp_all add: lane_bytes_ok)
qed

lemma foldl_absorbed_bytes:
  assumes "length st = 25" "r \<le> 200" "\<forall>b\<in>set bs. length b = r"
  shows "lane_bytes (foldl (absorbed r) st bs) = foldl (spec_absorb r) (lane_bytes st) (map whole_words bs)"
  using assms
proof (induction bs arbitrary: st)
  case (Cons b bs)
  then show ?case using absorbed_bytes [of st b r] by simp
qed simp

lemma chunks_length: "b \<in> set (chunks r xs) \<Longrightarrow> length b = r"
proof (induction r xs rule: chunks.induct)
  case (1 r xs)
  from "1.prems" show ?case by (subst (asm) chunks.simps) (auto split: if_splits intro: "1.IH")
qed

lemma whole_words_id: "8 dvd length b \<Longrightarrow> whole_words b = b"
  by (auto simp: whole_words_def elim: dvdE)

text \<open>The loop handles the full blocks; padding adds one block to what it leaves.\<close>

lemma keccak_absorb_value:
  "0 < r \<Longrightarrow> \<exists>rest. keccak_absorb r st m = (foldl (absorbed r) st (chunks r m), rest) \<and> length rest < r \<and>
    chunks r (padded r m) = chunks r m @ [keccak_last r rest]"
proof (induction m arbitrary: st rule: length_induct)
  case (1 m)
  show ?case
  proof (cases "r \<le> length m")
    case True
    with "1.prems" have l: "length (drop r m) < length m" by simp
    have n: "(length m - r) mod r = length m mod r" using True by (simp add: le_mod_geq)
    from "1.IH" [rule_format, OF l "1.prems", of "absorbed r st m"] obtain rest where
      I: "keccak_absorb r (absorbed r st m) (drop r m) = (foldl (absorbed r) (absorbed r st m) (chunks r (drop r m)), rest)"
      "length rest < r" "chunks r (padded r (drop r m)) = chunks r (drop r m) @ [keccak_last r rest]" by blast
    have a: "absorbed r st (take r m) = absorbed r st m" by (simp only: absorbed_def xor_block_take)
    have "padded r (drop r m) = drop r (padded r m)" "take r (padded r m) = take r m" "r \<le> length (padded r m)"
      using True by (simp_all add: padded_def n)
    then have "chunks r (padded r m) = take r m # chunks r (padded r (drop r m))"
      using "1.prems" by (subst chunks.simps) simp
    moreover have "chunks r m = take r m # chunks r (drop r m)" using True "1.prems" by (subst chunks.simps) simp
    moreover have "keccak_absorb r st m = keccak_absorb r (absorbed r st m) (drop r m)"
      using True "1.prems" by (subst keccak_absorb.simps) (simp add: absorbed_def)
    ultimately show ?thesis using I by (simp add: a)
  next
    case False
    let ?k = "r - length m"
    have k: "0 < ?k" "?k - 1 = r - Suc (length m)" using False by simp_all
    have p: "padded r m = keccak_last r m"
    proof -
      have "r - 1 = length m + (?k - 1)" using False by simp
      then show ?thesis
        using False k by (simp add: padded_def pad_bytes_def keccak_last_def Let_def list_update_append nth_append)
    qed
    have len: "length (keccak_last r m) = r" using False by (simp add: keccak_last_def Let_def)
    have "chunks r (keccak_last r m) = [keccak_last r m]"
      using len "1.prems" by (subst chunks.simps) (simp add: chunks.simps)
    moreover have "chunks r m = []" using False by (subst chunks.simps) simp
    moreover have "keccak_absorb r st m = (st, m)" using False by (subst keccak_absorb.simps) simp
    ultimately show ?thesis using False p by simp
  qed
qed

definition keccak_rate :: "int \<Rightarrow> int" where
  "keccak_rate mdlen = (if mdlen = 200 then 136 else 200 - 2 * mdlen)"

text \<open>The digest of the code for a rate \<open>r\<close>: the sponge over what the words hold of each block.\<close>

definition words_sponge :: "nat \<Rightarrow> u8 list \<Rightarrow> u8 list" where
  "words_sponge r m = sponge_blocks r (map whole_words (chunks r (padded r m)))"

lemma words_sponge: "8 dvd r \<Longrightarrow> words_sponge r m = spec_sponge r m"
  using map_cong [OF refl, of "chunks r (padded r m)" whole_words id] chunks_length [of _ r "padded r m"]
  by (simp add: words_sponge_def spec_sponge_def whole_words_id)

lemma keccak_value:
  assumes "0 \<le> inlen" "inlen \<le> int (length inp)" "0 < keccak_rate mdlen" "keccak_rate mdlen \<le> 144"
  shows "keccak inp inlen mdlen = Some (take (nat mdlen) (words_sponge (nat (keccak_rate mdlen)) (take (nat inlen) inp)))"
proof -
  define r where "r = nat (keccak_rate mdlen)"
  let ?m = "take (nat inlen) inp" and ?z = "replicate 25 0 :: lanes"
  have r: "0 < r" "r \<le> 200" using assms(3,4) by (simp_all add: r_def)
  from keccak_absorb_value [OF r(1), of ?z ?m] obtain rest where
    A: "keccak_absorb r ?z ?m = (foldl (absorbed r) ?z (chunks r ?m), rest)"
    "chunks r (padded r ?m) = chunks r ?m @ [keccak_last r rest]" by blast
  have "keccak inp inlen mdlen = Some (take (nat mdlen) (lane_bytes (absorbed r (foldl (absorbed r) ?z (chunks r ?m)) (keccak_last r rest))))"
  proof -
    have rate: "(if mdlen = 200 then int HASH_DATA_AREA else 200 - 2 * mdlen) = keccak_rate mdlen"
      by (simp add: keccak_rate_def HASH_DATA_AREA_def)
    show ?thesis
      using assms A(1) unfolding keccak_def rate Let_def r_def [symmetric] by (simp add: absorbed_def del: replicate.simps)
  qed
  also have "absorbed r (foldl (absorbed r) ?z (chunks r ?m)) (keccak_last r rest) = foldl (absorbed r) ?z (chunks r (padded r ?m))"
    by (simp add: A(2))
  also have "lane_bytes \<dots> = words_sponge r ?m"
    unfolding words_sponge_def sponge_blocks_def
    using foldl_absorbed_bytes [of ?z r "chunks r (padded r ?m)"] r(2) chunks_length [of _ r "padded r ?m"] lane_bytes_zero [of 25]
    by (simp del: replicate.simps)
  finally show ?thesis by (simp only: r_def)
qed

lemma keccak_undefined:
  "inlen < 0 \<or> int (length inp) < inlen \<or> keccak_rate mdlen \<le> 0 \<or> 144 < keccak_rate mdlen \<Longrightarrow> keccak inp inlen mdlen = None"
  by (auto simp: keccak_def keccak_rate_def HASH_DATA_AREA_def Let_def)

lemma size_to_int_small: "n < 2 ^ 31 \<Longrightarrow> size_to_int n = int n"
  by (simp add: size_to_int_def signed_take_bit_int_eq_self)

lemma size_to_int_wraps: "size_to_int (n + 2 ^ 32 * k) = size_to_int n"
  by (simp add: size_to_int_def signed_take_bit_eq_iff_take_bit_eq take_bit_eq_mod)

lemma state_bytes_length [simp]: "length (state_bytes A) = 200"
  by (simp add: state_bytes_def length_concat comp_def sum_list_triv)

lemma spec_sponge_length: "length (spec_sponge r m) = 200"
proof -
  have "length S = 200 \<Longrightarrow> length (foldl (spec_absorb r) S bs) = 200" for S bs
    by (induction bs arbitrary: S) (simp_all add: spec_absorb_def spec_f_def)
  then show ?thesis by (simp add: spec_sponge_def sponge_blocks_def)
qed

lemma cn_fast_hash_value:
  assumes "n \<le> length data" "n < 2 ^ 31"
  shows "cn_fast_hash data n = Some (take 32 (spec_sponge 136 (take n data)))"
  using keccak_value [of "int n" data 200] assms
  by (simp add: words_sponge cn_fast_hash_def hash_process_def keccak1600_def size_to_int_small keccak_rate_def HASH_SIZE_def min_def)

section \<open>The interface of the fast hash\<close>

text \<open>What the callers of \<open>cn_fast_hash\<close> rely on: 64 bytes of a buffer that has them give a digest of 32 bytes that
  depends on those 64 bytes only.\<close>

definition digest_of :: "(u8 list \<Rightarrow> nat \<Rightarrow> u8 list option) \<Rightarrow> u8 list \<Rightarrow> u8 list" where
  "digest_of H d = the (H d 64)"

locale fast_hash =
  fixes H :: "u8 list \<Rightarrow> nat \<Rightarrow> u8 list option"
  assumes digest: "64 \<le> length d \<Longrightarrow> \<exists>h. H d 64 = Some h \<and> length h = 32"
    and reads_64: "64 \<le> length d \<Longrightarrow> H d 64 = H (take 64 d) 64"
    and short: "length d < 64 \<Longrightarrow> H d 64 = None"
begin

lemma digest_of: "64 \<le> length d \<Longrightarrow> H d 64 = Some (digest_of H (take 64 d))"
  using digest [of d] reads_64 [of d] by (auto simp: digest_of_def)

lemma length_digest_of: "length d = 64 \<Longrightarrow> length (digest_of H d) = 32"
  using digest [of d] by (auto simp: digest_of_def)

end

interpretation cn: fast_hash cn_fast_hash
proof
  fix d :: "u8 list"
  assume "64 \<le> length d"
  then show "\<exists>h. cn_fast_hash d 64 = Some h \<and> length h = 32" "cn_fast_hash d 64 = cn_fast_hash (take 64 d) 64"
    by (simp_all add: cn_fast_hash_value spec_sponge_length)
next
  fix d :: "u8 list"
  assume "length d < 64"
  then show "cn_fast_hash d 64 = None"
    by (simp add: cn_fast_hash_def hash_process_def keccak1600_def size_to_int_small keccak_undefined)
qed

section \<open>The properties of the hash\<close>

text \<open>C16: \<open>keccakf\<close> with 24 rounds is Keccak-f[1600]: theta, rho and pi, chi and iota, which the code performs in
  place on an array of 25 words with precomputed tables, are the step mappings of the standard on the lanes
  \<open>(x, y) = st[x + 5 y]\<close>, with the rotation offsets of the walk \<open>(y, 2 x + 3 y)\<close> and the round constants of the shift
  register.\<close>

theorem keccakf_correct:
  assumes "length st = 25"
  shows "length (keccakf st 24) = 25 \<and>
    (\<forall>x<5. \<forall>y<5. keccakf st 24 ! (x + 5 * y) = fold spec_round [0..<24] (\<lambda>x y. st ! (x + 5 * y)) x y)"
  using keccakf_value [OF assms, of 24] by (simp_all add: same_lanes_def lanes_of_def [abs_def])

theorem keccakf_correct_witness:
  "length (keccakf (replicate 25 7) 24) = 25 \<and>
   keccakf (replicate 25 7) 24 ! 7 = fold spec_round [0..<24] (\<lambda>x y. replicate 25 7 ! (x + 5 * y)) 2 1"
proof -
  have "length (replicate 25 (7 :: u64)) = 25" by simp
  note k = keccakf_correct [OF this]
  from k have "length (keccakf (replicate 25 7) 24) = 25" by (rule conjunct1)
  with k [THEN conjunct2, rule_format, of 2 1] show ?thesis by simp
qed

text \<open>C17: For every digest length whose rate is a whole number of 64-bit words, 8 to 144 bytes, and every input of the
  announced length, \<open>keccak\<close> is the sponge of the standard over that permutation: the message is padded, all bytes of
  each block are combined with the state, and the digest is the first bytes of the state. For the other rates up to 144
  it is not: the digest is that of the sponge over blocks whose last \<open>rate mod 8\<close> bytes have been replaced by zeros.
  In every other case, a negative length or a rate whose last block does not fit in \<open>temp\<close>, the call is undefined.\<close>

theorem keccak_correct:
  "keccak inp inlen mdlen =
    (let rate = (if mdlen = 200 then 136 else 200 - 2 * mdlen); m = take (nat inlen) inp
     in if 0 \<le> inlen \<and> inlen \<le> int (length inp) \<and> 0 < rate \<and> rate \<le> 144
        then Some (take (nat mdlen)
          (if 8 dvd rate then spec_sponge (nat rate) m
           else sponge_blocks (nat rate) (map (\<lambda>b. take (8 * (nat rate div 8)) b @ replicate (nat rate mod 8) 0) (chunks (nat rate) (padded (nat rate) m)))))
        else None)"
proof (cases "0 \<le> inlen \<and> inlen \<le> int (length inp) \<and> 0 < keccak_rate mdlen \<and> keccak_rate mdlen \<le> 144")
  case True
  let ?r = "nat (keccak_rate mdlen)" and ?m = "take (nat inlen) inp"
  have "8 dvd keccak_rate mdlen \<longleftrightarrow> 8 dvd ?r" using True by (metis int_dvd_int_iff int_nat_eq of_nat_numeral order_less_imp_le)
  moreover have "words_sponge ?r ?m = sponge_blocks ?r (map (\<lambda>b. take (8 * (?r div 8)) b @ replicate (?r mod 8) 0) (chunks ?r (padded ?r ?m)))"
    unfolding words_sponge_def whole_words_def by (intro arg_cong [of _ _ "sponge_blocks ?r"] map_cong refl) (simp add: chunks_length)
  ultimately show ?thesis
    using True keccak_value [of inlen inp mdlen] words_sponge [of ?r ?m]
    unfolding keccak_rate_def [symmetric] Let_def by (simp del: nat_le_iff)
next
  case False
  then show ?thesis
    using keccak_undefined [of inlen inp mdlen] unfolding keccak_rate_def [symmetric] Let_def by (auto simp: not_le)
qed

text \<open>C18: \<open>cn_fast_hash\<close> on fewer than \<open>2^31\<close> bytes returns a digest of 32 bytes, the first of Keccak with rate 136 on
  exactly those bytes.\<close>

theorem cn_fast_hash_correct:
  assumes "n \<le> length data" "n < 2 ^ 31"
  shows "\<exists>h. cn_fast_hash data n = Some h \<and> length h = 32 \<and> h = take 32 (spec_sponge 136 (take n data))"
  using cn_fast_hash_value [OF assms] by (simp add: spec_sponge_length)

theorem cn_fast_hash_correct_witness:
  "\<exists>h. cn_fast_hash [1, 2, 3] 2 = Some h \<and> length h = 32 \<and> h = take 32 (spec_sponge 136 [1, 2])"
  using cn_fast_hash_correct [of 2 "[1, 2, 3]"] by simp

text \<open>The length is an \<open>int\<close> inside: a \<open>size_t\<close> length loses its high bits on the way, so that a buffer of \<open>2^32\<close>
  bytes or more is hashed as if it had its length modulo \<open>2^32\<close>, and two buffers that agree on that prefix get the
  same hash.\<close>

theorem cn_fast_hash_length_wraps:
  "cn_fast_hash data (n + 2 ^ 32 * k) = cn_fast_hash data n"
  unfolding cn_fast_hash_def hash_process_def size_to_int_wraps by (rule refl)

text \<open>With a rate that is not a multiple of 8 the last bytes of every block are never absorbed: two messages of one
  block that agree on the whole words have the same digest.\<close>

theorem keccak_drops_tail:
  assumes "0 < r" "r \<le> 144" "mdlen \<noteq> 200" "int r = 200 - 2 * mdlen" "length m = r" "length m' = r"
    "take (8 * (r div 8)) m = take (8 * (r div 8)) m'"
  shows "keccak m (int r) mdlen = keccak m' (int r) mdlen"
proof -
  have "load64 m i = load64 m' i" if "i < r div 8" for i
    using load64_take [of i "8 * (r div 8)" m] load64_take [of i "8 * (r div 8)" m'] that assms(7) by simp
  then have "xor_block (r div 8) m st = xor_block (r div 8) m' st" for st
    by (intro nth_equalityI) (simp_all add: xor_block_nth)
  then have "keccak_absorb r st m = keccak_absorb r st m'" for st
    using assms by (subst (1 2) keccak_absorb.simps) (simp add: keccak_absorb.simps)
  moreover have "(if mdlen = 200 then int HASH_DATA_AREA else 200 - 2 * mdlen) = int r" using assms(3,4) by simp
  ultimately show ?thesis unfolding keccak_def using assms(5,6) by (simp add: Let_def)
qed

theorem keccak_drops_tail_witness:
  "keccak (replicate 136 0 @ [1, 2]) 138 31 = keccak (replicate 136 0 @ [3, 4]) 138 31"
  using keccak_drops_tail [of 138 31 "replicate 136 0 @ [1, 2]" "replicate 136 0 @ [3, 4]"] by simp

end
