(* ===== verification/Tree_Hash_Proofs.thy ===== *)
theory Tree_Hash_Proofs
  imports Tree_Hash Keccak_Proofs
begin

text \<open>
  The in-place computation of tree-hash.c returns, for every number of hashes, the root of the binary tree whose
  leaves are the hashes, those at the end one level deeper; the rounding to a power of two satisfies its
  assertions; and two lists of hashes with the same root yield a collision of the fast hash, found among the inputs
  that are hashed at the same node of their trees.
\<close>

section \<open>Specification\<close>

text \<open>The root of the complete tree of height \<open>k\<close>.\<close>

fun merkle_root :: "(u8 list \<Rightarrow> u8 list) \<Rightarrow> nat \<Rightarrow> u8 list list \<Rightarrow> u8 list" where
  "merkle_root D 0 xs = hd xs"
| "merkle_root D (Suc k) xs = D (merkle_root D k (take (2 ^ k) xs) @ merkle_root D k (drop (2 ^ k) xs))"

fun pair_up :: "(u8 list \<Rightarrow> u8 list) \<Rightarrow> u8 list list \<Rightarrow> u8 list list" where
  "pair_up D (x # y # xs) = D (x @ y) # pair_up D xs"
| "pair_up D _ = []"

text \<open>The first level has \<open>c\<close> nodes: hashes as they are, then pairs of hashes.\<close>

definition first_level :: "(u8 list \<Rightarrow> u8 list) \<Rightarrow> nat \<Rightarrow> u8 list list \<Rightarrow> u8 list list" where
  "first_level D c xs = take (2 * c - length xs) xs @ pair_up D (drop (2 * c - length xs) xs)"

text \<open>The inputs that are hashed on the way to the root, node by node in an order that depends on the number of hashes
  only: one for each pair of the first level, then one for each inner node of the complete tree over that level.\<close>

fun pair_inputs :: "u8 list list \<Rightarrow> u8 list list" where
  "pair_inputs (x # y # xs) = (x @ y) # pair_inputs xs"
| "pair_inputs _ = []"

fun merkle_inputs :: "(u8 list \<Rightarrow> u8 list) \<Rightarrow> nat \<Rightarrow> u8 list list \<Rightarrow> u8 list list" where
  "merkle_inputs D 0 xs = []"
| "merkle_inputs D (Suc k) xs =
     (merkle_root D k (take (2 ^ k) xs) @ merkle_root D k (drop (2 ^ k) xs)) #
     merkle_inputs D k (take (2 ^ k) xs) @ merkle_inputs D k (drop (2 ^ k) xs)"

definition tree_inputs :: "(u8 list \<Rightarrow> u8 list) \<Rightarrow> u8 list list \<Rightarrow> u8 list list" where
  "tree_inputs D xs =
     (if length xs \<le> 1 then []
      else (let k = (LEAST k. length xs \<le> 2 * 2 ^ k)
            in pair_inputs (drop (2 * 2 ^ k - length xs) xs) @ merkle_inputs D k (first_level D (2 ^ k) xs)))"

lemma length_pair_inputs [simp]: "length (pair_inputs xs) = length xs div 2"
  by (induction xs rule: pair_inputs.induct) auto

lemma length_merkle_inputs: "length (merkle_inputs D k xs) = 2 ^ k - 1"
proof (induction k arbitrary: xs)
  case (Suc k)
  have "(1::nat) \<le> 2 ^ k" by simp
  moreover have "length (merkle_inputs D (Suc k) xs) = Suc (2 ^ k - 1 + (2 ^ k - 1))" by (simp add: Suc)
  ultimately show ?case unfolding power_Suc by linarith
qed simp

text \<open>The inputs determine the root: a digest that agrees on them gives the same one.\<close>

lemma pair_up_inputs: "\<forall>u\<in>set (pair_inputs xs). D' u = D u \<Longrightarrow> pair_up D' xs = pair_up D xs"
  by (induction xs rule: pair_inputs.induct) auto

lemma merkle_root_inputs: "\<forall>u\<in>set (merkle_inputs D k xs). D' u = D u \<Longrightarrow> merkle_root D' k xs = merkle_root D k xs"
  by (induction k arbitrary: xs) auto

lemma pair_up_append: "even (length xs) \<Longrightarrow> pair_up D (xs @ ys) = pair_up D xs @ pair_up D ys"
  by (induction D xs rule: pair_up.induct) auto

lemma length_pair_up [simp]: "length (pair_up D xs) = length xs div 2"
  by (induction D xs rule: pair_up.induct) auto

lemma pair_up_power_append:
  "length xs = m * 2 ^ k \<Longrightarrow> (pair_up D ^^ k) (xs @ ys) = (pair_up D ^^ k) xs @ (pair_up D ^^ k) ys"
proof (induction k arbitrary: xs ys)
  case (Suc k)
  then have "even (length xs)" "length (pair_up D xs) = m * 2 ^ k" by simp_all
  with Suc.IH [of "pair_up D xs" "pair_up D ys"] show ?case
    by (simp add: funpow_Suc_right pair_up_append del: funpow.simps)
qed simp

text \<open>Pairing level by level is the recursive root.\<close>

lemma pair_up_merkle: "length xs = 2 ^ k \<Longrightarrow> (pair_up D ^^ k) xs = [merkle_root D k xs]"
proof (induction k arbitrary: xs)
  case 0
  then show ?case by (auto simp: length_Suc_conv)
next
  case (Suc k)
  let ?l = "take (2 ^ k) xs" and ?r = "drop (2 ^ k) xs"
  have l: "length ?l = 1 * 2 ^ k" "length ?r = 2 ^ k" using Suc.prems by simp_all
  have "(pair_up D ^^ k) (?l @ ?r) = [merkle_root D k ?l, merkle_root D k ?r]"
    unfolding pair_up_power_append [OF l(1)] using Suc.IH [of ?l] Suc.IH [of ?r] l by simp
  then show ?case by simp
qed

section \<open>Rounding to a power of two\<close>

lemma tree_hash_log_value:
  "2 ^ m \<le> unat w \<Longrightarrow> unat w < 2 * 2 ^ m \<Longrightarrow> tree_hash_log w jj = jj + Suc m"
proof (induction m arbitrary: w jj)
  case 0
  then have "unat w = 1" by simp
  then have w: "w = 1" by (simp add: word_unat_eq_iff)
  have "(1 :: u64) div 2 = 0" by simp
  then show ?case unfolding w by (simp add: tree_hash_log.simps)
next
  case (Suc m)
  have "unat (w div 2) = unat w div 2" by (simp add: unat_div)
  with Suc.prems have "2 ^ m \<le> unat (w div 2)" "unat (w div 2) < 2 * 2 ^ m" by simp_all
  note IH = Suc.IH [OF this]
  have "w \<noteq> 0" using Suc.prems by auto
  then show ?case using IH by (subst tree_hash_log.simps) simp
qed

lemma power_of_two_word: "m < 64 \<Longrightarrow> ispowerof2_size_t (push_bit m 1)" "m < 64 \<Longrightarrow> unat (push_bit m 1 :: u64) = 2 ^ m"
proof -
  assume m: "m < 64"
  have u: "(push_bit m 1 :: u64) = 2 ^ m" by (simp add: push_bit_eq_mult)
  have "(2 :: nat) ^ m < 2 ^ 64" using m by (intro power_strict_increasing) simp_all
  then show v: "unat (push_bit m 1 :: u64) = 2 ^ m" by (subst unsigned_push_bit_eq) (simp add: take_bit_nat_eq_self push_bit_eq_mult m)
  have "(push_bit m 1 :: u64) \<noteq> 0" using v by (metis power_not_zero unat_0 zero_neq_numeral)
  moreover have "(2 ^ m :: u64) AND (2 ^ m - 1) = 0"
    unfolding mask_eq_exp_minus_1 [symmetric] by (rule bit_word_eqI) (auto simp: bit_simps)
  ultimately show "ispowerof2_size_t (push_bit m 1)" unfolding ispowerof2_size_t_def u by simp
qed

lemma ex_log: "0 < (n::nat) \<Longrightarrow> \<exists>m. 2 ^ m \<le> n \<and> n < 2 * 2 ^ m"
proof (induction n rule: less_induct)
  case (less n)
  show ?case
  proof (cases "n = 1")
    case True
    then show ?thesis by (intro exI [of _ 0]) simp
  next
    case False
    with less.prems have "0 < n div 2" "n div 2 < n" by auto
    with less.IH obtain m where "2 ^ m \<le> n div 2" "n div 2 < 2 * 2 ^ m" by blast
    then show ?thesis by (intro exI [of _ "Suc m"] conjI; simp; linarith)
  qed
qed

lemma tree_hash_cnt_value:
  assumes "3 \<le> unat count" "2 ^ k < unat count" "unat count \<le> 2 * 2 ^ k"
  shows "\<exists>c. tree_hash_cnt count = Some c \<and> unat c = 2 ^ k"
proof -
  have c1: "unat (count - 1) = unat count - 1"
    using assms(1) by (subst unat_sub) (auto simp: word_le_nat_alt)
  have l: "tree_hash_log (count - 1) 1 = 1 + Suc k"
    by (rule tree_hash_log_value) (use c1 assms in auto)
  have "(2::nat) ^ k < 2 ^ 64" using assms(2) unsigned_less [of count, where ?'a = nat] by simp
  then have k: "k < 64" by (rule power_less_imp_less_exp [rotated]) simp
  let ?c = "push_bit k 1 :: u64"
  have u: "unat ?c = 2 ^ k" by (rule power_of_two_word(2) [OF k])
  then have "0 < ?c" "count div 2 \<le> ?c" "?c \<le> count"
    using assms by (simp_all add: word_less_nat_alt word_le_nat_alt unat_div)
  moreover have "\<not> count < 3" using assms(1) by (simp add: word_less_nat_alt)
  ultimately show ?thesis
    using power_of_two_word(1) [OF k] u unfolding tree_hash_cnt_def l by (simp add: Let_def)
qed

lemma unat_times_32: "32 * unat w < 2 ^ 64 \<Longrightarrow> unat (w * 32 :: u64) = 32 * unat w"
  by (simp add: unat_word_ariths)

section \<open>Rows of 32 bytes\<close>

lemma least_log: "2 ^ k < (n::nat) \<Longrightarrow> n \<le> 2 * 2 ^ k \<Longrightarrow> (LEAST k. n \<le> 2 * 2 ^ k) = k"
proof (rule Least_equality)
  fix j assume "2 ^ k < n" "n \<le> 2 * 2 ^ j"
  then have "2 ^ k < (2::nat) ^ Suc j" by simp
  then have "k < Suc j" by (rule power_less_imp_less_exp [rotated]) simp
  then show "k \<le> j" by simp
qed

definition rows :: "u8 list list \<Rightarrow> bool" where
  "rows xs \<longleftrightarrow> (\<forall>x\<in>set xs. length x = 32)"

lemma rows_simps [simp]:
  "rows []" "rows (x # xs) \<longleftrightarrow> length x = 32 \<and> rows xs" "rows (xs @ ys) \<longleftrightarrow> rows xs \<and> rows ys"
  "rows xs \<Longrightarrow> rows (take n xs)" "rows xs \<Longrightarrow> rows (drop n xs)"
  by (auto simp: rows_def dest: in_set_takeD in_set_dropD)

lemma rows_update: "rows xs \<Longrightarrow> length x = 32 \<Longrightarrow> rows (xs[j := x])"
  using set_update_subset_insert [of xs j x] by (auto simp: rows_def)

lemma length_rows: "rows xs \<Longrightarrow> length (concat xs) = 32 * length xs"
  by (induction xs) auto

lemma drop_rows: "rows xs \<Longrightarrow> drop (32 * i) (concat xs) = concat (drop i xs)"
proof (induction i arbitrary: xs)
  case (Suc i)
  then show ?case by (cases xs) simp_all
qed simp

lemma take_rows: "rows xs \<Longrightarrow> take (32 * i) (concat xs) = concat (take i xs)"
proof (induction i arbitrary: xs)
  case (Suc i)
  then show ?case by (cases xs) simp_all
qed simp

lemma read_rows: "rows xs \<Longrightarrow> i \<le> length xs \<Longrightarrow> read_at (concat xs) 0 (32 * i) = Some (concat (take i xs))"
  by (simp add: read_at_def length_rows take_rows)

lemma write_rows:
  assumes "rows xs" "rows ys" "j + length ys \<le> length xs"
  shows "write_at (32 * j) (concat ys) (concat xs) = Some (concat (take j xs @ ys @ drop (j + length ys) xs))"
proof -
  have "32 * j + length (concat ys) = 32 * (j + length ys)" using assms by (simp add: length_rows)
  then show ?thesis using assms by (simp add: write_at_def length_rows take_rows drop_rows del: distrib_left_numeral)
qed

lemma write_row:
  "rows xs \<Longrightarrow> length h = 32 \<Longrightarrow> j < length xs \<Longrightarrow> write_at (32 * j) h (concat xs) = Some (concat (xs[j := h]))"
  using write_rows [of xs "[h]" j] by (simp add: upd_conv_take_nth_drop)

context fast_hash
begin

lemma hash_row_pair:
  assumes "rows xs" "i + 1 < length xs"
  shows "H (drop (32 * i) (concat xs)) 64 = Some (digest_of H (xs ! i @ xs ! (i + 1)))"
    "length (digest_of H (xs ! i @ xs ! (i + 1))) = 32"
proof -
  have d: "drop i xs = xs ! i # xs ! (i + 1) # drop (i + 2) xs"
    using assms(2) by (simp add: Cons_nth_drop_Suc)
  have l: "length (xs ! i) = 32" "length (xs ! (i + 1)) = 32" using assms by (simp_all add: rows_def)
  then show "H (drop (32 * i) (concat xs)) 64 = Some (digest_of H (xs ! i @ xs ! (i + 1)))"
    unfolding drop_rows [OF assms(1)] d by (subst digest_of) simp_all
  show "length (digest_of H (xs ! i @ xs ! (i + 1))) = 32" using l by (intro length_digest_of) simp
qed

lemma pair_up_from:
  "i + 1 < length xs \<Longrightarrow> pair_up D (take (2 * Suc n) (drop i xs)) = D (xs ! i @ xs ! (i + 1)) # pair_up D (take (2 * n) (drop (i + 2) xs))"
proof -
  assume "i + 1 < length xs"
  then have "drop i xs = xs ! i # xs ! (i + 1) # drop (i + 2) xs" by (simp add: Cons_nth_drop_Suc)
  then show ?thesis by simp
qed

lemma first_value:
  assumes "rows xs" "rows ys" "length ys = cnt" "j \<le> cnt" "i + 2 * (cnt - j) \<le> length xs"
  shows "tree_hash_first H (concat xs) cnt i j (concat ys) =
    Some (concat (take j ys @ pair_up (digest_of H) (take (2 * (cnt - j)) (drop i xs))), i + 2 * (cnt - j))"
  using assms(2-)
proof (induction "cnt - j" arbitrary: i j ys)
  case 0
  then show ?case by (simp add: tree_hash_first.simps)
next
  case (Suc n)
  then have j: "j < cnt" "n = cnt - Suc j" "i + 1 < length xs" by simp_all
  let ?h = "digest_of H (xs ! i @ xs ! (i + 1))"
  note h = hash_row_pair [OF assms(1) j(3)]
  let ?ys = "ys[j := ?h]"
  have ys: "rows ?ys" "length ?ys = cnt" using Suc.prems h(2) by (simp_all add: rows_update)
  have "tree_hash_first H (concat xs) cnt i j (concat ys) = tree_hash_first H (concat xs) cnt (i + 2) (Suc j) (concat ?ys)"
    using j h Suc.prems by (subst tree_hash_first.simps) (simp add: write_row)
  also have "\<dots> = Some (concat (take (Suc j) ?ys @ pair_up (digest_of H) (take (2 * (cnt - Suc j)) (drop (i + 2) xs))), i + 2 + 2 * (cnt - Suc j))"
    using Suc.hyps(1) [OF j(2) ys] Suc.prems j by simp
  also have "take (Suc j) ?ys = take j ys @ [?h]" using j Suc.prems by (simp add: take_Suc_conv_app_nth)
  also have "i + 2 + 2 * (cnt - Suc j) = i + 2 * (cnt - j)" using j by simp
  also have "(take j ys @ [?h]) @ pair_up (digest_of H) (take (2 * (cnt - Suc j)) (drop (i + 2) xs)) =
      take j ys @ pair_up (digest_of H) (take (2 * (cnt - j)) (drop i xs))"
    using pair_up_from [OF j(3), of "digest_of H" n] j by (simp add: Suc_diff_Suc)
  finally show ?case .
qed

lemma level_value:
  assumes "rows ys" "2 * cnt \<le> length ys" "j \<le> cnt"
  shows "\<exists>zs. tree_hash_level H cnt (2 * j) j (concat ys) = Some (concat zs) \<and> rows zs \<and> length zs = length ys \<and>
    take cnt zs = take j ys @ pair_up (digest_of H) (take (2 * (cnt - j)) (drop (2 * j) ys))"
  using assms
proof (induction "cnt - j" arbitrary: j ys)
  case 0
  then show ?case by (intro exI [of _ ys]) (simp add: tree_hash_level.simps)
next
  case (Suc n)
  then have j: "j < cnt" "n = cnt - Suc j" "2 * j + 1 < length ys" by simp_all
  let ?h = "digest_of H (ys ! (2 * j) @ ys ! (2 * j + 1))"
  note h = hash_row_pair [OF Suc.prems(1) j(3)]
  let ?ys = "ys[j := ?h]"
  have ys: "rows ?ys" using Suc.prems h(2) by (simp add: rows_update)
  have step: "tree_hash_level H cnt (2 * j) j (concat ys) = tree_hash_level H cnt (2 * Suc j) (Suc j) (concat ?ys)"
    using j h Suc.prems by (subst tree_hash_level.simps) (simp add: write_row)
  have t: "take (Suc j) ?ys = take j ys @ [?h]" "drop (2 * Suc j) ?ys = drop (2 * j + 2) ys"
    using j by (simp_all add: take_Suc_conv_app_nth drop_update_cancel)
  have "take j ys @ pair_up (digest_of H) (take (2 * (cnt - j)) (drop (2 * j) ys)) =
      take (Suc j) ?ys @ pair_up (digest_of H) (take (2 * (cnt - Suc j)) (drop (2 * Suc j) ?ys))"
    unfolding t using pair_up_from [OF j(3), of "digest_of H" n] j by (simp add: Suc_diff_Suc)
  with Suc.hyps(1) [OF j(2) ys] Suc.prems j show ?case unfolding step by simp
qed

lemma levels_value:
  assumes "rows ys" "2 * 2 ^ k \<le> length ys"
  shows "\<exists>zs. tree_hash_levels H (2 * 2 ^ k) (concat ys) = Some (concat zs) \<and> rows zs \<and> length zs = length ys \<and>
    take 2 zs = (pair_up (digest_of H) ^^ k) (take (2 * 2 ^ k) ys)"
  using assms
proof (induction k arbitrary: ys)
  case 0
  then show ?case by (intro exI [of _ ys]) (simp add: tree_hash_levels.simps)
next
  case (Suc k)
  from level_value [of ys "2 * 2 ^ k" 0] Suc.prems obtain zs where
    z: "tree_hash_level H (2 * 2 ^ k) 0 0 (concat ys) = Some (concat zs)" "rows zs" "length zs = length ys"
    "take (2 * 2 ^ k) zs = pair_up (digest_of H) (take (2 * (2 * 2 ^ k)) ys)" by auto
  have "(2 :: nat) < 2 * 2 ^ Suc k" using one_less_power [of "2 :: nat" "Suc k"] by simp
  then have "tree_hash_levels H (2 * 2 ^ Suc k) (concat ys) = tree_hash_levels H (2 * 2 ^ k) (concat zs)"
    using z(1) by (subst tree_hash_levels.simps) simp
  moreover have "2 * 2 ^ k \<le> length zs" using Suc.prems z(3) by simp
  ultimately show ?case
    using Suc.IH [OF z(2)] z(3,4) by (simp add: funpow_Suc_right del: funpow.simps)
qed

text \<open>The whole computation for three hashes and more.\<close>

lemma tree_value:
  assumes "rows xs" "length xs = unat count" "3 \<le> length xs" "2 ^ k < length xs" "length xs \<le> 2 * 2 ^ k"
    "32 * length xs < 2 ^ 64"
  shows "tree_hash_with H (concat xs) count = Some (merkle_root (digest_of H) k (first_level (digest_of H) (2 ^ k) xs))"
proof -
  let ?D = "digest_of H"
  obtain c where c: "tree_hash_cnt count = Some c" "unat c = 2 ^ k"
    using tree_hash_cnt_value [of count k] assms by auto
  let ?i = "2 * 2 ^ k - length xs"
  have small: "32 * (2::nat) ^ k < 2 ^ 64" using assms(4,6) by linarith
  have m: "unat ((- 1 :: u64) div 2) = 2 ^ 63 - 1" by (simp add: unat_div unsigned_minus_1_eq_mask mask_eq_exp_minus_1)
  have c32: "unat (c * 32) = 32 * 2 ^ k" using small by (simp add: unat_word_ariths c(2))
  have c2: "unat (2 * c) = 2 * 2 ^ k" using small by (simp add: unat_word_ariths c(2))
  have i: "unat (2 * c - count) = ?i"
    using assms(2,5) by (subst unat_sub) (simp_all add: word_le_nat_alt c2)
  have i32: "unat ((2 * c - count) * 32) = 32 * ?i"
    using small assms(4) by (subst unat_times_32) (simp_all add: i)
  have k0: "0 < k" using assms(3,5) by (cases k) simp_all
  define ys where "ys = replicate (2 ^ k) (replicate 32 (0 :: u8))"
  have ys: "rows ys" "length ys = 2 ^ k" "concat ys = replicate (32 * 2 ^ k) 0"
  proof -
    show "rows ys" "length ys = 2 ^ k" by (simp_all add: ys_def rows_def)
    have "concat (replicate n (replicate m (0 :: u8))) = replicate (m * n) 0" for n m
      by (induction n) (simp_all add: replicate_add)
    then show "concat ys = replicate (32 * 2 ^ k) 0" unfolding ys_def by blast
  qed
  let ?zs = "take ?i xs @ drop ?i ys"
  have le: "?i \<le> 2 ^ k" "?i \<le> length xs" using assms(4) by linarith+
  have zs: "rows ?zs" "length ?zs = 2 ^ k" using assms(1) ys le by simp_all
  have W: "write_at 0 (concat (take ?i xs)) (concat ys) = Some (concat ?zs)"
    using write_rows [of ys "take ?i xs" 0] ys le assms(1) by simp
  have e: "?i + 2 * (2 ^ k - ?i) = length xs" using assms(4,5) by linarith
  have F: "tree_hash_first H (concat xs) (2 ^ k) ?i ?i (concat ?zs) = Some (concat (first_level ?D (2 ^ k) xs), length xs)"
    using first_value [OF assms(1) zs le(1)] e le by (simp add: first_level_def)
  let ?L = "first_level ?D (2 ^ k) xs"
  have lL: "length ?L = 2 ^ k" using e le by (simp add: first_level_def)
  have rL: "rows ?L"
  proof -
    have "rows (pair_up ?D us)" if "rows us" for us
      using that by (induction ?D us rule: pair_up.induct) (auto intro: length_digest_of)
    then show ?thesis using assms(1) by (simp add: first_level_def)
  qed
  obtain q where q: "k = Suc q" using k0 by (cases k) auto
  from levels_value [OF rL, of q] lL obtain us where
    us: "tree_hash_levels H (2 ^ k) (concat ?L) = Some (concat us)" "rows us" "length us = 2 ^ k"
    "take 2 us = (pair_up ?D ^^ q) ?L" by (auto simp: q)
  obtain a b ws where ab: "us = a # b # ws"
    using us(3) by (cases us; cases "tl us") (auto simp: q)
  have "[merkle_root ?D k ?L] = (pair_up ?D ^^ k) ?L" using pair_up_merkle [OF lL] by simp
  also have "\<dots> = pair_up ?D (take 2 us)" by (simp add: q us(4))
  finally have R: "merkle_root ?D k ?L = ?D (a @ b)" by (simp add: ab)
  have "H (concat us) 64 = Some (?D (a @ b))"
    using hash_row_pair(1) [OF us(2), of 0] ab by simp
  moreover have "count \<noteq> 0" "count \<noteq> 1" "count \<noteq> 2" using assms(2,3) by auto
  moreover have "c < (- 1) div 2" using small by (simp add: word_less_nat_alt m c(2))
  ultimately show ?thesis
    using assms(2) c us(1) F W read_rows [OF assms(1) le(2)] ys(3)
    by (simp add: tree_hash_with_def Let_def c32 i i32 R del: left_diff_distrib_numeral)
qed

text \<open>The root for every number of hashes.\<close>

lemma tree_with_value:
  assumes "rows xs" "length xs = unat count" "32 * length xs < 2 ^ 64"
  defines "D \<equiv> digest_of H"
  shows "tree_hash_with H (concat xs) count =
    (if xs = [] then None else if length xs = 1 then Some (hd xs)
     else (let k = (LEAST k. length xs \<le> 2 * 2 ^ k) in Some (merkle_root D k (first_level D (2 ^ k) xs))))"
proof -
  consider "unat count = 0" | "unat count = 1" | "unat count = 2" | "3 \<le> unat count" by linarith
  then show ?thesis
  proof cases
    case 1
    then have "count = 0" "xs = []" using assms(2) by (simp_all add: unat_eq_0)
    then show ?thesis by (simp add: tree_hash_with_def)
  next
    case 2
    then have "count = 1" by (simp add: word_unat_eq_iff)
    moreover obtain x where "xs = [x]" using 2 assms(2) by (auto simp: length_Suc_conv)
    ultimately show ?thesis using assms(1) by (simp add: tree_hash_with_def HASH_SIZE_def read_at_def)
  next
    case 3
    then have "count = 2" by (simp add: word_unat_eq_iff)
    moreover obtain x y where xs: "xs = [x, y]" using 3 assms(2) by (auto simp: length_Suc_conv numeral_2_eq_2)
    moreover have "H (concat xs) 64 = Some (D (x @ y))"
      using hash_row_pair(1) [OF assms(1), of 0] xs by (simp add: D_def)
    moreover have "(LEAST k. length xs \<le> 2 * 2 ^ k) = 0" using xs by (intro Least_eq_0) simp
    ultimately show ?thesis by (simp add: tree_hash_with_def HASH_SIZE_def first_level_def Let_def)
  next
    case 4
    then obtain k where "2 ^ k \<le> unat count - 1" "unat count - 1 < 2 * 2 ^ k"
      using ex_log [of "unat count - 1"] by auto
    with 4 have k: "2 ^ k < length xs" "length xs \<le> 2 * 2 ^ k" unfolding assms(2) by linarith+
    have "(LEAST k. length xs \<le> 2 * 2 ^ k) = k" by (rule least_log [OF k])
    moreover have "xs \<noteq> []" "length xs \<noteq> 1" using 4 assms(2) by auto
    ultimately show ?thesis
      using tree_value [OF assms(1,2) _ k assms(3)] 4 assms(2) by (simp add: Let_def D_def)
  qed
qed

text \<open>Equal digests of different rows are a collision at a node, for a pair, a level and a tree.\<close>

definition node_collision :: "u8 list list \<Rightarrow> u8 list list \<Rightarrow> bool" where
  "node_collision us vs \<longleftrightarrow> (\<exists>(u, v)\<in>set (zip us vs). u \<noteq> v \<and> length u = 64 \<and> length v = 64 \<and> H u 64 = H v 64)"

lemma node_collision_Cons:
  "node_collision (u # us) (v # vs) \<longleftrightarrow> u \<noteq> v \<and> length u = 64 \<and> length v = 64 \<and> H u 64 = H v 64 \<or> node_collision us vs"
  by (simp add: node_collision_def)

lemma node_collision_append:
  "length us = length vs \<Longrightarrow> node_collision (us @ us') (vs @ vs') \<longleftrightarrow> node_collision us vs \<or> node_collision us' vs'"
  by (auto simp: node_collision_def)

lemma digest_inject: "length u = 64 \<Longrightarrow> length v = 64 \<Longrightarrow> digest_of H u = digest_of H v \<Longrightarrow> H u 64 = H v 64"
  using digest_of [of u] digest_of [of v] by simp

lemma level_collision:
  assumes "rows xs" "rows ys" "length xs = length ys" "even (length xs)"
    "pair_up (digest_of H) xs = pair_up (digest_of H) ys"
  shows "xs = ys \<or> node_collision (pair_inputs xs) (pair_inputs ys)"
  using assms
proof (induction xs arbitrary: ys rule: pair_inputs.induct)
  case (1 a b xs)
  then obtain c d zs where ys: "ys = c # d # zs" by (auto simp: length_Suc_conv Suc_length_conv)
  have l: "length a = 32" "length b = 32" "length c = 32" "length d = 32" using 1(2,3) unfolding ys by simp_all
  have "a = c \<and> b = d \<or> node_collision (pair_inputs (a # b # xs)) (pair_inputs ys)"
    using 1(6) l digest_inject [of "a @ b" "c @ d"] unfolding ys by (auto simp: node_collision_Cons)
  then show ?case using 1(1) [of zs] 1(2-) unfolding ys by (auto simp: node_collision_Cons)
qed auto

lemma length_merkle_root: "rows xs \<Longrightarrow> length xs = 2 ^ k \<Longrightarrow> length (merkle_root (digest_of H) k xs) = 32"
proof (induction k arbitrary: xs)
  case 0
  then show ?case by (cases xs) auto
next
  case (Suc k)
  then show ?case by (simp add: length_digest_of)
qed

lemma merkle_collision:
  assumes "rows xs" "rows ys" "length xs = 2 ^ k" "length ys = 2 ^ k"
    "merkle_root (digest_of H) k xs = merkle_root (digest_of H) k ys"
  shows "xs = ys \<or> node_collision (merkle_inputs (digest_of H) k xs) (merkle_inputs (digest_of H) k ys)"
  using assms
proof (induction k arbitrary: xs ys)
  case 0
  then show ?case by (auto simp: length_Suc_conv)
next
  case (Suc k)
  let ?l = "take (2 ^ k)" and ?r = "drop (2 ^ k) :: u8 list list \<Rightarrow> _" and ?m = "merkle_root (digest_of H) k"
  let ?c = "node_collision (merkle_inputs (digest_of H) (Suc k) xs) (merkle_inputs (digest_of H) (Suc k) ys)"
  have len: "length (?l xs) = 2 ^ k" "length (?r xs) = 2 ^ k" "length (?l ys) = 2 ^ k" "length (?r ys) = 2 ^ k"
    using Suc.prems by simp_all
  then have m: "length (?m (?l xs)) = 32" "length (?m (?r xs)) = 32" "length (?m (?l ys)) = 32" "length (?m (?r ys)) = 32"
    using Suc.prems by (simp_all add: length_merkle_root)
  note c = node_collision_Cons node_collision_append [OF trans [OF length_merkle_inputs length_merkle_inputs [symmetric]]]
  have "?m (?l xs) = ?m (?l ys) \<and> ?m (?r xs) = ?m (?r ys) \<or> ?c"
    using Suc.prems(5) m digest_inject [of "?m (?l xs) @ ?m (?r xs)" "?m (?l ys) @ ?m (?r ys)"] by (auto simp: c)
  moreover have "?l xs = ?l ys \<or> ?c" if "?m (?l xs) = ?m (?l ys)"
    using Suc.IH [of "?l xs" "?l ys"] Suc.prems len that by (auto simp: c)
  moreover have "?r xs = ?r ys \<or> ?c" if "?m (?r xs) = ?m (?r ys)"
    using Suc.IH [of "?r xs" "?r ys"] Suc.prems len that by (auto simp: c)
  ultimately show ?case by (metis append_take_drop_id)
qed

lemma tree_collision:
  assumes "rows xs" "rows ys" "length xs = length ys" "2 ^ k < length xs" "length xs \<le> 2 * 2 ^ k"
    "merkle_root (digest_of H) k (first_level (digest_of H) (2 ^ k) xs) =
     merkle_root (digest_of H) k (first_level (digest_of H) (2 ^ k) ys)"
  defines "inputs \<equiv> (\<lambda>xs. pair_inputs (drop (2 * 2 ^ k - length xs) xs) @
    merkle_inputs (digest_of H) k (first_level (digest_of H) (2 ^ k) xs))"
  shows "xs = ys \<or> node_collision (inputs xs) (inputs ys)"
proof -
  let ?D = "digest_of H" and ?i = "2 * 2 ^ k - length xs"
  have r: "rows (pair_up ?D us)" if "rows us" for us
    using that by (induction ?D us rule: pair_up.induct) (auto intro: length_digest_of)
  have e: "?i \<le> length xs" "2 * (2 ^ k - ?i) = length xs - ?i" using assms(4,5) by linarith+
  have ev: "even (length xs - ?i)" using e(2) by (metis dvd_triv_left)
  have c: "node_collision (inputs xs) (inputs ys) \<longleftrightarrow>
      node_collision (pair_inputs (drop ?i xs)) (pair_inputs (drop ?i ys)) \<or>
      node_collision (merkle_inputs ?D k (first_level ?D (2 ^ k) xs)) (merkle_inputs ?D k (first_level ?D (2 ^ k) ys))"
    unfolding inputs_def assms(3) by (intro node_collision_append) (simp add: assms(3))
  have f: "rows (first_level ?D (2 ^ k) zs) \<and> length (first_level ?D (2 ^ k) zs) = 2 ^ k" if "rows zs" "length zs = length xs" for zs
    using that r [of "drop ?i zs"] e by (simp add: first_level_def)
  have "first_level ?D (2 ^ k) xs = first_level ?D (2 ^ k) ys \<or> node_collision (inputs xs) (inputs ys)"
    unfolding c using merkle_collision [OF _ _ _ _ assms(6)] f [OF assms(1) refl] f [OF assms(2) assms(3) [symmetric]] by blast
  then have "take ?i xs = take ?i ys \<and> pair_up ?D (drop ?i xs) = pair_up ?D (drop ?i ys) \<or> node_collision (inputs xs) (inputs ys)"
    using assms(3) by (auto simp: first_level_def)
  moreover have "drop ?i xs = drop ?i ys \<or> node_collision (inputs xs) (inputs ys)"
    if "pair_up ?D (drop ?i xs) = pair_up ?D (drop ?i ys)"
  proof -
    have "rows (drop ?i xs)" "rows (drop ?i ys)" "length (drop ?i xs) = length (drop ?i ys)" "even (length (drop ?i xs))"
      using assms(1-3) ev by simp_all
    from level_collision [OF this that] show ?thesis unfolding c by blast
  qed
  ultimately show "xs = ys \<or> node_collision (inputs xs) (inputs ys)" by (metis append_take_drop_id)
qed

end


section \<open>The properties of the tree hash\<close>

text \<open>C38: The rounding of \<open>tree_hash_cnt\<close> ends and satisfies its four assertions for every count from 3 on, up to the
  largest \<open>size_t\<close>: the result is the power of two below the count and at least its half; below 3 the first
  assertion fails.\<close>

theorem tree_hash_cnt_correct:
  "(case tree_hash_cnt count of
      None \<Rightarrow> unat count < 3
    | Some c \<Rightarrow> 3 \<le> unat count \<and> unat c < unat count \<and> unat count \<le> 2 * unat c \<and> (\<exists>k. unat c = 2 ^ k))"
proof (cases "unat count < 3")
  case True
  then have "count < 3" by (simp add: word_less_nat_alt)
  with True show ?thesis by (simp add: tree_hash_cnt_def)
next
  case False
  then obtain k where k: "2 ^ k \<le> unat count - 1" "unat count - 1 < 2 * 2 ^ k"
    using ex_log [of "unat count - 1"] by auto
  with False have "2 ^ k < unat count" "unat count \<le> 2 * 2 ^ k" by linarith+
  with tree_hash_cnt_value [of count k] False show ?thesis by auto
qed

lemma tree_hash_value:
  assumes "\<forall>x\<in>set xs. length x = 32" "length xs = unat count" "32 * length xs < 2 ^ 64"
  defines "D \<equiv> digest_of cn_fast_hash"
  shows "tree_hash (concat xs) count =
    (if xs = [] then None else if length xs = 1 then Some (hd xs)
     else (let k = (LEAST k. length xs \<le> 2 * 2 ^ k) in Some (merkle_root D k (first_level D (2 ^ k) xs))))"
  using cn.tree_with_value [of xs count] assms by (simp add: tree_hash_def rows_def D_def)

text \<open>\<open>tree_inputs\<close> is what the code hashes: any other hash function gives the same root if it agrees on these inputs.\<close>

theorem tree_hash_inputs:
  assumes "fast_hash H" "\<forall>u\<in>set (tree_inputs (digest_of cn_fast_hash) xs). H u 64 = cn_fast_hash u 64"
    "\<forall>x\<in>set xs. length x = 32" "length xs = unat count" "32 * length xs < 2 ^ 64"
  shows "tree_hash_with H (concat xs) count = tree_hash (concat xs) count"
proof -
  let ?D = "digest_of cn_fast_hash" and ?k = "LEAST k. length xs \<le> 2 * 2 ^ k"
  have D: "\<forall>u\<in>set (tree_inputs ?D xs). digest_of H u = ?D u" using assms(2) by (simp add: digest_of_def)
  have "merkle_root (digest_of H) ?k (first_level (digest_of H) (2 ^ ?k) xs) = merkle_root ?D ?k (first_level ?D (2 ^ ?k) xs)"
    if "\<not> length xs \<le> 1"
  proof -
    have "first_level (digest_of H) (2 ^ ?k) xs = first_level ?D (2 ^ ?k) xs"
      using D that pair_up_inputs [of "drop (2 * 2 ^ ?k - length xs) xs" "digest_of H" ?D]
      by (simp add: first_level_def tree_inputs_def Let_def)
    then show ?thesis
      using D that merkle_root_inputs [of ?D ?k "first_level ?D (2 ^ ?k) xs" "digest_of H"] by (simp add: tree_inputs_def Let_def)
  qed
  moreover have "xs = [] \<or> length xs = 1 \<or> \<not> length xs \<le> 1" by (cases xs) auto
  ultimately show ?thesis
    using fast_hash.tree_with_value [OF assms(1) _ assms(4,5)] tree_hash_value [OF assms(3-5)] assms(3)
    by (auto simp: rows_def Let_def)
qed

theorem tree_hash_inputs_witness:
  "tree_hash_with cn_fast_hash (concat [replicate 32 1, replicate 32 2]) 2 = tree_hash (concat [replicate 32 1, replicate 32 2]) 2"
  by (rule tree_hash_inputs) (use cn.fast_hash_axioms in simp_all)

text \<open>C19: \<open>tree_hash\<close> of \<open>n\<close> hashes is the root of the binary tree with these leaves: the hash itself for one, and for
  \<open>2^k < n \<le> 2^(k+1)\<close> the root of the complete tree of height \<open>k\<close> over a first level of hashes and pairs of hashes;
  no assertion fails and no access leaves the buffers, although every level is computed in place over the one
  below. Without hashes the first assertion fails.\<close>

theorem tree_hash_correct:
  assumes "\<forall>x\<in>set xs. length x = 32" "length xs = unat count" "32 * length xs < 2 ^ 64"
  defines "D \<equiv> digest_of cn_fast_hash"
  shows "tree_hash (concat xs) count =
    (if xs = [] then None else if length xs = 1 then Some (hd xs)
     else (let k = (LEAST k. length xs \<le> 2 * 2 ^ k) in Some (merkle_root D k (first_level D (2 ^ k) xs))))"
  unfolding D_def by (rule tree_hash_value [OF assms(1-3)])

theorem tree_hash_correct_witness:
  "tree_hash (replicate 32 1 @ replicate 32 2 @ replicate 32 3) 3 =
    (let D = digest_of cn_fast_hash in Some (D (replicate 32 1 @ D (replicate 32 2 @ replicate 32 3))))"
proof -
  have l: "(LEAST k. Suc (Suc (Suc 0)) \<le> 2 * 2 ^ k) = 1"
  proof (rule Least_equality)
    fix j assume "Suc (Suc (Suc 0)) \<le> 2 * 2 ^ j"
    then show "1 \<le> j" by (cases j) simp_all
  qed simp
  show ?thesis
    using tree_hash_correct [of "[replicate 32 1, replicate 32 2, replicate 32 3]" 3]
    by (simp add: l first_level_def Let_def)
qed

text \<open>C20: The root binds the hashes: two different lists of the same number \<open>n\<close> of hashes have different roots, or computing
  the two roots hashes two different inputs of 64 bytes with the same \<open>cn_fast_hash\<close> at one and the same of the \<open>n - 1\<close>
  nodes of the trees. A collision is thus found by comparing the \<open>n - 1\<close> pairs of inputs, and not merely known to exist.\<close>

theorem tree_hash_binding:
  assumes "\<forall>x\<in>set xs. length x = 32" "\<forall>y\<in>set ys. length y = 32" "length xs = unat count" "length ys = unat count"
    "32 * length xs < 2 ^ 64" "xs \<noteq> ys"
  defines "inputs \<equiv> tree_inputs (digest_of cn_fast_hash)"
  shows "length (inputs xs) = length xs - 1 \<and> length (inputs ys) = length xs - 1 \<and>
    (tree_hash (concat xs) count \<noteq> tree_hash (concat ys) count \<or>
     (\<exists>(u, v)\<in>set (zip (inputs xs) (inputs ys)). u \<noteq> v \<and> length u = 64 \<and> length v = 64 \<and> cn_fast_hash u 64 = cn_fast_hash v 64))"
proof (cases "length xs = 1")
  case True
  then obtain x y where "xs = [x]" "ys = [y]" using assms(3,4) by (auto simp: length_Suc_conv)
  then show ?thesis
    using tree_hash_value [OF assms(1,3,5)] tree_hash_value [OF assms(2,4)] assms(6) by (simp add: inputs_def tree_inputs_def)
next
  case False
  have r: "rows xs" "rows ys" using assms(1,2) by (simp_all add: rows_def)
  have len: "length ys = length xs" "32 * length ys < 2 ^ 64" using assms(3-5) by simp_all
  have "length xs \<noteq> 0" using assms(6) len(1) by auto
  then have n: "2 \<le> length xs" using False by linarith
  then obtain k where "2 ^ k \<le> length xs - 1" "length xs - 1 < 2 * 2 ^ k" using ex_log [of "length xs - 1"] by auto
  with n have k: "2 ^ k < length xs" "length xs \<le> 2 * 2 ^ k" by linarith+
  have ne: "xs \<noteq> []" "ys \<noteq> []" "\<not> length xs \<le> 1" "\<not> length ys \<le> 1" "length xs \<noteq> 1" "length ys \<noteq> 1" using n len(1) by auto
  note C = cn.tree_collision [OF r len(1) [symmetric] k]
  have i: "inputs zs = pair_inputs (drop (2 * 2 ^ k - length zs) zs) @
      merkle_inputs (digest_of cn_fast_hash) k (first_level (digest_of cn_fast_hash) (2 ^ k) zs)" if "length zs = length xs" for zs
    using least_log [OF k] ne(3) that by (simp add: inputs_def tree_inputs_def Let_def)
  have l: "length (inputs zs) = length xs - 1" if "length zs = length xs" for zs
    using k unfolding i [OF that] by (simp add: that length_merkle_inputs)
  show ?thesis
  proof (cases "tree_hash (concat xs) count = tree_hash (concat ys) count")
    case True
    then have "merkle_root (digest_of cn_fast_hash) k (first_level (digest_of cn_fast_hash) (2 ^ k) xs) =
        merkle_root (digest_of cn_fast_hash) k (first_level (digest_of cn_fast_hash) (2 ^ k) ys)"
      using tree_hash_value [OF assms(1,3,5)] tree_hash_value [OF assms(2,4) len(2)] ne least_log [OF k] len(1) by (simp add: Let_def)
    from C [OF this] assms(6) show ?thesis
      using l [of xs] l [of ys] unfolding cn.node_collision_def i [OF refl, symmetric] i [OF len(1), symmetric]
      by (simp add: len(1))
  qed (use l [of xs] l [of ys] len(1) in simp)
qed

theorem tree_hash_binding_witness:
  "let a = replicate 32 (1 :: u8); b = replicate 32 2; c = replicate 32 3; D = digest_of cn_fast_hash
   in tree_hash (a @ b @ c) 3 \<noteq> tree_hash (a @ c @ b) 3 \<or>
     (\<exists>(u, v)\<in>set (zip (tree_inputs D [a, b, c]) (tree_inputs D [a, c, b])). u \<noteq> v \<and> cn_fast_hash u 64 = cn_fast_hash v 64)"
proof -
  have "replicate 32 (2 :: u8) \<noteq> replicate 32 3" by simp
  then show ?thesis
    using tree_hash_binding [of "[replicate 32 1, replicate 32 2, replicate 32 3]" "[replicate 32 1, replicate 32 3, replicate 32 2]" 3]
    by (auto simp: Let_def)
qed

end
