(* ===== verification/Int_Util.thy ===== *)
theory Int_Util
  imports Prelude
begin

text \<open>
  The integer helpers of common/int-util.h: rotations, the 128-bit product in its portable and its
  GCC version, and the long division by a 32-bit divisor. Its byte-order helpers are the identity on the
  little-endian hosts this development models.
\<close>

section \<open>Rotations and halves\<close>

text \<open>\<open>(x << (r & 31)) | (x >> (-r & 31))\<close>; the argument \<open>r\<close> is an \<open>int\<close>.\<close>

definition rol32 :: "u32 \<Rightarrow> int \<Rightarrow> u32" where
  "rol32 x r = push_bit (nat (r AND 31)) x OR drop_bit (nat (- r AND 31)) x"

definition rol64 :: "u64 \<Rightarrow> int \<Rightarrow> u64" where
  "rol64 x r = push_bit (nat (r AND 63)) x OR drop_bit (nat (- r AND 63)) x"

definition hi_dword :: "u64 \<Rightarrow> u64" where
  "hi_dword val = drop_bit 32 val"

definition lo_dword :: "u64 \<Rightarrow> u64" where
  "lo_dword val = val AND 0xFFFFFFFF"

section \<open>128-bit arithmetic\<close>

text \<open>The portable version of \<open>mul128\<close>; the result is the low and the high word, or \<open>None\<close> where the
  assertion fails.\<close>

definition mul128 :: "u64 \<Rightarrow> u64 \<Rightarrow> (u64 \<times> u64) option" where
  "mul128 multiplier multiplicand =
     (let a = hi_dword multiplier;
          b = lo_dword multiplier;
          c = hi_dword multiplicand;
          d = lo_dword multiplicand;
          ac = a * c;
          ad = a * d;
          bc = b * c;
          bd = b * d;
          adbc = ad + bc;
          adbc_carry = (if adbc < ad then 1 else 0);
          product_lo = bd + push_bit 32 adbc;
          product_lo_carry = (if product_lo < bd then 1 else 0);
          product_hi = ac + drop_bit 32 adbc + push_bit 32 adbc_carry + product_lo_carry
      in if ac \<le> product_hi then Some (product_lo, product_hi) else None)"

text \<open>The version with the 128-bit integers of GCC.\<close>

definition mul128_gcc :: "u64 \<Rightarrow> u64 \<Rightarrow> u64 \<times> u64" where
  "mul128_gcc a b =
     (let res = (ucast a :: 128 word) * (ucast b :: 128 word)
      in (ucast res, ucast (drop_bit 64 res)))"

text \<open>\<open>div_with_reminder\<close> returns the quotient and the new remainder; a zero divisor is undefined.\<close>

definition div_with_reminder :: "u64 \<Rightarrow> u32 \<Rightarrow> u32 \<Rightarrow> (u64 \<times> u32) option" where
  "div_with_reminder dividend divisor remainder =
     (let dividend = dividend OR push_bit 32 (ucast remainder :: u64)
      in if divisor = 0 then None
         else Some (dividend div ucast divisor, ucast (dividend mod ucast divisor)))"

text \<open>\<open>div128_32\<close>: the quotient's high and low words, and the remainder.\<close>

definition div128_32 :: "u64 \<Rightarrow> u64 \<Rightarrow> u32 \<Rightarrow> (u64 \<times> u64 \<times> u32) option" where
  "div128_32 dividend_hi dividend_lo divisor =
     Option.bind (div_with_reminder (hi_dword dividend_hi) divisor 0) (\<lambda>(q3, remainder).
     Option.bind (div_with_reminder (lo_dword dividend_hi) divisor remainder) (\<lambda>(q2, remainder).
     Option.bind (div_with_reminder (hi_dword dividend_lo) divisor remainder) (\<lambda>(q1, remainder).
     Option.bind (div_with_reminder (lo_dword dividend_lo) divisor remainder) (\<lambda>(q0, remainder).
       Some (push_bit 32 q3 OR q2, push_bit 32 q1 OR q0, remainder)))))"

section \<open>Their values\<close>

lemma uint_hi_lo: "uint (hi_dword x) = uint x div 2 ^ 32" "uint (lo_dword x) = uint x mod 2 ^ 32"
proof -
  have m: "(0xFFFFFFFF :: u64) = mask 32" by (simp add: mask_eq_exp_minus_1)
  show "uint (hi_dword x) = uint x div 2 ^ 32" unfolding hi_dword_def uint_drop_bit by (rule drop_bit_eq_div)
  show "uint (lo_dword x) = uint x mod 2 ^ 32"
    unfolding lo_dword_def m take_bit_eq_mask [symmetric] uint_take_bit by (rule take_bit_eq_mod)
qed

lemma hi_lo_bounds:
  "0 \<le> uint (hi_dword x)" "uint (hi_dword x) < 2 ^ 32" "0 \<le> uint (lo_dword x)" "uint (lo_dword x) < 2 ^ 32"
  "uint x = 2 ^ 32 * uint (hi_dword x) + uint (lo_dword x)"
proof -
  have "uint x < 2 ^ 64" using uint_bounded [of x] by simp
  then show "uint (hi_dword x) < 2 ^ 32" unfolding uint_hi_lo by simp
qed (simp_all add: uint_hi_lo pos_imp_zdiv_nonneg_iff)

lemma mod_wrap_once: "m \<le> z \<Longrightarrow> z < 2 * m \<Longrightarrow> z mod m = z - (m::int)"
  using mod_pos_pos_trivial [of "z - m" m] by simp

text \<open>A sum wraps exactly when it is smaller than a summand.\<close>

lemma uint_plus_carry: "uint (x + y :: u64) = uint x + uint y - (if x + y < x then 2 ^ 64 else 0)"
proof -
  have b: "uint x < 2 ^ 64" "uint y < 2 ^ 64" using uint_bounded [of x] uint_bounded [of y] by simp_all
  have s: "uint (x + y) = (uint x + uint y) mod 2 ^ 64" by (simp add: uint_word_ariths)
  show ?thesis
  proof (cases "uint x + uint y < 2 ^ 64")
    case True
    then show ?thesis using s by (simp add: word_less_def)
  next
    case False
    then have "uint (x + y) = uint x + uint y - 2 ^ 64"
      using b unfolding s by (intro mod_wrap_once) linarith+
    then show ?thesis using b by (simp add: word_less_def)
  qed
qed

lemma uint_mult_small: "uint x * uint y < 2 ^ 64 \<Longrightarrow> uint (x * y :: u64) = uint x * uint y"
  by (simp add: uint_word_ariths)

lemma uint_plus_small: "uint x + uint y < 2 ^ 64 \<Longrightarrow> uint (x + y :: u64) = uint x + uint y"
  by (simp add: uint_word_ariths)

lemma uint_push_32: "uint (push_bit 32 x :: u64) = 2 ^ 32 * (uint x mod 2 ^ 32)"
proof -
  have "uint (push_bit 32 x :: u64) = (2 ^ 32 * uint x) mod (2 ^ 32 * 2 ^ 32)"
    by (subst unsigned_push_bit_eq) (simp add: push_bit_eq_mult take_bit_eq_mod mult.commute)
  then show ?thesis by (simp only: mult_mod_right)
qed

lemma split_32: "2 ^ 32 * (z mod 2 ^ 32) + 2 ^ 64 * (z div 2 ^ 32) = 2 ^ 32 * (z::int)"
proof -
  have "k * (z mod k) + k * k * (z div k) = k * z" for k
    using mult_div_mod_eq [of k z] by (metis add.commute distrib_left mult.assoc)
  from this [of "2 ^ 32"] show ?thesis by simp
qed

lemma uint_carry_bit: "uint (if b then 1 else 0 :: u64) = (if b then 1 else 0)"
  by simp

lemma mul128_value:
  "\<exists>lo hi. mul128 x y = Some (lo, hi) \<and> uint lo + 2 ^ 64 * uint hi = uint x * uint y"
proof -
  define a b c d where "a = hi_dword x" and "b = lo_dword x" and "c = hi_dword y" and "d = lo_dword y"
  have B: "0 \<le> uint a" "uint a \<le> 2 ^ 32 - 1" "0 \<le> uint b" "uint b \<le> 2 ^ 32 - 1" "0 \<le> uint c" "uint c \<le> 2 ^ 32 - 1"
    "0 \<le> uint d" "uint d \<le> 2 ^ 32 - 1" and XY: "uint x = 2 ^ 32 * uint a + uint b" "uint y = 2 ^ 32 * uint c + uint d"
    using hi_lo_bounds [of x] hi_lo_bounds [of y] unfolding a_def b_def c_def d_def by simp_all
  have small: "uint (u * v) = uint u * uint v" if "uint u \<le> 2 ^ 32 - 1" "uint v \<le> 2 ^ 32 - 1" for u v :: u64
  proof -
    have "uint u * uint v \<le> (2 ^ 32 - 1) * (2 ^ 32 - 1)" using that by (intro mult_mono) simp_all
    then show ?thesis by (intro uint_mult_small) simp
  qed
  define s where "s = a * d + b * c"
  define c1 where "c1 = (s < a * d)"
  define lo where "lo = b * d + push_bit 32 s"
  define c2 where "c2 = (lo < b * d)"
  define hi where "hi = a * c + drop_bit 32 s + push_bit 32 (if c1 then 1 else 0) + (if c2 then 1 else 0 :: u64)"
  have S: "uint s = uint a * uint d + uint b * uint c - (if c1 then 2 ^ 64 else 0)"
    using uint_plus_carry [of "a * d" "b * c"] B by (simp add: s_def [symmetric] c1_def [symmetric] small)
  have L: "uint lo = uint b * uint d + 2 ^ 32 * (uint s mod 2 ^ 32) - (if c2 then 2 ^ 64 else 0)"
    using uint_plus_carry [of "b * d" "push_bit 32 s"] B
    by (simp add: lo_def [symmetric] c2_def [symmetric] small uint_push_32)
  define H where "H = uint a * uint c + uint s div 2 ^ 32 + 2 ^ 32 * (if c1 then 1 else 0) + (if c2 then 1 else 0)"
  have split: "2 ^ 32 * (uint s mod 2 ^ 32) + 2 ^ 64 * (uint s div 2 ^ 32) = 2 ^ 32 * uint s"
    by (rule split_32)
  have V: "uint lo + 2 ^ 64 * H = uint x * uint y"
    unfolding XY using S L split by (cases c1; cases c2) (simp_all add: H_def algebra_simps)
  have "uint x * uint y < 2 ^ 64 * 2 ^ 64"
    using uint_bounded [of x] uint_bounded [of y] by (intro mult_strict_mono) simp_all
  then have "2 ^ 64 * H < 2 ^ 64 * 2 ^ 64" unfolding V [symmetric] using uint_ge_0 [of lo] by (simp only: add.commute)
  then have H: "H < 2 ^ 64" by simp
  define v2 v3 v4 :: u64 where "v2 = drop_bit 32 s" and "v3 = push_bit 32 (if c1 then 1 else 0)" and "v4 = (if c2 then 1 else 0)"
  have u1: "uint (a * c) = uint a * uint c" using B by (simp add: small)
  have u2: "uint v2 = uint s div 2 ^ 32" unfolding v2_def uint_drop_bit by (rule drop_bit_eq_div)
  have u3: "uint v3 = 2 ^ 32 * (if c1 then 1 else 0)" unfolding v3_def uint_push_32 by simp
  have u4: "uint v4 = (if c2 then 1 else 0)" by (simp add: v4_def)
  have HH: "H = uint (a * c) + uint v2 + uint v3 + uint v4" by (simp only: H_def u1 u2 u3 u4)
  note pos = uint_ge_0 [of "a * c"] uint_ge_0 [of v2] uint_ge_0 [of v3] uint_ge_0 [of v4]
  have s1: "uint (a * c + v2) = uint (a * c) + uint v2" by (rule uint_plus_small) (use H HH pos in linarith)
  have s2: "uint (a * c + v2 + v3) = uint (a * c) + uint v2 + uint v3"
    unfolding s1 [symmetric] by (rule uint_plus_small) (use H HH pos s1 in linarith)
  have "uint (a * c + v2 + v3 + v4) = H"
    unfolding HH s2 [symmetric] by (rule uint_plus_small) (use H HH pos s2 in linarith)
  then have "uint hi = H" by (simp only: hi_def v2_def v3_def v4_def)
  moreover have le: "uint (a * c) \<le> H" using HH pos by linarith
  ultimately have "uint hi = H" "uint (a * c) \<le> uint hi" by simp_all
  then have "mul128 x y = Some (lo, hi)"
    by (simp add: mul128_def Let_def a_def [symmetric] b_def [symmetric] c_def [symmetric] d_def [symmetric]
      s_def [symmetric] c1_def [symmetric] lo_def [symmetric] c2_def [symmetric] hi_def [symmetric] word_le_def)
  with V \<open>uint hi = H\<close> show ?thesis by auto
qed

lemma mul128_gcc_value:
  "uint (fst (mul128_gcc x y)) + 2 ^ 64 * uint (snd (mul128_gcc x y)) = uint x * uint y"
proof -
  let ?r = "(ucast x :: 128 word) * ucast y"
  have u: "uint (ucast z :: 128 word) = uint z" for z :: u64 by (rule uint_up_ucast) (simp add: is_up)
  have b: "uint x < 2 ^ 64" "uint y < 2 ^ 64" using uint_bounded [of x] uint_bounded [of y] by simp_all
  then have "uint x * uint y < 2 ^ 64 * 2 ^ 64" by (intro mult_strict_mono) simp_all
  then have r: "uint ?r = uint x * uint y" by (simp add: uint_word_ariths u)
  have "uint (ucast ?r :: u64) = uint ?r mod 2 ^ 64" by (simp add: unsigned_ucast_eq take_bit_eq_mod)
  moreover have "uint (ucast (drop_bit 64 ?r) :: u64) = uint ?r div 2 ^ 64"
  proof -
    have "uint (ucast (drop_bit 64 ?r) :: u64) = take_bit 64 (drop_bit 64 (uint ?r))"
      by (simp only: unsigned_ucast_eq uint_drop_bit) simp
    also have "\<dots> = drop_bit 64 (uint ?r)"
      using uint_bounded [of ?r] by (intro take_bit_int_eq_self) (simp_all add: drop_bit_eq_div pos_imp_zdiv_nonneg_iff)
    finally show ?thesis by (simp only: drop_bit_eq_div)
  qed
  ultimately show ?thesis unfolding mul128_gcc_def Let_def fst_conv snd_conv
    using r mod_mult_div_eq [of "uint ?r" "2 ^ 64"] by simp
qed

text \<open>One step of the long division.\<close>

lemma div_with_reminder_value:
  assumes "uint e < 2 ^ 32" "uint r < uint d"
  shows "\<exists>q r'. div_with_reminder e d r = Some (q, r') \<and> uint q < 2 ^ 32 \<and>
    uint q = (2 ^ 32 * uint r + uint e) div uint d \<and> uint r' = (2 ^ 32 * uint r + uint e) mod uint d"
proof -
  have d: "0 < uint d" "uint d < 2 ^ 32" using assms(2) uint_bounded [of d] uint_ge_0 [of r] by (linarith, simp)
  then have d0: "d \<noteq> 0" by auto
  have u: "uint (ucast z :: u64) = uint z" for z :: u32 by (rule uint_up_ucast) (simp add: is_up)
  define n where "n = 2 ^ 32 * uint r + uint e"
  have n: "n < 2 ^ 32 * uint d" "0 \<le> n" using assms by (simp_all add: n_def)
  have "uint (e OR push_bit 32 (ucast r)) = uint e OR push_bit 32 (uint r)"
  proof -
    have "uint (push_bit 32 (ucast r) :: u64) = 2 ^ 32 * uint r"
      using uint_push_32 [of "ucast r"] uint_bounded [of r] unfolding u by simp
    then show ?thesis by (simp only: uint_or push_bit_eq_mult [of 32 "uint r"] mult.commute)
  qed
  also have "\<dots> = n"
    using or_push_bit_add [of "uint e" 32 "uint r"] assms(1) by (simp add: n_def)
  finally have N: "uint (e OR push_bit 32 (ucast r)) = n" .
  have "n div uint d * uint d \<le> n" using d(1) by (simp add: minus_mod_eq_div_mult [symmetric])
  then have "n div uint d * uint d < 2 ^ 32 * uint d" using n(1) by linarith
  then have q: "n div uint d < 2 ^ 32" using d(1) by (simp only: mult_less_cancel_right_pos)
  have m: "n mod uint d < 2 ^ 32" "0 \<le> n mod uint d"
    using d pos_mod_bound [OF d(1), of n] pos_mod_sign [OF d(1), of n] by linarith+
  have Q: "uint ((e OR push_bit 32 (ucast r)) div ucast d) = n div uint d"
    "uint ((e OR push_bit 32 (ucast r)) mod ucast d) = n mod uint d"
    by (simp_all only: uint_div uint_mod N u)
  have "uint (ucast ((e OR push_bit 32 (ucast r)) mod ucast d) :: u32) = n mod uint d"
    using Q(2) m by (simp add: unsigned_ucast_eq take_bit_int_eq_self)
  with Q q d0 show ?thesis by (simp add: div_with_reminder_def Let_def n_def)
qed

lemma uint_join: "uint (l :: u64) < 2 ^ 32 \<Longrightarrow> uint h < 2 ^ 32 \<Longrightarrow> uint (push_bit 32 h OR l) = 2 ^ 32 * uint h + uint l"
  using or_push_bit_add [of "uint l" 32 "uint h"] uint_push_32 [of h]
  by (simp add: uint_or push_bit_eq_mult [of 32 "uint h"] or.commute mult.commute)

lemma long_division:
  assumes "e3 = q3 * d + r3" "k * r3 + e2 = q2 * d + r2" "k * r2 + e1 = q1 * d + r1" "k * r1 + e0 = q0 * d + (r0::int)"
  shows "k * (k * (k * e3 + e2) + e1) + e0 = (k * (k * (k * q3 + q2) + q1) + q0) * d + r0"
proof -
  have e: "e2 = q2 * d + r2 - k * r3" "e1 = q1 * d + r1 - k * r2" "e0 = q0 * d + r0 - k * r1"
    using assms by linarith+
  show ?thesis unfolding assms(1) e by (simp add: algebra_simps)
qed

lemma div128_32_value:
  assumes "d \<noteq> 0"
  shows "\<exists>qh ql r. div128_32 hi lo d = Some (qh, ql, r) \<and>
    2 ^ 64 * uint qh + uint ql = (2 ^ 64 * uint hi + uint lo) div uint d \<and>
    uint r = (2 ^ 64 * uint hi + uint lo) mod uint d"
proof -
  have "uint d \<noteq> 0" using assms by (simp only: uint_0_iff not_False_eq_True)
  then have d: "0 < uint d" using uint_ge_0 [of d] by linarith
  define e3 e2 e1 e0 where "e3 = uint (hi_dword hi)" and "e2 = uint (lo_dword hi)" and "e1 = uint (hi_dword lo)" and "e0 = uint (lo_dword lo)"
  have e: "e3 < 2 ^ 32" "e2 < 2 ^ 32" "e1 < 2 ^ 32" "e0 < 2 ^ 32"
    unfolding e3_def e2_def e1_def e0_def by (rule hi_lo_bounds)+
  have mod_less: "n mod uint d < uint d" for n using d by simp
  have "uint (0 :: u32) < uint d" using d by simp
  from div_with_reminder_value [OF e(1) [unfolded e3_def] this] obtain q3 r3 where
    3: "div_with_reminder (hi_dword hi) d 0 = Some (q3, r3)" "uint q3 < 2 ^ 32" "uint q3 = e3 div uint d" "uint r3 = e3 mod uint d"
    by (auto simp: e3_def)
  from div_with_reminder_value [of "lo_dword hi" r3 d] 3(4) mod_less e(2) obtain q2 r2 where
    2: "div_with_reminder (lo_dword hi) d r3 = Some (q2, r2)" "uint q2 < 2 ^ 32"
    "uint q2 = (2 ^ 32 * uint r3 + e2) div uint d" "uint r2 = (2 ^ 32 * uint r3 + e2) mod uint d"
    by (auto simp: e2_def)
  from div_with_reminder_value [of "hi_dword lo" r2 d] 2(4) mod_less e(3) obtain q1 r1 where
    1: "div_with_reminder (hi_dword lo) d r2 = Some (q1, r1)" "uint q1 < 2 ^ 32"
    "uint q1 = (2 ^ 32 * uint r2 + e1) div uint d" "uint r1 = (2 ^ 32 * uint r2 + e1) mod uint d"
    by (auto simp: e1_def)
  from div_with_reminder_value [of "lo_dword lo" r1 d] 1(4) mod_less e(4) obtain q0 r0 where
    0: "div_with_reminder (lo_dword lo) d r1 = Some (q0, r0)" "uint q0 < 2 ^ 32"
    "uint q0 = (2 ^ 32 * uint r1 + e0) div uint d" "uint r0 = (2 ^ 32 * uint r1 + e0) mod uint d"
    by (auto simp: e0_def)
  have run: "div128_32 hi lo d = Some (push_bit 32 q3 OR q2, push_bit 32 q1 OR q0, r0)"
    by (simp add: div128_32_def 3(1) 2(1) 1(1) 0(1))
  define N where "N = 2 ^ 64 * uint hi + uint lo"
  define Q where "Q = 2 ^ 96 * uint q3 + 2 ^ 64 * uint q2 + 2 ^ 32 * uint q1 + uint q0"
  have "N = 2 ^ 96 * e3 + 2 ^ 64 * e2 + 2 ^ 32 * e1 + e0"
    using hi_lo_bounds(5) [of hi] hi_lo_bounds(5) [of lo] by (simp add: N_def e3_def e2_def e1_def e0_def)
  also have "\<dots> = Q * uint d + uint r0"
  proof -
    have "n = n div uint d * uint d + n mod uint d" for n by simp
    then have "e3 = uint q3 * uint d + uint r3" "2 ^ 32 * uint r3 + e2 = uint q2 * uint d + uint r2"
      "2 ^ 32 * uint r2 + e1 = uint q1 * uint d + uint r1" "2 ^ 32 * uint r1 + e0 = uint q0 * uint d + uint r0"
      unfolding 3(3,4) 2(3,4) 1(3,4) 0(3,4) by blast+
    from long_division [OF this] show ?thesis by (simp add: Q_def)
  qed
  finally have "N = Q * uint d + uint r0" .
  moreover have "0 \<le> uint r0" by (rule uint_ge_0)
  moreover have "uint r0 < uint d" unfolding 0(4) by (rule mod_less)
  ultimately have "N div uint d = Q" "N mod uint d = uint r0" using d by simp_all
  moreover have "2 ^ 64 * uint (push_bit 32 q3 OR q2) + uint (push_bit 32 q1 OR q0) = Q"
    using 3(2) 2(2) 1(2) 0(2) by (simp add: uint_join Q_def)
  ultimately show ?thesis using run by (auto simp: N_def)
qed

section \<open>The properties of the helpers\<close>

text \<open>\<open>mul128\<close> is exact: low and high word make up the product of its arguments, the assertion on the high
  word never fails although four of the sums may wrap, and the portable version agrees with the one that uses the
  128-bit integers of GCC.\<close>

theorem mul128_correct:
  "\<exists>lo hi. mul128 x y = Some (lo, hi) \<and> uint lo + 2 ^ 64 * uint hi = uint x * uint y \<and> (lo, hi) = mul128_gcc x y"
proof -
  obtain lo hi where m: "mul128 x y = Some (lo, hi)" "uint lo + 2 ^ 64 * uint hi = uint x * uint y"
    using mul128_value by blast
  obtain lo' hi' where g: "mul128_gcc x y = (lo', hi')" by force
  have e: "uint lo + 2 ^ 64 * uint hi = uint lo' + 2 ^ 64 * uint hi'"
    using mul128_gcc_value [of x y] m(2) g by simp
  have b: "uint lo < 2 ^ 64" "uint lo' < 2 ^ 64" using uint_bounded [of lo] uint_bounded [of lo'] by simp_all
  have "uint lo = (uint lo + 2 ^ 64 * uint hi) mod 2 ^ 64" "uint lo' = (uint lo' + 2 ^ 64 * uint hi') mod 2 ^ 64"
    using b by (simp_all only: mod_mult_self2 mod_pos_pos_trivial uint_ge_0)
  then have "uint lo = uint lo'" unfolding e by simp
  moreover from this e have "uint hi = uint hi'" by simp
  ultimately have "lo = lo'" "hi = hi'" by (simp_all add: word_uint_eq_iff)
  with m g show ?thesis by auto
qed

text \<open>C37: \<open>div128_32\<close> divides the 128-bit dividend by any divisor other than 0: the two quotient words and the
  remainder are those of the integers, the intermediate quotients fitting in 32 bits; a zero divisor is
  undefined.\<close>

theorem div128_32_correct:
  "(d \<noteq> 0 \<longrightarrow> (\<exists>qh ql r. div128_32 hi lo d = Some (qh, ql, r) \<and>
      2 ^ 64 * uint qh + uint ql = (2 ^ 64 * uint hi + uint lo) div uint d \<and>
      uint r = (2 ^ 64 * uint hi + uint lo) mod uint d)) \<and>
    div128_32 hi lo 0 = None"
  using div128_32_value [of d hi lo] by (auto simp: div128_32_def div_with_reminder_def)

theorem div128_32_correct_witness:
  "\<exists>qh ql r. div128_32 1 0 10 = Some (qh, ql, r) \<and> 2 ^ 64 * uint qh + uint ql = 1844674407370955161 \<and> uint r = 6"
  using div128_32_correct [of 10 1 0] by simp

end
