(* ===== verification/Chacha8.thy ===== *)
theory Chacha8
  imports Int_Util
begin

text \<open>
  chacha8.c: the stream cipher with 8 rounds that protects the keys of the wallets. The words \<open>x0 .. x15\<close> and
  \<open>j0 .. j15\<close> are lists of 16 words; the 64 bytes of \<open>tmp\<close>, which the function leaves uninitialised, are an
  argument. A key, nonce or input buffer that is too short is \<open>None\<close>.
\<close>

section \<open>Words and bytes\<close>

text \<open>\<open>U8TO32_LITTLE\<close> and \<open>U32TO8_LITTLE\<close> on a little-endian host.\<close>

definition U8TO32_LITTLE :: "u8 list \<Rightarrow> nat \<Rightarrow> u32" where
  "U8TO32_LITTLE p off = word_of_int (le_val (take 4 (drop off p)))"

definition U32TO8_LITTLE :: "u32 \<Rightarrow> u8 list" where
  "U32TO8_LITTLE v = le_bytes 4 (uint v)"

section \<open>The rounds\<close>

definition QUARTERROUND :: "nat \<Rightarrow> nat \<Rightarrow> nat \<Rightarrow> nat \<Rightarrow> u32 list \<Rightarrow> u32 list" where
  "QUARTERROUND a b c d x =
     (let x = x[a := x ! a + x ! b]; x = x[d := rol32 (x ! d XOR x ! a) 16];
          x = x[c := x ! c + x ! d]; x = x[b := rol32 (x ! b XOR x ! c) 12];
          x = x[a := x ! a + x ! b]; x = x[d := rol32 (x ! d XOR x ! a) 8];
          x = x[c := x ! c + x ! d]; x = x[b := rol32 (x ! b XOR x ! c) 7]
      in x)"

definition chacha8_doubleround :: "u32 list \<Rightarrow> u32 list" where
  "chacha8_doubleround x =
     (let x = QUARTERROUND 0 4 8 12 x; x = QUARTERROUND 1 5 9 13 x;
          x = QUARTERROUND 2 6 10 14 x; x = QUARTERROUND 3 7 11 15 x;
          x = QUARTERROUND 0 5 10 15 x; x = QUARTERROUND 1 6 11 12 x;
          x = QUARTERROUND 2 7 8 13 x; x = QUARTERROUND 3 4 9 14 x
      in x)"

text \<open>\<open>for (i = 8; i > 0; i -= 2)\<close>\<close>

fun chacha8_rounds :: "nat \<Rightarrow> u32 list \<Rightarrow> u32 list" where
  "chacha8_rounds i x = (if 0 < i then chacha8_rounds (i - 2) (chacha8_doubleround x) else x)"

declare chacha8_rounds.simps [simp del]

section \<open>The cipher\<close>

definition sigma :: "u8 list" where
  "sigma = [0x65, 0x78, 0x70, 0x61, 0x6e, 0x64, 0x20, 0x33, 0x32, 0x2d, 0x62, 0x79, 0x74, 0x65, 0x20, 0x6b, 0]"

definition chacha8_setup :: "u8 list \<Rightarrow> u8 list \<Rightarrow> u32 list" where
  "chacha8_setup key iv =
     [U8TO32_LITTLE sigma 0, U8TO32_LITTLE sigma 4, U8TO32_LITTLE sigma 8, U8TO32_LITTLE sigma 12,
      U8TO32_LITTLE key 0, U8TO32_LITTLE key 4, U8TO32_LITTLE key 8, U8TO32_LITTLE key 12,
      U8TO32_LITTLE key 16, U8TO32_LITTLE key 20, U8TO32_LITTLE key 24, U8TO32_LITTLE key 28,
      0, 0, U8TO32_LITTLE iv 0, U8TO32_LITTLE iv 4]"

text \<open>The 16 words of one block xored with 64 bytes of data, and the bytes that are stored.\<close>

definition chacha8_block :: "u32 list \<Rightarrow> u8 list \<Rightarrow> u8 list" where
  "chacha8_block j data =
     (let x = chacha8_rounds 8 j;
          x = map (\<lambda>i. x ! i + j ! i) [0..<16];
          x = map (\<lambda>i. x ! i XOR U8TO32_LITTLE data (4 * i)) [0..<16]
      in concat (map U32TO8_LITTLE x))"

definition chacha8_count :: "u32 list \<Rightarrow> u32 list" where
  "chacha8_count j = (let j = j[12 := j ! 12 + 1] in if j ! 12 = 0 then j[13 := j ! 13 + 1] else j)"

text \<open>The loop over the blocks; what it has written to \<open>cipher\<close>. The last, shorter block goes through \<open>tmp\<close>.\<close>

function chacha8_loop :: "u8 list \<Rightarrow> nat \<Rightarrow> u32 list \<Rightarrow> u8 list \<Rightarrow> u8 list" where
  "chacha8_loop data len j tmp =
     (if len < 64 then take len (chacha8_block j (take len data @ drop len tmp))
      else if len = 64 then chacha8_block j data
      else chacha8_block j data @ chacha8_loop (drop 64 data) (len - 64) (chacha8_count j) tmp)"
  by auto

termination by (relation "measure (\<lambda>(data, len, j, tmp). len)") auto

declare chacha8_loop.simps [simp del]

definition chacha8 :: "u8 list \<Rightarrow> nat \<Rightarrow> u8 list \<Rightarrow> u8 list \<Rightarrow> u8 list \<Rightarrow> u8 list option" where
  "chacha8 data len key iv tmp =
     (if len = 0 then Some []
      else if length data < len \<or> length key < 32 \<or> length iv < 8 then None
      else Some (chacha8_loop data len (chacha8_setup key iv) tmp))"

end
