(* ===== verification/Chacha8_Proofs.thy ===== *)
theory Chacha8_Proofs
  imports Chacha8
begin

text \<open>
  The cipher of chacha8.c is the exclusive or of the input with the key stream: byte \<open>n\<close> is byte \<open>n mod 64\<close> of
  the ChaCha block with the 64-bit counter \<open>n div 64\<close>, specified from key and nonce on, the eight rounds being four column and diagonal rounds
  on the 4 by 4 matrix of words. Encryption is therefore its own inverse and does not depend on the
  uninitialised bytes of its buffer.
\<close>

section \<open>The block function of ChaCha\<close>

text \<open>A quarter round on four words, with the rotations of the library of words.\<close>

definition quarter :: "u32 \<Rightarrow> u32 \<Rightarrow> u32 \<Rightarrow> u32 \<Rightarrow> u32 \<times> u32 \<times> u32 \<times> u32" where
  "quarter a b c d =
     (let a = a + b; d = word_rotl 16 (d XOR a); c = c + d; b = word_rotl 12 (b XOR c);
          a = a + b; d = word_rotl 8 (d XOR a); c = c + d; b = word_rotl 7 (b XOR c)
      in (a, b, c, d))"

text \<open>The state is a matrix \<open>M row column\<close>. Diagonal \<open>k\<close> takes row \<open>r\<close> from column \<open>k + r\<close>.\<close>

type_synonym matrix = "nat \<Rightarrow> nat \<Rightarrow> u32"

definition row :: "nat \<Rightarrow> u32 \<times> u32 \<times> u32 \<times> u32 \<Rightarrow> u32" where
  "row r q = (case q of (a, b, c, d) \<Rightarrow> [a, b, c, d] ! r)"

definition column_round :: "matrix \<Rightarrow> matrix" where
  "column_round M = (\<lambda>r k. row r (quarter (M 0 k) (M 1 k) (M 2 k) (M 3 k)))"

definition skew :: "nat \<Rightarrow> matrix \<Rightarrow> matrix" where
  "skew s M = (\<lambda>r k. M r ((k + s * r) mod 4))"

text \<open>A diagonal round is a column round on the matrix whose row \<open>r\<close> is rotated by \<open>r\<close>.\<close>

definition diagonal_round :: "matrix \<Rightarrow> matrix" where
  "diagonal_round M = skew 3 (column_round (skew 1 M))"

definition matrix_of :: "u32 list \<Rightarrow> matrix" where
  "matrix_of x = (\<lambda>r k. x ! (4 * r + k))"

definition words_of :: "matrix \<Rightarrow> u32 list" where
  "words_of M = [M 0 0, M 0 1, M 0 2, M 0 3, M 1 0, M 1 1, M 1 2, M 1 3, M 2 0, M 2 1, M 2 2, M 2 3, M 3 0, M 3 1, M 3 2, M 3 3]"

definition chacha_core :: "nat \<Rightarrow> u32 list \<Rightarrow> u32 list" where
  "chacha_core n j = map2 (+) (words_of (((diagonal_round \<circ> column_round) ^^ n) (matrix_of j))) j"

text \<open>Word \<open>i\<close> of a string of bytes, the lowest byte first.\<close>

definition chacha_word :: "u8 list \<Rightarrow> nat \<Rightarrow> u32" where
  "chacha_word bs i = word_of_int (\<Sum>k\<leftarrow>[0, 1, 2, 3]. 256 ^ k * uint (bs ! (4 * i + k)))"

text \<open>The matrix of block \<open>n\<close>: a row for the text \<open>expand 32-byte k\<close>, two for the key of 32 bytes, and one for the counter of
  64 bits, its low half first, and the nonce of 8 bytes.\<close>

definition chacha_state :: "u8 list \<Rightarrow> u8 list \<Rightarrow> nat \<Rightarrow> u32 list" where
  "chacha_state key iv n =
     map (chacha_word (map of_char ''expand 32-byte k'')) [0, 1, 2, 3] @ map (chacha_word key) [0, 1, 2, 3, 4, 5, 6, 7] @
     [of_nat n, of_nat (n div 2 ^ 32)] @ map (chacha_word iv) [0, 1]"

text \<open>Byte \<open>n\<close> of the key stream: 4 double rounds on the matrix of block \<open>n div 64\<close>, its words written lowest byte
  first.\<close>

definition key_stream :: "u8 list \<Rightarrow> u8 list \<Rightarrow> nat \<Rightarrow> u8" where
  "key_stream key iv n =
     word_of_int (uint (chacha_core 4 (chacha_state key iv (n div 64)) ! (n mod 64 div 4)) div 256 ^ (n mod 4))"

section \<open>The rounds of the code\<close>

lemma rol32_rotl: "rol32 w 16 = word_rotl 16 w" "rol32 w 12 = word_rotl 12 w" "rol32 w 8 = word_rotl 8 w" "rol32 w 7 = word_rotl 7 w"
  using rotl_shifts [of 16 w] rotl_shifts [of 12 w] rotl_shifts [of 8 w] rotl_shifts [of 7 w] by (simp_all add: rol32_def)

lemma QUARTERROUND_value:
  assumes "a < length x" "b < length x" "c < length x" "d < length x" "distinct [a, b, c, d]"
  shows "QUARTERROUND a b c d x = (let q = quarter (x ! a) (x ! b) (x ! c) (x ! d)
    in x[a := row 0 q, b := row 1 q, c := row 2 q, d := row 3 q])"
  using assms by (intro nth_equalityI) (auto simp: QUARTERROUND_def quarter_def row_def Let_def nth_list_update rol32_rotl)

lemma list_16:
  assumes "length x = 16"
  shows "x = [x ! 0, x ! 1, x ! 2, x ! 3, x ! 4, x ! 5, x ! 6, x ! 7, x ! 8, x ! 9, x ! 10, x ! 11, x ! 12, x ! 13, x ! 14, x ! 15]"
proof -
  have "[0..<16] = [0, 1, 2, 3, 4, 5, 6, 7, 8, 9, 10, 11, 12, 13, 14, 15::nat]" by (simp add: upt_rec)
  with list_eq_map_nth [OF assms] show ?thesis by simp
qed

lemma doubleround_value:
  assumes "length x = 16"
  shows "chacha8_doubleround x = words_of (diagonal_round (column_round (matrix_of x)))"
proof -
  obtain x0 x1 x2 x3 x4 x5 x6 x7 x8 x9 x10 x11 x12 x13 x14 x15
    where x: "x = [x0, x1, x2, x3, x4, x5, x6, x7, x8, x9, x10, x11, x12, x13, x14, x15]"
    using list_16 [OF assms] by blast
  show ?thesis
    unfolding chacha8_doubleround_def x
    by (simp add: QUARTERROUND_value Let_def words_of_def diagonal_round_def column_round_def skew_def matrix_of_def)
qed

lemma matrix_words: "r < 4 \<Longrightarrow> k < 4 \<Longrightarrow> matrix_of (words_of M) r k = M r k"
proof -
  assume "r < 4" "k < 4"
  then have "r = 0 \<or> r = 1 \<or> r = 2 \<or> r = 3" "k = 0 \<or> k = 1 \<or> k = 2 \<or> k = 3" by auto
  then show ?thesis by (elim disjE) (simp_all add: matrix_of_def words_of_def)
qed

lemma length_words_of [simp]: "length (words_of M) = 16"
  by (simp add: words_of_def)

lemma words_of_cong: "(\<And>r k. r < 4 \<Longrightarrow> k < 4 \<Longrightarrow> M r k = N r k) \<Longrightarrow> words_of M = words_of N"
  by (simp add: words_of_def)

lemma round_cong:
  assumes "\<And>r k. r < 4 \<Longrightarrow> k < 4 \<Longrightarrow> M r k = N r k"
  shows "r < 4 \<Longrightarrow> k < 4 \<Longrightarrow> (diagonal_round \<circ> column_round) M r k = (diagonal_round \<circ> column_round) N r k"
  using assms by (simp add: diagonal_round_def column_round_def skew_def)

lemma rounds_value:
  assumes "length x = 16"
  shows "chacha8_rounds (2 * n) x = words_of (((diagonal_round \<circ> column_round) ^^ n) (matrix_of x))"
  using assms
proof (induction n arbitrary: x)
  case 0
  have "x = words_of (matrix_of x)"
    using list_16 [OF 0] by (simp add: words_of_def matrix_of_def)
  then show ?case by (simp add: chacha8_rounds.simps)
next
  case (Suc n)
  define R where "R = diagonal_round \<circ> column_round"
  let ?M = "matrix_of x"
  have cong: "(R ^^ n) M r k = (R ^^ n) N r k"
    if "\<And>r k. r < 4 \<Longrightarrow> k < 4 \<Longrightarrow> M r k = N r k" "r < 4" "k < 4" for M N r k
    using that
  proof (induction n arbitrary: r k)
    case (Suc n)
    then show ?case using round_cong [of "(R ^^ n) M" "(R ^^ n) N" r k] by (simp add: R_def [symmetric])
  qed simp
  have "chacha8_rounds (2 * Suc n) x = chacha8_rounds (2 * n) (words_of (R ?M))"
    using doubleround_value [OF Suc.prems] by (subst chacha8_rounds.simps) (simp add: R_def)
  also have "\<dots> = words_of ((R ^^ n) (matrix_of (words_of (R ?M))))" unfolding R_def by (rule Suc.IH) simp
  also have "\<dots> = words_of ((R ^^ n) (R ?M))"
    by (intro words_of_cong cong) (rule matrix_words)
  finally have "chacha8_rounds (2 * Suc n) x = words_of ((R ^^ Suc n) ?M)"
    by (simp only: funpow_Suc_right comp_apply)
  then show ?case by (simp only: R_def)
qed

section \<open>Words, bytes and exclusive or\<close>

lemma nth_concat_map:
  assumes "\<And>v. length (f v) = m" "n < m * length xs" "0 < m"
  shows "concat (map f xs) ! n = f (xs ! (n div m)) ! (n mod m)"
  using assms(2)
proof (induction xs arbitrary: n)
  case (Cons x xs)
  show ?case
  proof (cases "n < m")
    case True
    then show ?thesis by (simp add: nth_append assms(1))
  next
    case False
    moreover have "n - m < m * length xs" using Cons.prems False by simp
    ultimately show ?thesis
      using Cons.IH [of "n - m"] assms(3) by (simp add: nth_append assms(1) le_div_geq le_mod_geq)
  qed
qed simp

lemma store_xor:
  assumes "off + 4 \<le> length d" "k < 4"
  shows "U32TO8_LITTLE (v XOR U8TO32_LITTLE d off) ! k = U32TO8_LITTLE v ! k XOR d ! (off + k)"
proof -
  let ?b = "take 4 (drop off d)"
  have l: "length ?b = 4" using assms(1) by simp
  have "le_val ?b < 256 ^ 4" using le_val_less [of ?b] l by simp
  then have u: "uint (U8TO32_LITTLE d off) = le_val ?b"
    by (simp add: U8TO32_LITTLE_def unsigned_of_int take_bit_int_eq_self)
  have "?b ! k = le_bytes 4 (le_val ?b) ! k" using le_bytes_le_val [OF l] by simp
  then have "d ! (off + k) = word_of_int (drop_bit (8 * k) (le_val ?b))"
    using assms l by (simp add: le_bytes_def)
  then show ?thesis
    using assms(2) unfolding U32TO8_LITTLE_def le_bytes_def by (simp add: uint_xor drop_bit_xor u word_of_int_xor)
qed

lemma length_U32TO8 [simp]: "length (U32TO8_LITTLE v) = 4"
  by (simp add: U32TO8_LITTLE_def)

lemma block_value:
  assumes "length j = 16" "64 \<le> length data"
  shows "length (chacha8_block j data) = 64"
    and "n < 64 \<Longrightarrow> chacha8_block j data ! n = data ! n XOR concat (map U32TO8_LITTLE (chacha_core 4 j)) ! n"
proof -
  let ?c = "chacha_core 4 j"
  have c: "length ?c = 16" using assms(1) by (simp add: chacha_core_def)
  have ci: "?c ! i = chacha8_rounds 8 j ! i + j ! i" if "i < 16" for i
    using rounds_value [OF assms(1), of 4] that assms(1) by (simp add: chacha_core_def)
  have B: "chacha8_block j data = concat (map (\<lambda>i. U32TO8_LITTLE (?c ! i XOR U8TO32_LITTLE data (4 * i))) [0..<16])"
    unfolding chacha8_block_def Let_def map_map
    by (intro arg_cong [of _ _ concat] map_cong) (simp_all add: ci del: upt_rec_numeral)
  show "length (chacha8_block j data) = 64"
    unfolding B by (simp add: length_concat comp_def sum_list_triv del: upt_rec_numeral)
  assume n: "n < 64"
  then have i: "n div 4 < 16" "n mod 4 < 4" "4 * (n div 4) + n mod 4 = n" by simp_all
  have "4 * (n div 4) + 4 \<le> 64" using i(1) by linarith
  then have o: "4 * (n div 4) + 4 \<le> length data" using assms(2) by linarith
  have "chacha8_block j data ! n = U32TO8_LITTLE (?c ! (n div 4) XOR U8TO32_LITTLE data (4 * (n div 4))) ! (n mod 4)"
    unfolding B using n i by (subst nth_concat_map [where m = 4]) (simp_all del: upt_rec_numeral)
  also have "\<dots> = U32TO8_LITTLE (?c ! (n div 4)) ! (n mod 4) XOR data ! n"
    using store_xor [OF o i(2)] i(3) by simp
  also have "U32TO8_LITTLE (?c ! (n div 4)) ! (n mod 4) = concat (map U32TO8_LITTLE ?c) ! n"
    using n c by (subst nth_concat_map [where m = 4]) simp_all
  finally show "chacha8_block j data ! n = data ! n XOR concat (map U32TO8_LITTLE ?c) ! n" by (simp only: xor.commute)
qed

text \<open>The matrix of the first block, and the counter of two words.\<close>

lemma load_word: "4 * i + 4 \<le> length p \<Longrightarrow> U8TO32_LITTLE p (4 * i) = chacha_word p i"
proof -
  assume "4 * i + 4 \<le> length p"
  then have "take 4 (drop (4 * i) p) = [p ! (4 * i), p ! (4 * i + 1), p ! (4 * i + 2), p ! (4 * i + 3)]"
    by (simp add: take_Suc_drop_nth numeral_eq_Suc)
  then show ?thesis by (simp add: U8TO32_LITTLE_def chacha_word_def)
qed

lemma sigma_words:
  "U8TO32_LITTLE sigma 0 = chacha_word (map of_char ''expand 32-byte k'') 0"
  "U8TO32_LITTLE sigma 4 = chacha_word (map of_char ''expand 32-byte k'') 1"
  "U8TO32_LITTLE sigma 8 = chacha_word (map of_char ''expand 32-byte k'') 2"
  "U8TO32_LITTLE sigma 12 = chacha_word (map of_char ''expand 32-byte k'') 3"
  by code_simp+

lemma setup_value:
  assumes "32 \<le> length key" "8 \<le> length iv"
  shows "chacha8_setup key iv = chacha_state key iv 0"
  using assms load_word [of 0 key] load_word [of 1 key] load_word [of 2 key] load_word [of 3 key] load_word [of 4 key]
    load_word [of 5 key] load_word [of 6 key] load_word [of 7 key] load_word [of 0 iv] load_word [of 1 iv]
  by (simp add: chacha8_setup_def chacha_state_def sigma_words del: list.map(2) [where f = of_char])

lemma count_value: "chacha8_count (chacha_state key iv n) = chacha_state key iv (Suc n)"
proof -
  have z: "(of_nat (Suc n) :: u32) = 0 \<longleftrightarrow> Suc n mod 2 ^ 32 = 0"
    unfolding word_of_nat_eq_0_iff by (simp add: dvd_eq_mod_eq_0)
  have s: "(of_nat m + 1 :: u32) = of_nat (Suc m)" for m by simp
  show ?thesis
    unfolding chacha8_count_def chacha_state_def Let_def
    using z by (simp add: s div_Suc del: of_nat_Suc)
qed

lemma length_counter [simp]: "length (chacha_state key iv n) = 16"
  by (simp add: chacha_state_def)

lemma key_stream_block:
  assumes "n < 64"
  shows "key_stream key iv (64 * k + n) = concat (map U32TO8_LITTLE (chacha_core 4 (chacha_state key iv k))) ! n"
proof -
  let ?c = "chacha_core 4 (chacha_state key iv k)"
  have "length ?c = 16" by (simp add: chacha_core_def)
  then have "concat (map U32TO8_LITTLE ?c) ! n = U32TO8_LITTLE (?c ! (n div 4)) ! (n mod 4)"
    using assms by (intro nth_concat_map) simp_all
  also have "\<dots> = word_of_int (uint (?c ! (n div 4)) div 256 ^ (n mod 4))"
    by (simp add: U32TO8_LITTLE_def le_bytes_def drop_bit_eq_div power_mult)
  also have "\<dots> = key_stream key iv (64 * k + n)"
  proof -
    have "(64 * k + n) mod 4 = n mod 4" using mod_mult_self2 [of n 4 "16 * k"] by (simp add: add.commute)
    then show ?thesis using assms by (simp add: key_stream_def)
  qed
  finally show ?thesis by simp
qed

lemma loop_value:
  assumes "0 < len" "len \<le> length data" "length tmp = 64"
  shows "chacha8_loop data len (chacha_state key iv k) tmp =
    map (\<lambda>n. data ! n XOR key_stream key iv (64 * k + n)) [0..<len]"
  using assms(1,2)
proof (induction len arbitrary: data k rule: less_induct)
  case (less len)
  let ?j = "chacha_state key iv k"
  have ks: "key_stream key iv (64 * k + n) = concat (map U32TO8_LITTLE (chacha_core 4 ?j)) ! n" if "n < 64" for n
    using that by (rule key_stream_block)
  show ?case
  proof (cases "len < 64")
    case True
    let ?d = "take len data @ drop len tmp"
    have d: "length ?d = 64" using less.prems True assms(3) by simp
    have "take len (chacha8_block ?j ?d) = map (\<lambda>n. data ! n XOR key_stream key iv (64 * k + n)) [0..<len]"
      using block_value [OF length_counter, of ?d] d True less.prems
      by (intro nth_equalityI) (simp_all add: ks nth_append)
    then show ?thesis using True by (simp add: chacha8_loop.simps)
  next
    case False
    then have d: "64 \<le> length data" using less.prems by simp
    have b: "chacha8_block ?j data = map (\<lambda>n. data ! n XOR key_stream key iv (64 * k + n)) [0..<64]"
      using block_value [OF length_counter d]
      by (intro nth_equalityI) (simp_all add: ks del: upt_rec_numeral)
    show ?thesis
    proof (cases "len = 64")
      case True
      then show ?thesis using b by (simp add: chacha8_loop.simps del: upt_rec_numeral)
    next
      case neq: False
      have "chacha8_loop (drop 64 data) (len - 64) (chacha_state key iv (Suc k)) tmp =
          map (\<lambda>n. drop 64 data ! n XOR key_stream key iv (64 * Suc k + n)) [0..<len - 64]"
        using False neq less.prems by (intro less.IH) simp_all
      also have "\<dots> = map (\<lambda>n. data ! n XOR key_stream key iv (64 * k + n)) [64..<len]"
        using False neq d by (intro nth_equalityI) (simp_all add: ac_simps)
      finally have r: "chacha8_loop (drop 64 data) (len - 64) (chacha8_count ?j) tmp =
          map (\<lambda>n. data ! n XOR key_stream key iv (64 * k + n)) [64..<len]"
        by (simp only: count_value)
      have "[0..<len] = [0..<64] @ [64..<len]" using False upt_add_eq_append [of 0 64 "len - 64"] by simp
      then show ?thesis
        using False neq b r by (subst chacha8_loop.simps) (simp del: upt_rec_numeral)
    qed
  qed
qed

section \<open>The properties of the cipher\<close>

lemma chacha8_value:
  assumes "len \<le> length data" "32 \<le> length key" "8 \<le> length iv" "length tmp = 64"
  shows "chacha8 data len key iv tmp = Some (map (\<lambda>n. data ! n XOR key_stream key iv n) [0..<len])"
proof -
  show ?thesis
    using setup_value [OF assms(2,3)] loop_value [of len data tmp key iv 0] assms by (cases "len = 0") (simp_all add: chacha8_def)
qed

text \<open>C21: \<open>chacha8\<close> is a stream cipher: byte \<open>n\<close> of the output is byte \<open>n\<close> of the input xored with byte \<open>n mod 64\<close> of
  the ChaCha block of counter \<open>n div 64\<close>, whose matrix holds the constant, every byte of the key, the counter and every byte
  of the nonce, for every length, the shorter last block and the carry of the counter into
  its second word included, whatever the uninitialised buffer holds; the eight rounds, quarter by quarter in place,
  are four column and diagonal rounds. An empty input succeeds, and buffers that are too short are undefined.\<close>

theorem chacha8_correct:
  assumes "length tmp = 64"
  shows "chacha8 data len key iv tmp =
    (if len = 0 then Some []
     else if len \<le> length data \<and> 32 \<le> length key \<and> 8 \<le> length iv
     then Some (map (\<lambda>n. data ! n XOR key_stream key iv n) [0..<len]) else None)"
  using chacha8_value [of len data key iv tmp] assms by (auto simp: chacha8_def)

theorem chacha8_correct_witness:
  "chacha8 (replicate 100 1) 100 (replicate 32 2) (replicate 8 3) (replicate 64 9) =
    Some (map (\<lambda>n. replicate 100 1 ! n XOR key_stream (replicate 32 2) (replicate 8 3) n) [0..<100])"
  using chacha8_correct [of "replicate 64 9" "replicate 100 1" 100 "replicate 32 2" "replicate 8 3"]
  by (simp del: upt_rec_numeral)

text \<open>Decryption is encryption: a second call with the same key and nonce gives back the input, whatever the two
  uninitialised buffers held.\<close>

theorem chacha8_roundtrip:
  assumes "length tmp = 64" "length tmp' = 64" "length data = len" "chacha8 data len key iv tmp = Some cipher"
  shows "chacha8 cipher len key iv tmp' = Some data"
proof (cases "len = 0")
  case True
  then show ?thesis using assms by (simp add: chacha8_def)
next
  case False
  with assms(4) have k: "32 \<le> length key" "8 \<le> length iv" by (auto simp: chacha8_def split: if_splits)
  with assms have c: "cipher = map (\<lambda>n. data ! n XOR key_stream key iv n) [0..<len]"
    using chacha8_value [of len data key iv tmp] by simp
  have "map (\<lambda>n. cipher ! n XOR key_stream key iv n) [0..<len] = data"
    by (rule nth_equalityI) (simp_all add: c assms(3) xor.assoc)
  then show ?thesis using chacha8_value [of len cipher key iv tmp'] k c assms(2) by simp
qed

theorem chacha8_roundtrip_witness:
  "Option.bind (chacha8 (replicate 70 1) 70 (replicate 32 2) (replicate 8 3) (replicate 64 0))
      (\<lambda>c. chacha8 c 70 (replicate 32 2) (replicate 8 3) (replicate 64 255)) = Some (replicate 70 1)"
proof -
  have l: "length (replicate 64 (0::u8)) = 64" "length (replicate 64 (255::u8)) = 64" "length (replicate 70 (1::u8)) = 70" by simp_all
  obtain c where c: "chacha8 (replicate 70 1) 70 (replicate 32 2) (replicate 8 3) (replicate 64 0) = Some c"
    by (simp add: chacha8_def del: replicate.simps)
  from chacha8_roundtrip [OF l c] show ?thesis unfolding c by simp
qed

end
