(* ===== verification/Random_Gen.thy ===== *)
theory Random_Gen
  imports Keccak
begin

text \<open>
  random.c: the generator of random bytes, a permutation state seeded from the system, and the variable
  \<open>curstate\<close> by which a debug build tries to catch calls from two threads. First the functions as a single thread
  runs them, with failed assertions as \<open>None\<close>; then \<open>generate_random_bytes\<close> step by step for two threads whose
  steps interleave.
\<close>

section \<open>Bytes from the system\<close>

text \<open>What a call of \<open>read\<close> on \<open>/dev/urandom\<close> gives: bytes (at most as many as asked for, by POSIX), an error \<open>EINTR\<close>
  or another error. The ways the process ends.\<close>

datatype read_result = Read "u8 list" | Interrupted | Read_error

datatype exit = Open_failed | Read_failed | End_of_file | Close_failed

text \<open>The loop over \<open>read\<close>, for a list of results of the calls; \<open>None\<close> while it still waits.\<close>

fun read_urandom :: "read_result list \<Rightarrow> nat \<Rightarrow> (exit + u8 list) option" where
  "read_urandom [] n = None"
| "read_urandom (Read bs # rs) n =
     (if length bs = n then Some (Inr bs)
      else if bs = [] then Some (Inl End_of_file)
      else map_option (map_sum id ((@) bs)) (read_urandom rs (n - length bs)))"
| "read_urandom (Interrupted # rs) n = read_urandom rs n"
| "read_urandom (Read_error # rs) n = Some (Inl Read_failed)"

definition generate_system_random_bytes :: "bool \<Rightarrow> read_result list \<Rightarrow> bool \<Rightarrow> nat \<Rightarrow> (exit + u8 list) option" where
  "generate_system_random_bytes opened reads closed n =
     (if \<not> opened then Some (Inl Open_failed)
      else map_option (case_sum Inl (\<lambda>bs. if closed then Inr bs else Inl Close_failed)) (read_urandom reads n))"

section \<open>The generator\<close>

record random_state =
  state :: lanes
  curstate :: int

definition random_zero :: random_state where
  "random_zero = \<lparr>state = replicate 25 0, curstate = 0\<rparr>"

text \<open>The 32 bytes of the seed are stored over the first words of the state.\<close>

definition init_random :: "u8 list \<Rightarrow> random_state \<Rightarrow> random_state option" where
  "init_random seed s =
     (let s = s\<lparr>state := map (\<lambda>i. if i < 4 then load64 seed i else state s ! i) [0..<25]\<rparr>
      in if curstate s \<noteq> 0 then None else Some (s\<lparr>curstate := 1\<rparr>))"

definition deinit_random :: "random_state \<Rightarrow> random_state option" where
  "deinit_random s =
     (if curstate s \<noteq> 1 then None else Some (s\<lparr>curstate := 0, state := replicate 25 0\<rparr>))"

text \<open>The loop of \<open>generate_random_bytes\<close>: the bytes and the state.\<close>

function random_loop :: "nat \<Rightarrow> lanes \<Rightarrow> u8 list \<times> lanes" where
  "random_loop n st =
     (let st = hash_permutation st
      in if n \<le> HASH_DATA_AREA then (take n (lane_bytes st), st)
         else (let (bs, st') = random_loop (n - HASH_DATA_AREA) st
               in (take HASH_DATA_AREA (lane_bytes st) @ bs, st')))"
  by auto

termination by (relation "measure (\<lambda>(n, st). n)") (auto simp: HASH_DATA_AREA_def)

declare random_loop.simps [simp del]

definition generate_random_bytes :: "nat \<Rightarrow> random_state \<Rightarrow> (u8 list \<times> random_state) option" where
  "generate_random_bytes n s =
     (if curstate s \<noteq> 1 then None
      else
        (let s = s\<lparr>curstate := 2\<rparr>
         in if n = 0 then (if curstate s \<noteq> 2 then None else Some ([], s\<lparr>curstate := 1\<rparr>))
            else
              (let (bs, st) = random_loop n (state s);
                   s = s\<lparr>state := st\<rparr>
               in if curstate s \<noteq> 2 then None else Some (bs, s\<lparr>curstate := 1\<rparr>))))"

section \<open>Two threads\<close>

text \<open>Where a call is: before its first assertion, after it, before a permutation with what is left and what has been
  copied, before a copy, before the assertion at its end, after it, returned, or stopped by an assertion.\<close>

datatype place =
    Enter nat | Entered nat | Permute nat "u8 list" | Copy nat "u8 list" | Leave "u8 list" | Unmark "u8 list"
  | Returned "u8 list" | Aborted

text \<open>One step of one call on the shared state; reads and writes of \<open>curstate\<close> are separate steps.\<close>

inductive call_step :: "place \<times> random_state \<Rightarrow> place \<times> random_state \<Rightarrow> bool" where
  enter: "curstate s = 1 \<Longrightarrow> call_step (Enter n, s) (Entered n, s)"
| enter_fails: "curstate s \<noteq> 1 \<Longrightarrow> call_step (Enter n, s) (Aborted, s)"
| mark: "call_step (Entered n, s) (if n = 0 then Leave [] else Permute n [], s\<lparr>curstate := 2\<rparr>)"
| permute: "call_step (Permute n bs, s) (Copy n bs, s\<lparr>state := hash_permutation (state s)\<rparr>)"
| copy_last: "n \<le> HASH_DATA_AREA \<Longrightarrow> call_step (Copy n bs, s) (Leave (bs @ take n (lane_bytes (state s))), s)"
| copy: "HASH_DATA_AREA < n \<Longrightarrow>
    call_step (Copy n bs, s) (Permute (n - HASH_DATA_AREA) (bs @ take HASH_DATA_AREA (lane_bytes (state s))), s)"
| leave: "curstate s = 2 \<Longrightarrow> call_step (Leave bs, s) (Unmark bs, s)"
| leave_fails: "curstate s \<noteq> 2 \<Longrightarrow> call_step (Leave bs, s) (Aborted, s)"
| unmark: "call_step (Unmark bs, s) (Returned bs, s\<lparr>curstate := 1\<rparr>)"

code_pred call_step .

text \<open>A step of either call; a failed assertion ends the process.\<close>

inductive race_step :: "place \<times> place \<times> random_state \<Rightarrow> place \<times> place \<times> random_state \<Rightarrow> bool" where
  first: "q \<noteq> Aborted \<Longrightarrow> call_step (p, s) (p', s') \<Longrightarrow> race_step (p, q, s) (p', q, s')"
| second: "p \<noteq> Aborted \<Longrightarrow> call_step (q, s) (q', s') \<Longrightarrow> race_step (p, q, s) (p, q', s')"

inductive_cases call_stepE:
  "call_step (Enter n, s) c" "call_step (Entered n, s) c" "call_step (Permute n bs, s) c" "call_step (Copy n bs, s) c"
  "call_step (Leave bs, s) c" "call_step (Unmark bs, s) c" "call_step (Returned bs, s) c" "call_step (Aborted, s) c"

inductive_simps race_step_simps: "race_step (p, q, s) c"

end
