(* ===== verification/Random_Gen_Proofs.thy ===== *)
theory Random_Gen_Proofs
  imports Random_Gen Keccak_Proofs
begin

text \<open>
  The bytes of the generator are those of the successive permutations of its state, for every length; calls of a
  single thread keep the life cycle of \<open>curstate\<close>; the step relation refines the function; and what the
  assertions on \<open>curstate\<close> catch of two overlapping calls, and what they do not.
\<close>

section \<open>The bytes\<close>

definition random_byte :: "lanes \<Rightarrow> nat \<Rightarrow> u8" where
  "random_byte st n = lane_bytes ((hash_permutation ^^ Suc (n div 136)) st) ! (n mod 136)"

lemma hash_permutation_length [simp]: "length (hash_permutation st) = length st"
  by (simp only: hash_permutation_def keccakf_length)

lemma permutations_length [simp]: "length ((hash_permutation ^^ k) st) = length st"
  by (induction k) simp_all

lemma random_loop_value:
  assumes "0 < n" "length st = 25"
  shows "random_loop n st = (map (random_byte st) [0..<n], (hash_permutation ^^ ((n + 135) div 136)) st)"
  using assms
proof (induction n arbitrary: st rule: less_induct)
  case (less n)
  let ?st = "hash_permutation st"
  have b: "random_byte st m = lane_bytes ?st ! m" if "m < 136" for m
    using that by (simp add: random_byte_def)
  have len: "length (lane_bytes ?st) = 200" using less.prems by (simp add: lane_bytes_length)
  show ?case
  proof (cases "n \<le> 136")
    case True
    then have "take n (lane_bytes ?st) = map (random_byte st) [0..<n]"
      using len by (intro nth_equalityI) (simp_all add: b)
    moreover have "(n + 135) div 136 = 1" using True less.prems by (intro div_nat_eqI) simp_all
    ultimately show ?thesis using True by (simp add: random_loop.simps HASH_DATA_AREA_def Let_def)
  next
    case False
    have "random_loop (n - 136) ?st = (map (random_byte ?st) [0..<n - 136], (hash_permutation ^^ ((n - 136 + 135) div 136)) ?st)"
      using False less.prems by (intro less.IH) simp_all
    moreover have "(hash_permutation ^^ ((n - 136 + 135) div 136)) ?st = (hash_permutation ^^ ((n + 135) div 136)) st"
    proof -
      have "(n + 135) div 136 = Suc ((n - 136 + 135) div 136)" using False by (simp add: div_if [of "n + 135"])
      then show ?thesis by (simp add: funpow_Suc_right del: funpow.simps)
    qed
    moreover have "take 136 (lane_bytes ?st) @ map (random_byte ?st) [0..<n - 136] = map (random_byte st) [0..<n]"
    proof (rule nth_equalityI)
      fix m assume "m < length (take 136 (lane_bytes ?st) @ map (random_byte ?st) [0..<n - 136])"
      then have m: "m < n" using len False by simp
      show "(take 136 (lane_bytes ?st) @ map (random_byte ?st) [0..<n - 136]) ! m = map (random_byte st) [0..<n] ! m"
      proof (cases "m < 136")
        case True
        then show ?thesis using len m by (simp add: nth_append b)
      next
        case ge: False
        then have "random_byte ?st (m - 136) = random_byte st m"
          by (simp add: random_byte_def le_div_geq le_mod_geq funpow_Suc_right del: funpow.simps)
        then show ?thesis using len m ge by (simp add: nth_append)
      qed
    qed (use len False in simp)
    ultimately show ?thesis using False by (subst random_loop.simps) (simp add: HASH_DATA_AREA_def Let_def)
  qed
qed

section \<open>The life cycle\<close>

text \<open>The states between calls, once the generator is initialised.\<close>

definition ready :: "random_state \<Rightarrow> bool" where
  "ready s \<longleftrightarrow> curstate s = 1 \<and> length (state s) = 25"

lemma generate_value:
  "ready s \<Longrightarrow> generate_random_bytes n s =
    Some (map (random_byte (state s)) [0..<n], s\<lparr>state := (hash_permutation ^^ ((n + 135) div 136)) (state s)\<rparr>)"
  by (cases s) (auto simp: ready_def generate_random_bytes_def random_loop_value Let_def)

lemma generate_ready: "ready s \<Longrightarrow> generate_random_bytes n s = Some (bs, s') \<Longrightarrow> ready s'"
  by (auto simp: generate_value ready_def)

section \<open>A call step by step\<close>

lemma steps2: "r a b \<Longrightarrow> r b c \<Longrightarrow> r\<^sup>*\<^sup>* a c"
  by (rule converse_rtranclp_into_rtranclp, assumption, rule r_into_rtranclp)

text \<open>One step of the first call, then one of the second.\<close>

lemma step_both:
  "call_step (p, s) (p', t) \<Longrightarrow> call_step (q, t) (q', u) \<Longrightarrow> p' \<noteq> Aborted \<Longrightarrow> q \<noteq> Aborted \<Longrightarrow>
    race_step\<^sup>*\<^sup>* (p, q, s) (p', q', u)"
  by (rule steps2 [of race_step _ "(p', q, t)"]) (auto intro: race_step.intros)

lemma steps_first:
  "call_step (p, s) (p', t) \<Longrightarrow> call_step (p', t) (p'', u) \<Longrightarrow> q \<noteq> Aborted \<Longrightarrow> race_step\<^sup>*\<^sup>* (p, q, s) (p'', q, u)"
  by (rule steps2 [of race_step _ "(p', q, t)"]) (auto intro: race_step.intros)

lemma call_returns:
  assumes "curstate s = 2" "0 < n"
  shows "call_step\<^sup>*\<^sup>* (Permute n bs, s) (Returned (bs @ fst (random_loop n (state s))), s\<lparr>state := snd (random_loop n (state s)), curstate := 1\<rparr>)"
  using assms
proof (induction n arbitrary: bs s rule: less_induct)
  case (less n)
  let ?s = "s\<lparr>state := hash_permutation (state s)\<rparr>"
  have p: "call_step (Permute n bs, s) (Copy n bs, ?s)" by (rule call_step.permute)
  show ?case
  proof (cases "n \<le> HASH_DATA_AREA")
    case True
    then have "call_step (Copy n bs, ?s) (Leave (bs @ take n (lane_bytes (state ?s))), ?s)" by (rule call_step.copy_last)
    moreover have "call_step (Leave (bs @ take n (lane_bytes (state ?s))), ?s) (Unmark (bs @ take n (lane_bytes (state ?s))), ?s)"
      by (rule call_step.leave) (simp add: less.prems)
    moreover have "call_step (Unmark bs', ?s) (Returned bs', ?s\<lparr>curstate := 1\<rparr>)" for bs' by (rule call_step.unmark)
    ultimately show ?thesis using p True
      by (simp add: random_loop.simps Let_def) (meson converse_rtranclp_into_rtranclp rtranclp.rtrancl_refl)
  next
    case False
    let ?bs = "bs @ take HASH_DATA_AREA (lane_bytes (state ?s))"
    have c: "call_step (Copy n bs, ?s) (Permute (n - HASH_DATA_AREA) ?bs, ?s)" using False by (intro call_step.copy) simp
    have "call_step\<^sup>*\<^sup>* (Permute (n - HASH_DATA_AREA) ?bs, ?s)
        (Returned (?bs @ fst (random_loop (n - HASH_DATA_AREA) (state ?s))),
         ?s\<lparr>state := snd (random_loop (n - HASH_DATA_AREA) (state ?s)), curstate := 1\<rparr>)"
      using False less.prems by (intro less.IH) (simp_all add: HASH_DATA_AREA_def)
    with p c have "call_step\<^sup>*\<^sup>* (Permute n bs, s)
        (Returned (?bs @ fst (random_loop (n - HASH_DATA_AREA) (state ?s))),
         ?s\<lparr>state := snd (random_loop (n - HASH_DATA_AREA) (state ?s)), curstate := 1\<rparr>)"
      by (meson converse_rtranclp_into_rtranclp)
    then show ?thesis using False by (subst (1 2) random_loop.simps) (simp add: Let_def split_def)
  qed
qed

text \<open>The step relation is a function of the place and the state.\<close>

lemma call_step_deterministic: "call_step c d \<Longrightarrow> call_step c d' \<Longrightarrow> d = d'"
  by (induction rule: call_step.induct) (auto elim: call_stepE)

section \<open>Two calls\<close>

text \<open>Inside: between the mark and the end of a call.\<close>

fun inside :: "place \<Rightarrow> bool" where
  "inside (Permute n bs) = True"
| "inside (Copy n bs) = True"
| "inside (Leave bs) = True"
| "inside (Unmark bs) = True"
| "inside _ = False"

fun outside :: "place \<Rightarrow> bool" where
  "outside (Enter n) = True"
| "outside (Returned bs) = True"
| "outside _ = False"

text \<open>As long as the second call has not begun, \<open>curstate\<close> tells where the first one is.\<close>

definition before_second :: "place \<times> place \<times> random_state \<Rightarrow> bool" where
  "before_second c = (case c of (p, q, s) \<Rightarrow>
     (\<exists>n. q = Enter n) \<longrightarrow> (inside p \<longrightarrow> curstate s = 2) \<and> (\<not> inside p \<longrightarrow> curstate s = 1))"

lemma call_step_mark:
  "call_step (p, s) (p', s') \<Longrightarrow> (inside p \<longrightarrow> curstate s = 2) \<and> (\<not> inside p \<longrightarrow> curstate s = 1) \<Longrightarrow>
    (inside p' \<longrightarrow> curstate s' = 2) \<and> (\<not> inside p' \<longrightarrow> curstate s' = 1)"
  by (cases p) (auto elim!: call_stepE split: if_splits)

lemma not_entering: "call_step (q, s) (q', s') \<Longrightarrow> q' \<noteq> Enter n"
  by (cases q) (auto elim!: call_stepE split: if_splits)

lemma before_second_step: "race_step c d \<Longrightarrow> before_second c \<Longrightarrow> before_second d"
proof (induction rule: race_step.induct)
  case (first q p s p' s')
  then show ?case using call_step_mark [OF first(2)] by (auto simp: before_second_def)
next
  case (second p q s q' s')
  then show ?case using not_entering [OF second(2)] by (auto simp: before_second_def)
qed

lemma before_second_reachable:
  "race_step\<^sup>*\<^sup>* c d \<Longrightarrow> before_second c \<Longrightarrow> before_second d"
  by (induction rule: rtranclp_induct) (auto intro: before_second_step)

section \<open>The properties of the generator\<close>

text \<open>C22: A call of \<open>generate_random_bytes\<close> between calls, for any \<open>n\<close>, returns \<open>n\<close> bytes, byte \<open>i\<close> being byte
  \<open>i mod 136\<close> of permutation number \<open>i div 136 + 1\<close> of the state, advances the state by one permutation for each 136
  bytes begun, and leaves the generator ready; during a call or before initialisation the first assertion fails.\<close>

theorem generate_random_bytes_correct:
  assumes "length (state s) = 25"
  shows "generate_random_bytes n s =
    (if curstate s = 1
     then Some (map (random_byte (state s)) [0..<n], s\<lparr>state := (hash_permutation ^^ ((n + 135) div 136)) (state s)\<rparr>)
     else None)"
  using generate_value [of s n] assms by (simp add: ready_def generate_random_bytes_def)

theorem generate_random_bytes_correct_witness:
  "map_option fst (generate_random_bytes 300 \<lparr>state = replicate 25 7, curstate = 1\<rparr>) =
    Some (map (random_byte (replicate 25 7)) [0..<300])"
  using generate_random_bytes_correct [of "\<lparr>state = replicate 25 7, curstate = 1\<rparr>" 300]
  by (simp del: upt_rec_numeral replicate.simps)

text \<open>A session: initialisation, any sequence of requests, and the finalizer.\<close>

fun requests :: "nat list \<Rightarrow> random_state \<Rightarrow> (u8 list list \<times> random_state) option" where
  "requests [] s = Some ([], s)"
| "requests (n # ns) s = Option.bind (generate_random_bytes n s) (\<lambda>(bs, s).
     map_option (map_prod ((#) bs) id) (requests ns s))"

lemma requests_ready: "ready s \<Longrightarrow> \<exists>bss s'. requests ns s = Some (bss, s') \<and> map length bss = ns \<and> ready s'"
proof (induction ns arbitrary: s)
  case (Cons n ns)
  obtain bs s1 where g: "generate_random_bytes n s = Some (bs, s1)" "length bs = n"
    using generate_value [OF Cons.prems, of n] by simp
  from Cons.IH [OF generate_ready [OF Cons.prems g(1)]] g show ?case by auto
qed simp

text \<open>C23: The life cycle: after the initializer, every sequence of calls of one thread succeeds with the lengths asked
  for, the state stays well formed (25 words, \<open>curstate\<close> 1), and the finalizer succeeds and wipes the state.\<close>

theorem random_session_correct:
  "\<exists>s bss s'. init_random seed random_zero = Some s \<and> ready s \<and>
    requests ns s = Some (bss, s') \<and> map length bss = ns \<and> ready s' \<and> deinit_random s' = Some random_zero"
proof -
  obtain s where s: "init_random seed random_zero = Some s" "ready s"
    by (simp add: init_random_def random_zero_def ready_def Let_def del: upt_rec_numeral)
  from requests_ready [OF s(2), of ns] obtain bss s' where
    r: "requests ns s = Some (bss, s')" "map length bss = ns" "ready s'" by blast
  then have "deinit_random s' = Some random_zero"
    by (cases s') (simp add: deinit_random_def random_zero_def ready_def)
  with s r show ?thesis by blast
qed

lemma call_refines:
  assumes "generate_random_bytes n s = Some (bs, s')"
  shows "call_step\<^sup>*\<^sup>* (Enter n, s) (Returned bs, s')"
proof -
  have c: "curstate s = 1" using assms by (auto simp: generate_random_bytes_def split: if_splits)
  let ?s = "s\<lparr>curstate := 2\<rparr>"
  have e: "call_step (Enter n, s) (Entered n, s)" using c by (rule call_step.enter)
  have m: "call_step (Entered n, s) (if n = 0 then Leave [] else Permute n [], ?s)" by (rule call_step.mark)
  show ?thesis
  proof (cases "n = 0")
    case True
    have l: "call_step (Leave [], ?s) (Unmark [], ?s)" by (rule call_step.leave) simp
    have "call_step\<^sup>*\<^sup>* (Enter n, s) (Leave [], ?s)" using steps2 [of call_step, OF e m] True by simp
    also have "call_step\<^sup>*\<^sup>* (Leave [], ?s) (Returned [], ?s\<lparr>curstate := 1\<rparr>)"
      by (rule steps2 [of call_step, OF l call_step.unmark])
    finally show ?thesis using assms True c by (auto simp: generate_random_bytes_def Let_def)
  next
    case False
    have "bs = fst (random_loop n (state s))" "s' = s\<lparr>state := snd (random_loop n (state s)), curstate := 1\<rparr>"
      using assms False c by (auto simp: generate_random_bytes_def Let_def split_def)
    with call_returns [of ?s n "[]"] False have "call_step\<^sup>*\<^sup>* (Permute n [], ?s) (Returned bs, s')" by simp
    then show ?thesis using steps2 [of call_step, OF e m] False by simp
  qed
qed

text \<open>C24: A call that nobody interrupts returns: from every place it can reach, further steps lead to its return with
  the bytes and the state of \<open>generate_random_bytes\<close>; it cannot loop, nor stop at an assertion.\<close>

theorem call_returns_always:
  assumes "generate_random_bytes n s = Some (bs, s')" "call_step\<^sup>*\<^sup>* (Enter n, s) c"
  shows "call_step\<^sup>*\<^sup>* c (Returned bs, s')"
  using assms(2)
proof (induction rule: rtranclp_induct)
  case base
  show ?case by (rule call_refines [OF assms(1)])
next
  case (step c d)
  from step.IH show ?case
  proof (cases rule: converse_rtranclpE)
    case base
    then show ?thesis using step.hyps(2) by (auto elim: call_stepE)
  next
    case (step e)
    then show ?thesis using call_step_deterministic [OF \<open>call_step c d\<close>] by blast
  qed
qed

theorem call_returns_always_witness:
  "\<exists>bs s'. call_step\<^sup>*\<^sup>* (Enter 200, \<lparr>state = replicate 25 0, curstate = 1\<rparr>) (Returned bs, s') \<and> length bs = 200"
proof -
  have "ready \<lparr>state = replicate 25 0, curstate = 1\<rparr>" by (simp add: ready_def)
  from generate_value [OF this, of 200] obtain bs s' where
    g: "generate_random_bytes 200 \<lparr>state = replicate 25 0, curstate = 1\<rparr> = Some (bs, s')" "length bs = 200"
    by (simp del: upt_rec_numeral replicate.simps)
  from call_returns_always [OF g(1) rtranclp.rtrancl_refl] g(2) show ?thesis by blast
qed

text \<open>C25: A late second call is caught: whenever a first call is between its mark and its return and a second one
  begins, the second one's first step ends the process at its assertion, in every interleaving from a state between
  calls.\<close>

theorem late_call_detected:
  assumes "curstate s = 1" "race_step\<^sup>*\<^sup>* (Enter m, Enter n, s) (p, Enter n, s')" "inside p"
    "race_step (p, Enter n, s') (p', q', s'')" "q' \<noteq> Enter n"
  shows "q' = Aborted"
proof -
  have "before_second (Enter m, Enter n, s)" using assms(1) by (simp add: before_second_def)
  from before_second_reachable [OF assms(2) this] have "curstate s' = 2"
    using assms(3) by (auto simp: before_second_def)
  with assms(4,5) show ?thesis by (auto simp: race_step_simps elim!: call_stepE)
qed

lemma race_mark:
  "curstate s = 1 \<Longrightarrow> race_step\<^sup>*\<^sup>* (Enter m, Enter n, s) (if m = 0 then Leave [] else Permute m [], Enter n, s\<lparr>curstate := 2\<rparr>)"
  by (rule steps_first [OF call_step.enter call_step.mark]) simp_all

theorem late_call_detected_witness:
  "\<exists>p' s''. race_step (Permute 8 [], Enter 8, \<lparr>state = replicate 25 0, curstate = 2\<rparr>) (p', Aborted, s'')"
proof -
  let ?s = "\<lparr>state = replicate 25 0, curstate = 1\<rparr>" and ?t = "\<lparr>state = replicate 25 0, curstate = 2\<rparr>"
  have r: "race_step\<^sup>*\<^sup>* (Enter 8, Enter 8, ?s) (Permute 8 [], Enter 8, ?t)"
    using race_mark [of ?s 8 8] by simp
  have "\<exists>p' q' s''. race_step (Permute 8 [], Enter 8, ?t) (p', q', s'') \<and> q' \<noteq> Enter 8"
    by (rule exI, rule exI, rule exI, rule conjI, rule race_step.second, simp, rule call_step.enter_fails) simp_all
  then obtain p' q' s'' where d: "race_step (Permute 8 [], Enter 8, ?t) (p', q', s'')" "q' \<noteq> Enter 8" by blast
  from late_call_detected [OF _ r _ d] have "q' = Aborted" by simp
  with d(1) show ?thesis by blast
qed

text \<open>Two calls that begin together are not caught: some interleaving of two calls for \<open>n \<le> 136\<close> bytes passes all
  assertions, and both callers return with the same bytes.\<close>

theorem simultaneous_calls_undetected:
  assumes "curstate s = 1" "0 < n" "n \<le> HASH_DATA_AREA"
  shows "\<exists>bs s'. race_step\<^sup>*\<^sup>* (Enter n, Enter n, s) (Returned bs, Returned bs, s') \<and> curstate s' = 1"
proof -
  let ?t = "s\<lparr>curstate := 2\<rparr>"
  let ?u = "?t\<lparr>state := hash_permutation (hash_permutation (state s))\<rparr>"
  let ?bs = "take n (lane_bytes (state ?u))"
  let ?v = "?t\<lparr>state := hash_permutation (state s)\<rparr>"
  have "race_step\<^sup>*\<^sup>* (Enter n, Enter n, s) (Entered n, Entered n, s)"
    by (rule step_both) (use assms(1) in \<open>auto intro: call_step.enter\<close>)
  moreover have "race_step\<^sup>*\<^sup>* (Entered n, Entered n, s) (Permute n [], Permute n [], ?t)"
    using step_both [OF call_step.mark [of n s] call_step.mark [of n ?t]] assms(2) by simp
  moreover have "race_step\<^sup>*\<^sup>* (Permute n [], Permute n [], ?t) (Copy n [], Copy n [], ?u)"
  proof (rule step_both)
    show "call_step (Permute n [], ?t) (Copy n [], ?v)" "call_step (Permute n [], ?v) (Copy n [], ?u)"
      using call_step.permute [of n "[]" ?t] call_step.permute [of n "[]" ?v] by simp_all
  qed simp_all
  moreover have "race_step\<^sup>*\<^sup>* (Copy n [], Copy n [], ?u) (Leave ?bs, Leave ?bs, ?u)"
    using step_both [OF call_step.copy_last [OF assms(3), of "[]" ?u] call_step.copy_last [OF assms(3), of "[]" ?u]] by simp
  moreover have "race_step\<^sup>*\<^sup>* (Leave ?bs, Leave ?bs, ?u) (Unmark ?bs, Unmark ?bs, ?u)"
    by (rule step_both) (auto intro: call_step.leave)
  moreover have "race_step\<^sup>*\<^sup>* (Unmark ?bs, Unmark ?bs, ?u) (Returned ?bs, Returned ?bs, ?u\<lparr>curstate := 1\<rparr>)"
    using step_both [OF call_step.unmark [of ?bs ?u] call_step.unmark [of ?bs "?u\<lparr>curstate := 1\<rparr>"]] by simp
  ultimately have "race_step\<^sup>*\<^sup>* (Enter n, Enter n, s) (Returned ?bs, Returned ?bs, ?u\<lparr>curstate := 1\<rparr>)"
    by (meson rtranclp_trans)
  then show ?thesis by (intro exI [of _ ?bs] exI [of _ "?u\<lparr>curstate := 1\<rparr>"] conjI) simp_all
qed

theorem simultaneous_calls_undetected_witness:
  "\<exists>bs s'. race_step\<^sup>*\<^sup>* (Enter 32, Enter 32, \<lparr>state = replicate 25 5, curstate = 1\<rparr>) (Returned bs, Returned bs, s') \<and> curstate s' = 1"
  by (rule simultaneous_calls_undetected) (simp_all add: HASH_DATA_AREA_def)

text \<open>What POSIX promises: a call of \<open>read\<close> gives at most as many bytes as it is asked for.\<close>

fun reads_bounded :: "read_result list \<Rightarrow> nat \<Rightarrow> bool" where
  "reads_bounded [] n = True"
| "reads_bounded (Read bs # rs) n \<longleftrightarrow> length bs \<le> n \<and> reads_bounded rs (n - length bs)"
| "reads_bounded (_ # rs) n = reads_bounded rs n"

definition read_bytes :: "read_result list \<Rightarrow> u8 list" where
  "read_bytes reads = concat (map (\<lambda>x. case x of Read bs \<Rightarrow> bs | _ \<Rightarrow> []) reads)"

lemma read_bytes_simps [simp]:
  "read_bytes [] = []" "read_bytes (Read bs # rs) = bs @ read_bytes rs" "read_bytes (Interrupted # rs) = read_bytes rs"
  by (simp_all add: read_bytes_def)

lemma read_urandom_value:
  "read_urandom reads n = Some r \<Longrightarrow> reads_bounded reads n \<Longrightarrow> (case r of
      Inr bs \<Rightarrow> length bs = n \<and> (\<exists>k. bs = read_bytes (take k reads) \<and> Read_error \<notin> set (take k reads))
    | Inl e \<Rightarrow> e = Read_failed \<and> Read_error \<in> set reads \<or> e = End_of_file \<and> Read [] \<in> set reads)"
proof (induction reads n arbitrary: r rule: read_urandom.induct)
  case (2 bs rs n)
  show ?case
  proof (cases "length bs = n \<or> bs = []")
    case True
    then show ?thesis using "2.prems" by (auto intro!: exI [of _ 1] split: if_splits)
  next
    case False
    then obtain r' where r': "read_urandom rs (n - length bs) = Some r'" "r = map_sum id ((@) bs) r'"
      using "2.prems" by auto
    note IH = "2.IH" [OF _ _ r'(1)]
    show ?thesis
    proof (cases r')
      case (Inr bs')
      then obtain k where "bs' = read_bytes (take k rs)" "Read_error \<notin> set (take k rs)" "length bs' = n - length bs"
        using IH False "2.prems" by auto
      then show ?thesis using Inr "2.prems" r'(2) by (auto intro!: exI [of _ "Suc k"])
    qed (use IH False "2.prems" r'(2) in auto)
  qed
next
  case (3 rs n)
  then show ?case
  proof (cases r)
    case (Inr bs)
    then obtain k where "bs = read_bytes (take k rs)" "Read_error \<notin> set (take k rs)" "length bs = n"
      using "3.IH" [of r] "3.prems" by auto
    then show ?thesis using Inr by (auto intro!: exI [of _ "Suc k"])
  qed auto
qed auto

text \<open>The bytes from the system: a result of \<open>n\<close> bytes is the concatenation of the bytes of the successive reads,
  interrupted ones repeated, with the file opened and closed; the first read error other than \<open>EINTR\<close> and the end of the
  file end the process.\<close>

theorem system_random_bytes_correct:
  assumes "generate_system_random_bytes opened reads closed n = Some r" "reads_bounded reads n"
  shows "case r of
      Inr bs \<Rightarrow> opened \<and> closed \<and> length bs = n \<and>
        (\<exists>k. bs = read_bytes (take k reads) \<and> Read_error \<notin> set (take k reads))
    | Inl e \<Rightarrow> (e = Open_failed \<longleftrightarrow> \<not> opened) \<and> (e = Close_failed \<longrightarrow> \<not> closed) \<and>
        (e = Read_failed \<longrightarrow> Read_error \<in> set reads) \<and> (e = End_of_file \<longrightarrow> Read [] \<in> set reads)"
proof (cases opened)
  case True
  with assms obtain r' where "read_urandom reads n = Some r'"
    "r = case_sum Inl (\<lambda>bs. if closed then Inr bs else Inl Close_failed) r'"
    by (auto simp: generate_system_random_bytes_def)
  with read_urandom_value [of reads n] assms(2) True show ?thesis by (cases r') auto
qed (use assms in \<open>auto simp: generate_system_random_bytes_def\<close>)

theorem system_random_bytes_correct_witness:
  "generate_system_random_bytes True [Interrupted, Read [1, 2], Interrupted, Read [3]] True 3 = Some (Inr [1, 2, 3]) \<and>
   (\<exists>k. [1, 2, 3] = read_bytes (take k [Interrupted, Read [1, 2], Interrupted, Read [3]]))"
proof -
  have r: "generate_system_random_bytes True [Interrupted, Read [1, 2], Interrupted, Read [3]] True 3 = Some (Inr [1, 2, 3])"
    by (simp add: generate_system_random_bytes_def)
  with system_random_bytes_correct [OF r] show ?thesis by auto
qed

end
