(* ===== verification/Blake256.thy ===== *)
theory Blake256
  imports Prelude
begin

text \<open>
  blake256.c: BLAKE-256 and BLAKE-224, fed in pieces whose lengths are counted in bits, their HMAC, and
  \<open>hash_extra_blake\<close>, one of the four hashes that end the slow hash of CryptoNote. Reading past the data or writing past
  the buffer is \<open>None\<close>. \<open>buflen\<close> is a C \<open>int\<close> that never leaves \<open>0 .. 1023\<close>, a natural number here.
\<close>

section \<open>Words and tables\<close>

definition U8TO32 :: "u8 list \<Rightarrow> u32" where
  "U8TO32 p = push_bit 24 (ucast (p ! 0)) OR push_bit 16 (ucast (p ! 1)) OR push_bit 8 (ucast (p ! 2)) OR ucast (p ! 3)"

definition U32TO8 :: "u32 \<Rightarrow> u8 list" where
  "U32TO8 v = [ucast (drop_bit 24 v), ucast (drop_bit 16 v), ucast (drop_bit 8 v), ucast v]"

definition blake_sigma :: "nat list list" where
  "blake_sigma =
     [[0, 1, 2, 3, 4, 5, 6, 7, 8, 9, 10, 11, 12, 13, 14, 15],
      [14, 10, 4, 8, 9, 15, 13, 6, 1, 12, 0, 2, 11, 7, 5, 3],
      [11, 8, 12, 0, 5, 2, 15, 13, 10, 14, 3, 6, 7, 1, 9, 4],
      [7, 9, 3, 1, 13, 12, 11, 14, 2, 6, 5, 10, 4, 0, 15, 8],
      [9, 0, 5, 7, 2, 4, 10, 15, 14, 1, 11, 12, 6, 8, 3, 13],
      [2, 12, 6, 10, 0, 11, 8, 3, 4, 13, 7, 5, 15, 14, 1, 9],
      [12, 5, 1, 15, 14, 13, 4, 10, 0, 7, 6, 3, 9, 2, 8, 11],
      [13, 11, 7, 14, 12, 1, 3, 9, 5, 0, 15, 4, 8, 6, 2, 10],
      [6, 15, 14, 9, 11, 3, 0, 8, 12, 2, 13, 7, 1, 4, 10, 5],
      [10, 2, 8, 4, 7, 6, 1, 5, 15, 11, 9, 14, 3, 12, 13, 0],
      [0, 1, 2, 3, 4, 5, 6, 7, 8, 9, 10, 11, 12, 13, 14, 15],
      [14, 10, 4, 8, 9, 15, 13, 6, 1, 12, 0, 2, 11, 7, 5, 3],
      [11, 8, 12, 0, 5, 2, 15, 13, 10, 14, 3, 6, 7, 1, 9, 4],
      [7, 9, 3, 1, 13, 12, 11, 14, 2, 6, 5, 10, 4, 0, 15, 8]]"

definition blake_cst :: "u32 list" where
  "blake_cst =
     [0x243F6A88, 0x85A308D3, 0x13198A2E, 0x03707344,
      0xA4093822, 0x299F31D0, 0x082EFA98, 0xEC4E6C89,
      0x452821E6, 0x38D01377, 0xBE5466CF, 0x34E90C6C,
      0xC0AC29B7, 0xC97C50DD, 0x3F84D5B5, 0xB5470917]"

definition blake_padding :: "u8 list" where
  "blake_padding = 0x80 # replicate 63 0"

section \<open>The state and the compression\<close>

record blake_state =
  b_h :: "u32 list"
  b_s :: "u32 list"
  b_t0 :: u32
  b_t1 :: u32
  b_buflen :: nat
  b_nullt :: int
  b_buf :: "u8 list"

definition ROT :: "u32 \<Rightarrow> nat \<Rightarrow> u32" where
  "ROT x n = push_bit (32 - n) x OR drop_bit n x"

definition blake_G :: "u32 list \<Rightarrow> nat \<Rightarrow> nat \<Rightarrow> nat \<Rightarrow> nat \<Rightarrow> nat \<Rightarrow> nat \<Rightarrow> u32 list \<Rightarrow> u32 list" where
  "blake_G m i a b c d e v =
     (let s = blake_sigma ! i;
          v = v[a := v ! a + ((m ! (s ! e) XOR blake_cst ! (s ! (e + 1))) + v ! b)];
          v = v[d := ROT (v ! d XOR v ! a) 16];
          v = v[c := v ! c + v ! d];
          v = v[b := ROT (v ! b XOR v ! c) 12];
          v = v[a := v ! a + ((m ! (s ! (e + 1)) XOR blake_cst ! (s ! e)) + v ! b)];
          v = v[d := ROT (v ! d XOR v ! a) 8];
          v = v[c := v ! c + v ! d]
      in v[b := ROT (v ! b XOR v ! c) 7])"

definition blake_round :: "u32 list \<Rightarrow> nat \<Rightarrow> u32 list \<Rightarrow> u32 list" where
  "blake_round m i v =
     (let v = blake_G m i 0 4 8 12 0 v;
          v = blake_G m i 1 5 9 13 2 v;
          v = blake_G m i 2 6 10 14 4 v;
          v = blake_G m i 3 7 11 15 6 v;
          v = blake_G m i 3 4 9 14 14 v;
          v = blake_G m i 2 7 8 13 12 v;
          v = blake_G m i 0 5 10 15 8 v
      in blake_G m i 1 6 11 12 10 v)"

definition blake256_compress :: "blake_state \<Rightarrow> u8 list \<Rightarrow> blake_state" where
  "blake256_compress S block =
     (let m = map (\<lambda>i. U8TO32 (drop (i * 4) block)) [0..<16];
          v = map (\<lambda>i. b_h S ! i) [0..<8] @
            [b_s S ! 0 XOR 0x243F6A88, b_s S ! 1 XOR 0x85A308D3, b_s S ! 2 XOR 0x13198A2E, b_s S ! 3 XOR 0x03707344,
             0xA4093822, 0x299F31D0, 0x082EFA98, 0xEC4E6C89];
          v = (if b_nullt S = 0
               then v[12 := v ! 12 XOR b_t0 S, 13 := v ! 13 XOR b_t0 S, 14 := v ! 14 XOR b_t1 S, 15 := v ! 15 XOR b_t1 S]
               else v);
          v = fold (blake_round m) [0..<14] v;
          h = fold (\<lambda>i h. h[i mod 8 := h ! (i mod 8) XOR v ! i]) [0..<16] (b_h S);
          h = fold (\<lambda>i h. h[i := h ! i XOR b_s S ! (i mod 4)]) [0..<8] h
      in S\<lparr>b_h := h\<rparr>)"

section \<open>Initialisation, update and the end\<close>

text \<open>The contents of the buffer are those of the memory the state is in.\<close>

definition blake256_init :: "u8 list \<Rightarrow> blake_state" where
  "blake256_init memory =
     \<lparr>b_h = [0x6A09E667, 0xBB67AE85, 0x3C6EF372, 0xA54FF53A, 0x510E527F, 0x9B05688C, 0x1F83D9AB, 0x5BE0CD19],
      b_s = [0, 0, 0, 0], b_t0 = 0, b_t1 = 0, b_buflen = 0, b_nullt = 0, b_buf = memory\<rparr>"

definition blake224_init :: "u8 list \<Rightarrow> blake_state" where
  "blake224_init memory =
     \<lparr>b_h = [0xC1059ED8, 0x367CD507, 0x3070DD17, 0xF70E5939, 0xFFC00B31, 0x68581511, 0x64F98FA7, 0xBEFA4FA4],
      b_s = [0, 0, 0, 0], b_t0 = 0, b_t1 = 0, b_buflen = 0, b_nullt = 0, b_buf = memory\<rparr>"

text \<open>\<open>S->t[0] += 512; if (S->t[0] == 0) S->t[1]++;\<close>\<close>

definition blake_count :: "blake_state \<Rightarrow> blake_state" where
  "blake_count S =
     (let S = S\<lparr>b_t0 := b_t0 S + 512\<rparr> in if b_t0 S = 0 then S\<lparr>b_t1 := b_t1 S + 1\<rparr> else S)"

text \<open>\<open>memcpy(S->buf + left, data, n)\<close>\<close>

definition blake_store :: "blake_state \<Rightarrow> nat \<Rightarrow> u8 list \<Rightarrow> nat \<Rightarrow> blake_state option" where
  "blake_store S left data n =
     (if length data < n \<or> 64 < left + n then None
      else Some (S\<lparr>b_buf := take left (b_buf S) @ take n data @ drop (left + n) (b_buf S)\<rparr>))"

function blake_blocks :: "blake_state \<Rightarrow> u8 list \<Rightarrow> u64 \<Rightarrow> (blake_state \<times> u8 list \<times> u64) option" where
  "blake_blocks S data datalen =
     (if 512 \<le> datalen then
        if length data < 64 then None
        else blake_blocks (blake256_compress (blake_count S) (take 64 data)) (drop 64 data) (datalen - 512)
      else Some (S, data, datalen))"
  by pat_completeness auto

termination
proof (relation "measure (\<lambda>(S, data, datalen). length data)")
qed auto

declare blake_blocks.simps [simp del]

text \<open>The length is a number of bits.\<close>

definition blake256_update :: "blake_state \<Rightarrow> u8 list \<Rightarrow> u64 \<Rightarrow> blake_state option" where
  "blake256_update S data datalen =
     (let left = b_buflen S div 8; fill = 64 - left
      in Option.bind
           (if left \<noteq> 0 \<and> fill \<le> unat (drop_bit 3 datalen AND 0x3F) then
              map_option (\<lambda>S. (blake256_compress (blake_count S) (b_buf S), drop fill data, datalen - of_nat (8 * fill), 0))
                (blake_store S left data fill)
            else Some (S, data, datalen, left))
           (\<lambda>(S, data, datalen, left).
              Option.bind (blake_blocks S data datalen) (\<lambda>(S, data, datalen).
                if 0 < datalen then
                  map_option (\<lambda>S. S\<lparr>b_buflen := 8 * left + unat datalen\<rparr>) (blake_store S left data (unat (drop_bit 3 datalen)))
                else Some (S\<lparr>b_buflen := 0\<rparr>))))"

definition blake224_update :: "blake_state \<Rightarrow> u8 list \<Rightarrow> u64 \<Rightarrow> blake_state option" where
  "blake224_update S data datalen = blake256_update S data datalen"

definition blake256_final_h :: "blake_state \<Rightarrow> u8 \<Rightarrow> u8 \<Rightarrow> u8 list option" where
  "blake256_final_h S pa pb =
     (let lo = b_t0 S + of_nat (b_buflen S); hi = b_t1 S;
          hi = (if lo < of_nat (b_buflen S) then hi + 1 else hi);
          msglen = U32TO8 hi @ U32TO8 lo
      in Option.bind
           (if b_buflen S = 440 then blake256_update (S\<lparr>b_t0 := b_t0 S - 8\<rparr>) [pa] 8
            else
              Option.bind
                (if b_buflen S < 440 then
                   (let S = (if b_buflen S = 0 then S\<lparr>b_nullt := 1\<rparr> else S)
                    in blake256_update (S\<lparr>b_t0 := b_t0 S - of_nat (440 - b_buflen S)\<rparr>) blake_padding (of_nat (440 - b_buflen S)))
                 else
                   Option.bind (blake256_update (S\<lparr>b_t0 := b_t0 S - of_nat (512 - b_buflen S)\<rparr>) blake_padding (of_nat (512 - b_buflen S))) (\<lambda>S.
                     map_option (\<lambda>S. S\<lparr>b_nullt := 1\<rparr>) (blake256_update (S\<lparr>b_t0 := b_t0 S - 440\<rparr>) (drop 1 blake_padding) 440)))
                (\<lambda>S. map_option (\<lambda>S. S\<lparr>b_t0 := b_t0 S - 8\<rparr>) (blake256_update S [pb] 8)))
           (\<lambda>S. map_option (\<lambda>S. concat (map (\<lambda>i. U32TO8 (b_h S ! i)) [0..<8]))
                  (blake256_update (S\<lparr>b_t0 := b_t0 S - 64\<rparr>) msglen 64)))"

definition blake256_final :: "blake_state \<Rightarrow> u8 list option" where
  "blake256_final S = blake256_final_h S 0x81 0x01"

definition blake224_final :: "blake_state \<Rightarrow> u8 list option" where
  "blake224_final S = blake256_final_h S 0x80 0x00"

text \<open>The number \<open>inlen * 8\<close> of bits wraps around.\<close>

definition blake256_hash :: "u8 list \<Rightarrow> u8 list \<Rightarrow> u8 list option" where
  "blake256_hash memory inp = Option.bind (blake256_update (blake256_init memory) inp (of_nat (length inp) * 8)) blake256_final"

definition blake224_hash :: "u8 list \<Rightarrow> u8 list \<Rightarrow> u8 list option" where
  "blake224_hash memory inp = Option.bind (blake224_update (blake224_init memory) inp (of_nat (length inp) * 8)) blake224_final"

definition hash_extra_blake :: "u8 list \<Rightarrow> u8 list \<Rightarrow> u8 list option" where
  "hash_extra_blake memory data = blake256_hash memory data"

section \<open>HMAC\<close>

record hmac_state =
  inner :: blake_state
  outer :: blake_state

text \<open>\<open>memset(pad, c, 64)\<close> and the exclusive or of the key into it.\<close>

definition hmac_pad :: "u8 \<Rightarrow> u8 list \<Rightarrow> u8 list" where
  "hmac_pad c key = map (\<lambda>i. if i < length key then c XOR key ! i else c) [0..<64]"

definition hmac_blake256_init :: "u8 list \<Rightarrow> u8 list \<Rightarrow> hmac_state option" where
  "hmac_blake256_init memory key =
     Option.bind (if 64 < length key then blake256_hash memory key else Some key) (\<lambda>key.
     Option.bind (blake256_update (blake256_init memory) (hmac_pad 0x36 key) 512) (\<lambda>i.
     Option.bind (blake256_update (blake256_init memory) (hmac_pad 0x5c key) 512) (\<lambda>ou.
       Some \<lparr>inner = i, outer = ou\<rparr>)))"

definition hmac_blake224_init :: "u8 list \<Rightarrow> u8 list \<Rightarrow> hmac_state option" where
  "hmac_blake224_init memory key =
     Option.bind (if 64 < length key then map_option (take 28) (blake256_hash memory key) else Some key) (\<lambda>key.
     Option.bind (blake224_update (blake224_init memory) (hmac_pad 0x36 key) 512) (\<lambda>i.
     Option.bind (blake224_update (blake224_init memory) (hmac_pad 0x5c key) 512) (\<lambda>ou.
       Some \<lparr>inner = i, outer = ou\<rparr>)))"

definition hmac_blake256_update :: "hmac_state \<Rightarrow> u8 list \<Rightarrow> u64 \<Rightarrow> hmac_state option" where
  "hmac_blake256_update S data datalen = map_option (\<lambda>i. S\<lparr>inner := i\<rparr>) (blake256_update (inner S) data datalen)"

definition hmac_blake224_update :: "hmac_state \<Rightarrow> u8 list \<Rightarrow> u64 \<Rightarrow> hmac_state option" where
  "hmac_blake224_update S data datalen = map_option (\<lambda>i. S\<lparr>inner := i\<rparr>) (blake224_update (inner S) data datalen)"

definition hmac_blake256_final :: "hmac_state \<Rightarrow> u8 list option" where
  "hmac_blake256_final S =
     Option.bind (blake256_final (inner S)) (\<lambda>ihash.
     Option.bind (blake256_update (outer S) ihash 256) blake256_final)"

definition hmac_blake224_final :: "hmac_state \<Rightarrow> u8 list option" where
  "hmac_blake224_final S =
     Option.bind (blake224_final (inner S)) (\<lambda>ihash.
     Option.bind (blake224_update (outer S) ihash 224) blake224_final)"

definition hmac_blake256_hash :: "u8 list \<Rightarrow> u8 list \<Rightarrow> u8 list \<Rightarrow> u8 list option" where
  "hmac_blake256_hash memory key inp =
     Option.bind (hmac_blake256_init memory key) (\<lambda>S.
     Option.bind (hmac_blake256_update S inp (of_nat (length inp) * 8)) hmac_blake256_final)"

definition hmac_blake224_hash :: "u8 list \<Rightarrow> u8 list \<Rightarrow> u8 list \<Rightarrow> u8 list option" where
  "hmac_blake224_hash memory key inp =
     Option.bind (hmac_blake224_init memory key) (\<lambda>S.
     Option.bind (hmac_blake224_update S inp (of_nat (length inp) * 8)) hmac_blake224_final)"

end
