(* ===== verification/Blake256_Compress.thy ===== *)
theory Blake256_Compress
  imports Blake256
begin

text \<open>
  The compression function of blake256.c against that of the submission: \<open>spec_G\<close> on the four words of a column or diagonal, the
  rounds with the permutation \<open>r mod 10\<close>, the counter in the initial state. The permutations and the constants of the
  submission are given here anew, and the tables of the code are proved to be them. The code applies the diagonals in an order of its own,
  which commutes (\<open>on_quad_commute\<close>), and folds the two halves into the chain value in two loops.
\<close>

section \<open>The compression of the specification\<close>

text \<open>A word from four bytes and the words of a block, most significant byte first.\<close>

definition be_word :: "u8 list \<Rightarrow> u32" where
  "be_word bs = word_of_int (le_val (rev bs))"

definition block_words :: "u8 list \<Rightarrow> u32 list" where
  "block_words block = map (\<lambda>i. be_word (take 4 (drop (4 * i) block))) [0..<16]"

type_synonym quad = "u32 \<times> u32 \<times> u32 \<times> u32"

text \<open>\<open>G\<close> with the two words that enter it.\<close>

definition spec_G :: "u32 \<Rightarrow> u32 \<Rightarrow> quad \<Rightarrow> quad" where
  "spec_G x y q =
     (let (a, b, c, d) = q;
          a = a + b + x; d = word_rotr 16 (d XOR a); c = c + d; b = word_rotr 12 (b XOR c);
          a = a + b + y; d = word_rotr 8 (d XOR a); c = c + d; b = word_rotr 7 (b XOR c)
      in (a, b, c, d))"

definition on_quad :: "nat \<times> nat \<times> nat \<times> nat \<Rightarrow> (quad \<Rightarrow> quad) \<Rightarrow> u32 list \<Rightarrow> u32 list" where
  "on_quad i f v = (case i of (a, b, c, d) \<Rightarrow> case f (v ! a, v ! b, v ! c, v ! d) of (p, q, r, s) \<Rightarrow> v[a := p, b := q, c := r, d := s])"

text \<open>The ten permutations of the submission.\<close>

definition spec_sigma :: "nat list list" where
  "spec_sigma =
     [[0, 1, 2, 3, 4, 5, 6, 7, 8, 9, 10, 11, 12, 13, 14, 15],
      [14, 10, 4, 8, 9, 15, 13, 6, 1, 12, 0, 2, 11, 7, 5, 3],
      [11, 8, 12, 0, 5, 2, 15, 13, 10, 14, 3, 6, 7, 1, 9, 4],
      [7, 9, 3, 1, 13, 12, 11, 14, 2, 6, 5, 10, 4, 0, 15, 8],
      [9, 0, 5, 7, 2, 4, 10, 15, 14, 1, 11, 12, 6, 8, 3, 13],
      [2, 12, 6, 10, 0, 11, 8, 3, 4, 13, 7, 5, 15, 14, 1, 9],
      [12, 5, 1, 15, 14, 13, 4, 10, 0, 7, 6, 3, 9, 2, 8, 11],
      [13, 11, 7, 14, 12, 1, 3, 9, 5, 0, 15, 4, 8, 6, 2, 10],
      [6, 15, 14, 9, 11, 3, 0, 8, 12, 2, 13, 7, 1, 4, 10, 5],
      [10, 2, 8, 4, 7, 6, 1, 5, 15, 11, 9, 14, 3, 12, 13, 0]]"

text \<open>The constants are the first 512 bits of the fraction of pi, 32 at a time.\<close>

definition pi_fraction :: int where
  "pi_fraction = 0x243F6A8885A308D313198A2E03707344A4093822299F31D0082EFA98EC4E6C89452821E638D01377BE5466CF34E90C6CC0AC29B7C97C50DD3F84D5B5B5470917"

definition pi_words :: "u32 list" where
  "pi_words = map (\<lambda>i. word_of_int (pi_fraction div 2 ^ (480 - 32 * i))) [0..<16]"

text \<open>\<open>G_j\<close> of round \<open>r\<close>, with the permutation \<open>r mod 10\<close>.\<close>

definition spec_Gj :: "u32 list \<Rightarrow> nat \<Rightarrow> nat \<Rightarrow> quad \<Rightarrow> quad" where
  "spec_Gj m r j =
     (let s = spec_sigma ! (r mod 10)
      in spec_G (m ! (s ! (2 * j)) XOR pi_words ! (s ! (2 * j + 1))) (m ! (s ! (2 * j + 1)) XOR pi_words ! (s ! (2 * j))))"

text \<open>The columns, then the diagonals.\<close>

definition blake_spec_round :: "u32 list \<Rightarrow> nat \<Rightarrow> u32 list \<Rightarrow> u32 list" where
  "blake_spec_round m r v =
     fold (\<lambda>(j, i). on_quad i (spec_Gj m r j))
       [(0, 0, 4, 8, 12), (1, 1, 5, 9, 13), (2, 2, 6, 10, 14), (3, 3, 7, 11, 15),
        (4, 0, 5, 10, 15), (5, 1, 6, 11, 12), (6, 2, 7, 8, 13), (7, 3, 4, 9, 14)] v"

definition spec_init :: "u32 list \<Rightarrow> u32 list \<Rightarrow> u64 \<Rightarrow> u32 list" where
  "spec_init h s t =
     h @ map2 (XOR) s (take 4 pi_words) @
       map2 (XOR) [ucast t, ucast t, ucast (drop_bit 32 t), ucast (drop_bit 32 t)] (drop 4 (take 8 pi_words))"

definition spec_compress :: "u32 list \<Rightarrow> u32 list \<Rightarrow> u64 \<Rightarrow> u32 list \<Rightarrow> u32 list" where
  "spec_compress s h t m =
     (let v = fold (blake_spec_round m) [0..<14] (spec_init h s t)
      in map (\<lambda>i. h ! i XOR s ! (i mod 4) XOR v ! i XOR v ! (i + 8)) [0..<8])"

section \<open>The compression of the code\<close>

lemma ROT_rotr: "0 < n \<Longrightarrow> n < 32 \<Longrightarrow> ROT x n = word_rotr n x"
proof (rule bit_word_eqI)
  fix k assume n: "0 < n" "n < 32" and "k < LENGTH(32)"
  then have k: "k < 32" by simp
  have "\<not> bit x i" if "32 \<le> i" for i using that bit_imp_le_length [of x i] by auto
  moreover have "(k + n) mod 32 = (if k + n < 32 then k + n else k + n - 32)"
    using n k by (cases "k + n < 32") (simp_all add: le_mod_geq)
  ultimately show "bit (ROT x n) k = bit (word_rotr n x) k"
    using n k by (auto simp: ROT_def bit_or_iff bit_push_bit_iff bit_drop_bit_eq bit_word_rotr_iff not_less add.commute [of n k])
qed

lemma blake_G_value:
  assumes "distinct [a, b, c, d]" "a < length v" "b < length v" "c < length v" "d < length v"
  shows "blake_G m i a b c d e v = on_quad (a, b, c, d)
    (spec_G (m ! (blake_sigma ! i ! e) XOR blake_cst ! (blake_sigma ! i ! (e + 1)))
      (m ! (blake_sigma ! i ! (e + 1)) XOR blake_cst ! (blake_sigma ! i ! e))) v"
  using assms
  by (intro nth_equalityI) (auto simp: blake_G_def on_quad_def spec_G_def Let_def nth_list_update ROT_rotr ac_simps)

lemma length_on_quad [simp]: "length (on_quad i f v) = length v"
  by (auto simp: on_quad_def split: prod.splits)

lemma on_quad_commute:
  assumes "distinct [a, b, c, d, a', b', c', d']"
  shows "on_quad (a, b, c, d) f (on_quad (a', b', c', d') g v) = on_quad (a', b', c', d') g (on_quad (a, b, c, d) f v)"
proof -
  obtain p q r t where f: "f (v ! a, v ! b, v ! c, v ! d) = (p, q, r, t)" by (metis prod_cases4)
  obtain p' q' r' t' where g: "g (v ! a', v ! b', v ! c', v ! d') = (p', q', r', t')" by (metis prod_cases4)
  from assms have ne: "a \<noteq> b" "a \<noteq> c" "a \<noteq> d" "a \<noteq> a'" "a \<noteq> b'" "a \<noteq> c'" "a \<noteq> d'"
    "b \<noteq> c" "b \<noteq> d" "b \<noteq> a'" "b \<noteq> b'" "b \<noteq> c'" "b \<noteq> d'" "c \<noteq> d"
    "c \<noteq> a'" "c \<noteq> b'" "c \<noteq> c'" "c \<noteq> d'" "d \<noteq> a'" "d \<noteq> b'" "d \<noteq>
    c'" "d \<noteq> d'" "a' \<noteq> b'" "a' \<noteq> c'" "a' \<noteq> d'" "b' \<noteq> c'" "b' \<noteq> d'" "c'
    \<noteq> d'"
    by simp_all
  show ?thesis by (simp add: on_quad_def f g ne ne [symmetric]) (simp add: list_update_swap ne ne [symmetric])
qed

lemma sigma_rows: "r < 14 \<Longrightarrow> blake_sigma ! r = spec_sigma ! (r mod 10)"
proof -
  have s: "blake_sigma = spec_sigma @ take 4 spec_sigma" "length spec_sigma = 10" by (simp_all add: blake_sigma_def spec_sigma_def)
  assume "r < 14"
  then show ?thesis unfolding s(1) nth_append s(2) by (simp add: le_mod_geq)
qed

lemma cst_words: "blake_cst = pi_words"
  by (simp add: blake_cst_def pi_words_def pi_fraction_def upt_rec)

lemma blake_round_value:
  assumes "length v = 16" "r < 14"
  shows "blake_round m r v = blake_spec_round m r v"
proof -
  note s = sigma_rows [OF assms(2)]
  have "blake_round m r v =
      on_quad (1, 6, 11, 12) (spec_Gj m r 5) (on_quad (0, 5, 10, 15) (spec_Gj m r 4)
      (on_quad (2, 7, 8, 13) (spec_Gj m r 6) (on_quad (3, 4, 9, 14) (spec_Gj m r 7)
      (on_quad (3, 7, 11, 15) (spec_Gj m r 3) (on_quad (2, 6, 10, 14) (spec_Gj m r 2)
      (on_quad (1, 5, 9, 13) (spec_Gj m r 1) (on_quad (0, 4, 8, 12) (spec_Gj m r 0) v)))))))"
    using assms(1) by (simp add: blake_round_def blake_G_value spec_Gj_def Let_def s cst_words)
  also have "\<dots> = blake_spec_round m r v"
    using assms(1) by (simp add: blake_spec_round_def on_quad_commute [of "Suc 0" 6 11 12 0 5 10 15] on_quad_commute [of "Suc 0" 6 11 12 2 7 8 13]
      on_quad_commute [of "Suc 0" 6 11 12 3 4 9 14] on_quad_commute [of 0 5 10 15 2 7 8 13] on_quad_commute [of 0 5 10 15 3 4 9 14]
      on_quad_commute [of 2 7 8 13 3 4 9 14])
  finally show ?thesis .
qed

lemma length_blake_spec_round [simp]: "length (blake_spec_round m r v) = length v"
  by (simp add: blake_spec_round_def)

lemma blake_rounds_value:
  assumes "length v = 16" "n \<le> 14"
  shows "fold (blake_round m) [0..<n] v = fold (blake_spec_round m) [0..<n] v \<and> length (fold (blake_spec_round m) [0..<n] v) = 16"
  using assms(2)
proof (induction n)
  case (Suc n)
  then show ?case using blake_round_value [of "fold (blake_spec_round m) [0..<n] v" n] by simp
qed (simp add: assms(1))

lemma be_word_bytes: "be_word [a, b, c, d] = U8TO32 [a, b, c, d]"
proof (rule bit_word_eqI)
  fix n assume "n < LENGTH(32)"
  then have n: "n < 32" by simp
  have e: "le_val [d, c, b, a] = uint d + 2 ^ 8 * (uint c + 2 ^ 8 * (uint b + 2 ^ 8 * uint a))" by simp
  have u: "0 \<le> uint x" "uint x < 2 ^ 8" for x :: u8 using uint_bounded [of x] by simp_all
  have x: "bit x k \<Longrightarrow> k < 8" for x :: u8 and k using bit_imp_le_length [of x k] by simp
  have "bit (be_word [a, b, c, d]) n = (if n < 8 then bit d n else if n < 16 then bit c (n - 8) else if n < 24 then bit b (n - 16) else bit a (n - 24))"
  proof -
    have "bit (be_word [a, b, c, d]) n = bit (le_val [d, c, b, a]) n"
      using n by (simp add: be_word_def bit_word_of_int_iff del: le_val.simps)
    then show ?thesis unfolding e bit_low_high [OF u] bit_uint_iff using n by (auto dest: x)
  qed
  also have "\<dots> = bit (U8TO32 [a, b, c, d]) n"
    using n by (auto simp: U8TO32_def bit_simps dest: x)
  finally show "bit (be_word [a, b, c, d]) n = bit (U8TO32 [a, b, c, d]) n" .
qed

lemma block_words_value: "64 \<le> length block \<Longrightarrow> map (\<lambda>i. U8TO32 (drop (i * 4) block)) [0..<16] = block_words block"
proof (rule nth_equalityI)
  fix i assume l: "64 \<le> length block" and "i < length (map (\<lambda>i. U8TO32 (drop (i * 4) block)) [0..<16])"
  then have i: "i < 16" by simp
  define p where "p = drop (4 * i) block"
  have "4 \<le> length p" using l i by (simp add: p_def)
  then obtain a b c d q where "p = a # b # c # d # q" by (auto simp: Suc_le_length_iff eval_nat_numeral)
  then have "be_word (take 4 p) = U8TO32 p" by (simp add: be_word_bytes) (simp add: U8TO32_def)
  then show "map (\<lambda>i. U8TO32 (drop (i * 4) block)) [0..<16] ! i = block_words block ! i"
    using i by (simp add: block_words_def p_def mult.commute)
qed (simp add: block_words_def)

definition counter_of :: "blake_state \<Rightarrow> u64" where
  "counter_of S = (if b_nullt S = 0 then push_bit 32 (ucast (b_t1 S)) OR ucast (b_t0 S) else 0)"

lemma counter_halves: "ucast (push_bit 32 (ucast (h :: u32)) OR ucast (l :: u32) :: u64) = l"
  "(ucast (drop_bit 32 (push_bit 32 (ucast (h :: u32)) OR ucast (l :: u32) :: u64)) :: u32) = h"
proof -
  have x: "bit y k \<Longrightarrow> k < 32" for y :: u32 and k using bit_imp_le_length [of y k] by simp
  show "ucast (push_bit 32 (ucast h) OR ucast l :: u64) = l"
    by (rule bit_word_eqI) (auto simp: bit_simps dest: x)
  show "ucast (drop_bit 32 (push_bit 32 (ucast h) OR ucast l :: u64)) = h"
    by (rule bit_word_eqI) (auto simp: bit_simps dest: x)
qed

lemma counter_words: "ucast (counter_of S) = (if b_nullt S = 0 then b_t0 S else 0)"
  "ucast (drop_bit 32 (counter_of S)) = (if b_nullt S = 0 then b_t1 S else 0)"
  by (simp_all add: counter_of_def counter_halves del: drop_bit_or)

lemma length_8: "length xs = 8 \<longleftrightarrow> (\<exists>a b c d e f g h. xs = [a, b, c, d, e, f, g, h])"
  by (auto simp: length_Suc_conv eval_nat_numeral)

lemma xor_fold_16:
  assumes "length h = 8" "length s = 4" "length v = 16"
  shows "fold (\<lambda>i h. h[i := h ! i XOR s ! (i mod 4)]) [0..<8] (fold (\<lambda>i h. h[i mod 8 := h ! (i mod 8) XOR v ! i]) [0..<16] h) =
    map (\<lambda>i. h ! i XOR s ! (i mod 4) XOR v ! i XOR v ! (i + 8)) [0..<8]"
proof -
  have u: "[0..<8] = [0, 1, 2, 3, 4, 5, 6, 7 :: nat]" "[0..<16] = [0, 1, 2, 3, 4, 5, 6, 7, 8, 9, 10, 11, 12, 13, 14, 15 :: nat]"
    by (simp_all add: upt_conv_Cons)
  obtain a b c d e f g k where "h = [a, b, c, d, e, f, g, k]" using assms(1) by (auto simp: length_8)
  then show ?thesis by (simp add: u ac_simps)
qed

lemma compress_value:
  assumes "length (b_h S) = 8" "length (b_s S) = 4" "64 \<le> length block"
  shows "blake256_compress S block = S\<lparr>b_h := spec_compress (b_s S) (b_h S) (counter_of S) (block_words block)\<rparr>"
proof -
  obtain s0 s1 s2 s3 where s: "b_s S = [s0, s1, s2, s3]" using assms(2) by (auto simp: length_Suc_conv eval_nat_numeral)
  obtain a b c d e f g k where h: "b_h S = [a, b, c, d, e, f, g, k]" using assms(1) by (auto simp: length_8)
  let ?v = "map (\<lambda>i. b_h S ! i) [0..<8] @
      [b_s S ! 0 XOR 0x243F6A88, b_s S ! 1 XOR 0x85A308D3, b_s S ! 2 XOR 0x13198A2E, b_s S ! 3 XOR 0x03707344,
       0xA4093822, 0x299F31D0, 0x082EFA98, 0xEC4E6C89]"
  let ?w = "if b_nullt S = 0
      then ?v[12 := ?v ! 12 XOR b_t0 S, 13 := ?v ! 13 XOR b_t0 S, 14 := ?v ! 14 XOR b_t1 S, 15 := ?v ! 15 XOR b_t1 S] else ?v"
  have u: "map (\<lambda>i. b_h S ! i) [0..<8] = b_h S" using assms(1) by (metis map_nth)
  have i: "?w = spec_init (b_h S) (b_s S) (counter_of S)"
    unfolding u by (simp add: s h spec_init_def counter_words cst_words [symmetric] blake_cst_def xor.commute)
  have l: "length (spec_init (b_h S) (b_s S) (counter_of S)) = 16" by (simp add: spec_init_def s h cst_words [symmetric] blake_cst_def)
  note r = blake_rounds_value [OF l, of 14 "block_words block"]
  show ?thesis
    unfolding blake256_compress_def Let_def block_words_value [OF assms(3)] i spec_compress_def
    using r xor_fold_16 [OF assms(1,2)] by simp
qed

end
