(* ===== verification/Blake256_Update.thy ===== *)
theory Blake256_Update
  imports Blake256_Compress
begin

text \<open>
  What an update does on each of its paths. \<open>blake_absorbed IV m S\<close> says that the state has read the message \<open>m\<close>: its whole blocks are
  compressed with the counters of the specification and the rest is in the buffer. An update of a state that has read \<open>m\<close> with \<open>d\<close>
  leaves one that has read \<open>absorb m d\<close>, which is \<open>m @ d\<close> but for the pieces the code mishandles.
\<close>

section \<open>Counters and lengths\<close>

lemma bit_high: "bit ((N :: nat) div 2 ^ 32) k = bit N (32 + k)"
proof -
  have "N div 2 ^ 32 = drop_bit 32 N" by (simp add: drop_bit_eq_div)
  then show ?thesis by (simp only: bit_drop_bit_eq comp_def)
qed

lemma bit_high_numeral: "bit ((N :: nat) div 4294967296) k = bit N (32 + k)"
  using bit_high [of N k] by simp

lemma counter_of_nat: "N < 2 ^ 64 \<Longrightarrow> push_bit 32 (ucast (of_nat (N div 2 ^ 32) :: u32)) OR ucast (of_nat N :: u32) = (of_nat N :: u64)"
proof (rule bit_word_eqI)
  fix n assume "n < LENGTH(64)"
  then have n: "n < 64" by simp
  show "bit (push_bit 32 (ucast (of_nat (N div 2 ^ 32) :: u32)) OR ucast (of_nat N :: u32) :: u64) n = bit (of_nat N :: u64) n"
    using n by (auto simp: bit_simps bit_high_numeral)
qed

lemma upt_4: "[0..<4] = [0, 1, 2, 3 :: nat]"
  by (simp add: upt_conv_Cons)

lemma U32TO8_value: "U32TO8 v = rev (le_bytes 4 (uint v))"
proof -
  have "(word_of_int (drop_bit k (uint v)) :: u8) = ucast (drop_bit k v)" for k
    by (rule bit_word_eqI) (auto simp: bit_simps dest: bit_imp_le_length)
  then show ?thesis by (simp add: U32TO8_def le_bytes_def upt_4)
qed

lemma length_blake_U32TO8 [simp]: "length (U32TO8 v) = 4"
  by (simp add: U32TO8_def)

text \<open>The length as 8 bytes, most significant first.\<close>

lemma length_bytes: "U32TO8 (of_nat (N div 2 ^ 32)) @ U32TO8 (of_nat N) = rev (le_bytes 8 (int N))"
proof -
  have lo: "(word_of_int (drop_bit k (uint (of_nat N :: u32))) :: u8) = word_of_int (drop_bit k (int N))" if "k \<le> 24" for k
    by (rule bit_word_eqI) (use that in \<open>auto simp: bit_simps\<close>)
  have hi: "(word_of_int (drop_bit k (uint (of_nat (N div 2 ^ 32) :: u32))) :: u8) = word_of_int (drop_bit (32 + k) (int N))" if "k \<le> 24" for k
  proof (rule bit_word_eqI)
    fix n assume "n < LENGTH(8)"
    then show "bit (word_of_int (drop_bit k (uint (of_nat (N div 2 ^ 32) :: u32))) :: u8) n = bit (word_of_int (drop_bit (32 + k) (int N)) :: u8) n"
      using that by (auto simp: bit_simps bit_high_numeral bit_uint_iff ac_simps)
  qed
  have u: "[0..<8] = [0, 1, 2, 3, 4, 5, 6, 7 :: nat]" by (simp add: upt_conv_Cons)
  show ?thesis
    using lo [of 0] lo [of 8] lo [of 16] lo [of 24] hi [of 0] hi [of 8] hi [of 16] hi [of 24]
    by (simp add: U32TO8_value le_bytes_def upt_4 u)
qed

lemma count_words:
  "(of_nat (512 * k) + 512 :: u32) = of_nat (512 * Suc k)"
  "(of_nat (512 * Suc k) :: u32) = 0 \<longleftrightarrow> 2 ^ 23 dvd Suc k"
  "(if 2 ^ 23 dvd Suc k then of_nat (k div 2 ^ 23) + 1 else of_nat (k div 2 ^ 23) :: u32) = of_nat (Suc k div 2 ^ 23)"
proof -
  show "(of_nat (512 * k) + 512 :: u32) = of_nat (512 * Suc k)" by (simp add: algebra_simps)
  have "(2::nat) ^ 32 = 512 * 2 ^ 23" by simp
  then have "2 ^ 32 dvd 512 * Suc k \<longleftrightarrow> 2 ^ 23 dvd Suc k" by (metis nat_mult_dvd_cancel_disj zero_neq_numeral)
  then show "(of_nat (512 * Suc k) :: u32) = 0 \<longleftrightarrow> 2 ^ 23 dvd Suc k" by (simp only: word_of_nat_eq_0_iff) simp
  show "(if 2 ^ 23 dvd Suc k then of_nat (k div 2 ^ 23) + 1 else of_nat (k div 2 ^ 23) :: u32) = of_nat (Suc k div 2 ^ 23)"
    by (simp add: div_Suc dvd_eq_mod_eq_0)
qed

section \<open>The blocks of a message\<close>

definition block_at :: "u8 list \<Rightarrow> nat \<Rightarrow> u8 list" where
  "block_at m i = take 64 (drop (64 * i) m)"

definition chain :: "u32 list \<Rightarrow> u8 list \<Rightarrow> nat \<Rightarrow> u32 list" where
  "chain IV m n = foldl (\<lambda>h i. spec_compress [0, 0, 0, 0] h (of_nat (512 * (i + 1))) (block_words (block_at m i))) IV [0..<n]"

lemma chain_Suc: "chain IV m (Suc n) = spec_compress [0, 0, 0, 0] (chain IV m n) (of_nat (512 * (n + 1))) (block_words (block_at m n))"
  by (simp add: chain_def)

lemma length_chain [simp]: "length IV = 8 \<Longrightarrow> length (chain IV m n) = 8"
  by (cases n) (simp_all add: chain_def spec_compress_def Let_def)

lemma chain_cong: "(\<And>i. i < n \<Longrightarrow> block_at m i = block_at m' i) \<Longrightarrow> chain IV m n = chain IV m' n"
  by (induction n) (simp_all add: chain_Suc, simp add: chain_def)

lemma chain_append: "64 * n \<le> length m \<Longrightarrow> chain IV (m @ d) n = chain IV m n"
  by (rule chain_cong) (simp add: block_at_def)

text \<open>A state in which \<open>k\<close> blocks of \<open>m\<close> have been compressed, whatever the buffer holds.\<close>

definition compressed :: "u32 list \<Rightarrow> u8 list \<Rightarrow> nat \<Rightarrow> blake_state \<Rightarrow> bool" where
  "compressed IV m k S \<longleftrightarrow> b_h S = chain IV m k \<and> b_s S = [0, 0, 0, 0] \<and> b_t0 S = of_nat (512 * k) \<and>
     b_t1 S = of_nat (k div 2 ^ 23) \<and> b_nullt S = 0 \<and> length (b_buf S) = 64"

lemma compressed_counter:
  assumes "b_t0 S = of_nat (512 * k + j)" "b_t1 S = of_nat (k div 2 ^ 23)" "b_nullt S = 0" "j < 512" "k < 2 ^ 55"
  shows "counter_of S = of_nat (512 * k + j)"
proof -
  have "(512 * k + j) div 2 ^ 32 = k div 2 ^ 23"
  proof -
    have "(512 * k + j) div 2 ^ 32 = (512 * k + j) div 512 div 2 ^ 23" by (simp add: div_mult2_eq [symmetric])
    then show ?thesis using assms(4) by simp
  qed
  moreover have "512 * k + j < 2 ^ 64" using assms(4,5) by simp
  ultimately show ?thesis using counter_of_nat [of "512 * k + j"] assms(1-3) by (simp add: counter_of_def)
qed

lemma blake_count_value:
  assumes "compressed IV m k S"
  shows "blake_count S = S\<lparr>b_t0 := of_nat (512 * Suc k), b_t1 := of_nat (Suc k div 2 ^ 23)\<rparr>"
proof -
  have t: "b_t0 S = of_nat (512 * k)" "b_t1 S = of_nat (k div 2 ^ 23)" using assms by (simp_all add: compressed_def)
  show ?thesis
  proof (cases "2 ^ 23 dvd Suc k")
    case True
    then show ?thesis using count_words [of k] by (simp add: blake_count_def Let_def t del: of_nat_mult of_nat_Suc mult_Suc_right)
  next
    case False
    then have "b_t1 S = of_nat (Suc k div 2 ^ 23)" using count_words(3) [of k] t(2) by simp
    moreover have "S\<lparr>b_t0 := x, b_t1 := b_t1 S\<rparr> = S\<lparr>b_t0 := x\<rparr>" for x by (cases S) simp
    ultimately show ?thesis using False count_words [of k] t(1)
      by (simp add: blake_count_def Let_def del: of_nat_mult of_nat_Suc mult_Suc_right)
  qed
qed

lemma compressed_step:
  assumes "compressed IV m k S" "length IV = 8" "k < 2 ^ 54" "64 \<le> length b" "take 64 b = block_at m k"
  shows "compressed IV m (Suc k) (blake256_compress (blake_count S) b) \<and>
    b_buf (blake256_compress (blake_count S) b) = b_buf S \<and> b_buflen (blake256_compress (blake_count S) b) = b_buflen S"
proof -
  let ?S = "blake_count S"
  have c: "?S = S\<lparr>b_t0 := of_nat (512 * Suc k), b_t1 := of_nat (Suc k div 2 ^ 23)\<rparr>" by (rule blake_count_value [OF assms(1)])
  have t: "counter_of ?S = of_nat (512 * Suc k)"
    using compressed_counter [of ?S "Suc k" 0] assms(1,3) unfolding c by (simp add: compressed_def)
  have w: "block_words b = block_words (block_at m k)"
  proof -
    have "take 4 (drop (4 * i) (take 64 b)) = take 4 (drop (4 * i) b)" if "i < 16" for i using that by (simp add: drop_take min_def)
    then show ?thesis unfolding assms(5) [symmetric] by (simp add: block_words_def)
  qed
  have "blake256_compress ?S b = ?S\<lparr>b_h := spec_compress (b_s ?S) (b_h ?S) (counter_of ?S) (block_words b)\<rparr>"
    using assms(1,2,4) by (intro compress_value) (simp_all add: c compressed_def)
  then show ?thesis using assms(1) unfolding t w by (simp add: c compressed_def chain_Suc)
qed

lemma at_least_block: "N < 2 ^ 64 \<Longrightarrow> (512 :: u64) \<le> of_nat N \<longleftrightarrow> 512 \<le> N"
  by (simp add: word_le_nat_alt unat_of_nat)

lemma blocks_value:
  assumes "compressed IV m k S" "length IV = 8" "64 * k \<le> length m" "length m < 2 ^ 60"
  shows "\<exists>S'. blake_blocks S (drop (64 * k) m) (of_nat (8 * (length m - 64 * k))) =
      Some (S', drop (64 * (length m div 64)) m, of_nat (8 * (length m mod 64))) \<and>
    compressed IV m (length m div 64) S' \<and> b_buf S' = b_buf S \<and> b_buflen S' = b_buflen S"
  using assms(1,3)
proof (induction "length m div 64 - k" arbitrary: k S)
  case 0
  then have k: "k = length m div 64" by simp
  have "length m - 64 * k = length m mod 64" unfolding k by (simp add: minus_mult_div_eq_mod)
  moreover have "\<not> (512 :: u64) \<le> of_nat (8 * (length m mod 64))"
  proof -
    have a: "8 * (length m mod 64) < 512" by simp
    then have "8 * (length m mod 64) < 2 ^ 64" by (rule order_less_trans) simp
    from at_least_block [OF this] a show ?thesis by (simp only: not_le)
  qed
  ultimately show ?case using 0 k by (subst blake_blocks.simps) simp
next
  case (Suc n)
  have k: "64 * Suc k \<le> length m" using Suc.hyps(2) by simp
  let ?b = "take 64 (drop (64 * k) m)" and ?l = "8 * (length m - 64 * k)"
  have l: "?l < 2 ^ 64" "512 \<le> ?l" using assms(4) k by simp_all
  then have ge: "(512 :: u64) \<le> of_nat ?l" using at_least_block [OF l(1)] by simp
  have sub: "(of_nat ?l - 512 :: u64) = of_nat (8 * (length m - 64 * Suc k))"
  proof -
    have "?l = 8 * (length m - 64 * Suc k) + 512" using k by simp
    then show ?thesis by simp
  qed
  have "k < 2 ^ 54" using k assms(4) by simp
  from compressed_step [OF Suc.prems(1) assms(2) this, of ?b] k
  have S: "compressed IV m (Suc k) (blake256_compress (blake_count S) ?b)" "b_buf (blake256_compress (blake_count S) ?b) = b_buf S"
    "b_buflen (blake256_compress (blake_count S) ?b) = b_buflen S" by (simp_all add: block_at_def)
  have "n = length m div 64 - Suc k" using Suc.hyps(2) by simp
  note IH = Suc.hyps(1) [OF this S(1) k, unfolded S(2,3)]
  have "\<not> length (drop (64 * k) m) < 64" "drop 64 (drop (64 * k) m) = drop (64 * Suc k) m" using k by simp_all
  then have "blake_blocks S (drop (64 * k) m) (of_nat ?l) =
      blake_blocks (blake256_compress (blake_count S) ?b) (drop (64 * Suc k) m) (of_nat (8 * (length m - 64 * Suc k)))"
    by (subst blake_blocks.simps) (simp only: ge sub if_True if_False)
  with IH show ?case by simp
qed


section \<open>Update\<close>

text \<open>The message \<open>m\<close> has been absorbed: its whole blocks are compressed and the rest is in the buffer.\<close>

definition blake_absorbed :: "u32 list \<Rightarrow> u8 list \<Rightarrow> blake_state \<Rightarrow> bool" where
  "blake_absorbed IV m S \<longleftrightarrow> compressed IV m (length m div 64) S \<and> b_buflen S = 8 * (length m mod 64) \<and>
     take (length m mod 64) (b_buf S) = drop (64 * (length m div 64)) m"

lemma compressed_cong:
  assumes "\<And>i. i < k \<Longrightarrow> block_at m i = block_at m' i"
  shows "compressed IV m k S \<longleftrightarrow> compressed IV m' k S"
  using chain_cong [OF assms] by (simp add: compressed_def)

lemma compressed_append: "64 * k \<le> length m \<Longrightarrow> compressed IV (m @ d) k S \<longleftrightarrow> compressed IV m k S"
  by (rule compressed_cong) (simp add: block_at_def)

lemma compressed_buffer [simp]: "compressed IV m k (S\<lparr>b_buflen := n\<rparr>) = compressed IV m k S"
  "length b = 64 \<Longrightarrow> length (b_buf S) = 64 \<Longrightarrow> compressed IV m k (S\<lparr>b_buf := b\<rparr>) = compressed IV m k S"
  by (simp_all add: compressed_def)

lemma bits_value: "n < 2 ^ 60 \<Longrightarrow> unat (of_nat (8 * n) :: u64) = 8 * n"
  by (simp add: unat_of_nat del: of_nat_mult)

lemma bytes_of_bits: "n < 2 ^ 60 \<Longrightarrow> unat (drop_bit 3 (of_nat (8 * n) :: u64)) = n"
  by (simp only: unat_drop_bit_eq bits_value) (simp add: drop_bit_eq_div)

lemma bytes_mod_64: "n < 2 ^ 60 \<Longrightarrow> unat (drop_bit 3 (of_nat (8 * n) :: u64) AND 0x3F) = n mod 64"
proof -
  assume n: "n < 2 ^ 60"
  have "(0x3F :: u64) = mask 6" by (simp add: mask_eq_exp_minus_1)
  then have "drop_bit 3 (of_nat (8 * n) :: u64) AND 0x3F = take_bit 6 (drop_bit 3 (of_nat (8 * n)))"
    by (simp only: take_bit_eq_mask)
  then have "unat (drop_bit 3 (of_nat (8 * n) :: u64) AND 0x3F) = take_bit 6 (unat (drop_bit 3 (of_nat (8 * n) :: u64)))"
    by (simp only: unsigned_take_bit_eq)
  then show ?thesis by (simp only: bytes_of_bits [OF n] take_bit_eq_mod) simp
qed

lemma positive_bits: "n < 2 ^ 60 \<Longrightarrow> (0 < (of_nat (8 * n) :: u64)) = (0 < n)"
  using bits_value [of n] by (simp add: word_less_nat_alt del: of_nat_mult)

lemma store_value: "n \<le> length d \<Longrightarrow> left + n \<le> 64 \<Longrightarrow>
  blake_store S left d n = Some (S\<lparr>b_buf := take left (b_buf S) @ take n d @ drop (left + n) (b_buf S)\<rparr>)"
  by (simp add: blake_store_def)

text \<open>Into the buffer.\<close>

lemma update_small:
  assumes "b_buflen S = 8 * l" "0 < n" "l + n < 64" "n \<le> length d"
  shows "blake256_update S d (of_nat (8 * n)) =
    Some (S\<lparr>b_buf := take l (b_buf S) @ take n d @ drop (l + n) (b_buf S), b_buflen := 8 * (l + n)\<rparr>)"
proof -
  have N: "n < 2 ^ 60" using assms(3) by (rule_tac order_less_trans [of _ 64]) simp_all
  have f: "n mod 64 = n" "\<not> 64 - l \<le> n" using assms(3) by simp_all
  have bl: "blake_blocks S d (of_nat (8 * n)) = Some (S, d, of_nat (8 * n))"
    using at_least_block [of "8 * n"] N assms(3) by (subst blake_blocks.simps) (simp del: of_nat_mult)
  show ?thesis
    unfolding blake256_update_def Let_def
    using assms by (simp add: f bytes_mod_64 [OF N] bl positive_bits [OF N] bits_value [OF N] bytes_of_bits [OF N] store_value
      del: of_nat_mult)
qed

text \<open>To the end of the buffer.\<close>

lemma update_fill:
  assumes "b_buflen S = 8 * l" "0 < l" "l < 64" "64 - l \<le> length d"
    and buf: "b = take l (b_buf S) @ take (64 - l) d" and "length (b_buf S) = 64"
  shows "blake256_update S d (of_nat (8 * (64 - l))) =
    Some (blake256_compress (blake_count (S\<lparr>b_buf := b\<rparr>)) b\<lparr>b_buflen := 0\<rparr>)"
proof -
  let ?n = "64 - l"
  have N: "?n < 2 ^ 60" by (rule order_less_trans [of _ 65]) simp_all
  have m: "?n mod 64 = ?n" using assms(2,3) by simp
  have cb: "b_buf (blake_count T) = b_buf T" for T by (simp add: blake_count_def Let_def)
  have bl: "blake_blocks T e 0 = Some (T, e, 0)" for T e by (subst blake_blocks.simps) simp
  show ?thesis
    unfolding blake256_update_def Let_def
    using assms(1-4,6) by (simp add: m bytes_mod_64 [OF N] store_value cb bl buf del: of_nat_mult)
qed

section \<open>What an update absorbs\<close>

lemma finish_value:
  assumes c: "compressed IV b j S" and b: "length b = 64 * j" and e: "l + length e < 64"
  shows "\<exists>S'. (if 0 < (of_nat (8 * length e) :: u64)
      then map_option (\<lambda>S. S\<lparr>b_buflen := 8 * l + unat (of_nat (8 * length e) :: u64)\<rparr>)
        (blake_store S l e (unat (drop_bit 3 (of_nat (8 * length e) :: u64))))
      else Some (S\<lparr>b_buflen := 0\<rparr>)) = Some S' \<and> blake_absorbed IV (b @ (if e = [] then [] else take l (b_buf S) @ e)) S'"
proof -
  have E: "length e < 2 ^ 60" by (rule order_less_trans [of _ 64]) (use e in simp_all)
  have buf: "length (b_buf S) = 64" using c by (simp add: compressed_def)
  show ?thesis
  proof (cases "e = []")
    case True
    then show ?thesis using c b by (simp add: blake_absorbed_def)
  next
    case False
    let ?w = "b @ take l (b_buf S) @ e"
    have n: "length ?w div 64 = j" "length ?w mod 64 = l + length e" "drop (64 * j) ?w = take l (b_buf S) @ e"
      using e buf b by simp_all
    have "compressed IV ?w j S" using c b by (simp add: compressed_append)
    moreover have "length (take l (b_buf S) @ e @ drop (l + length e) (b_buf S)) = 64" using e buf by simp
    ultimately show ?thesis
      using False e buf n compressed_buffer(2) [of "take l (b_buf S) @ e @ drop (l + length e) (b_buf S)" S IV ?w j] unfolding positive_bits [OF E] bits_value [OF E] bytes_of_bits [OF E]
      by (simp add: store_value blake_absorbed_def del: length_append drop_append)
  qed
qed

definition absorb :: "u8 list \<Rightarrow> u8 list \<Rightarrow> u8 list" where
  "absorb m d =
     (let l = length m mod 64; k = 64 * (length m div 64); n = 64 * (length d div 64)
      in if l \<noteq> 0 \<and> 64 - l \<le> length d mod 64 then m @ d
         else take k m @ take n d @ (if length d mod 64 = 0 then [] else drop k m @ drop n d))"

lemma absorb_append:
  assumes "length m mod 64 = 0 \<or> 64 - length m mod 64 \<le> length d mod 64 \<or> 0 < length d \<and> length d < 64 - length m mod 64"
  shows "absorb m d = m @ d"
proof (cases "length m mod 64 = 0")
  case True
  then have "64 * (length m div 64) = length m" by (metis add.right_neutral mult_div_mod_eq)
  moreover have "64 * (length d div 64) = length d" if "length d mod 64 = 0" using that by (metis add.right_neutral mult_div_mod_eq)
  ultimately show ?thesis using True by (simp add: absorb_def Let_def)
next
  case False
  then have "64 - length m mod 64 \<le> length d mod 64 \<or> length d mod 64 = length d \<and> length d div 64 = 0 \<and> 0 < length d" using assms by auto
  then show ?thesis using False by (elim disjE) (simp_all add: absorb_def Let_def del: mod_0_imp_dvd)
qed

lemma update_blocks:
  assumes a: "blake_absorbed IV m S" and "length IV = 8" "length m + length d < 2 ^ 60"
    and c: "\<not> (length m mod 64 \<noteq> 0 \<and> 64 - length m mod 64 \<le> length d mod 64)"
  shows "\<exists>S'. blake256_update S d (of_nat (8 * length d)) = Some S' \<and> blake_absorbed IV (absorb m d) S'"
proof -
  define k l where kl: "k = length m div 64" "l = length m mod 64"
  define q where "q = length d div 64"
  define w where "w = take (64 * k) m @ d"
  have m: "length (take (64 * k) m) = 64 * k" by (simp add: kl)
  have w: "length w = 64 * k + length d" "drop (64 * k) w = d" "length w - 64 * k = length d" using m by (simp_all add: w_def)
  have n: "length w div 64 = k + q" "length w mod 64 = length d mod 64" by (simp_all add: w q_def)
  have S: "compressed IV w k S" "b_buflen S = 8 * l" "take l (b_buf S) = drop (64 * k) m"
    using a m compressed_append [of k "take (64 * k) m" IV "drop (64 * k) m" S] by (simp_all add: blake_absorbed_def kl w_def compressed_append)
  have N: "length d < 2 ^ 60" "length w < 2 ^ 60" using assms(3) m by (simp_all add: w kl)
  have "64 * k \<le> length w" by (simp add: w)
  from blocks_value [OF S(1) assms(2) this N(2)] obtain S1 where
    S1: "blake_blocks S d (of_nat (8 * length d)) = Some (S1, drop (64 * (k + q)) w, of_nat (8 * (length d mod 64)))"
    "compressed IV w (k + q) S1" "b_buf S1 = b_buf S" unfolding w(2,3) n by blast
  have dr: "drop (64 * (k + q)) w = drop (64 * q) d" "take (64 * (k + q)) w = take (64 * k) m @ take (64 * q) d"
    using m by (simp_all add: w_def algebra_simps)
  let ?b = "take (64 * k) m @ take (64 * q) d" and ?e = "drop (64 * q) d"
  have e: "length ?e = length d mod 64" by (simp add: q_def minus_mult_div_eq_mod)
  have b: "length ?b = 64 * (k + q)" using m by (simp add: q_def)
  have "compressed IV ?b (k + q) S1"
    using S1(2) compressed_append [of "k + q" "take (64 * (k + q)) w" IV "drop (64 * (k + q)) w" S1] b unfolding dr(2) [symmetric] by simp
  moreover have "l + length ?e < 64" using c mod_less_divisor [of 64 "length d"] unfolding e kl by linarith
  ultimately obtain S' where S': "(if 0 < (of_nat (8 * length ?e) :: u64)
      then map_option (\<lambda>S. S\<lparr>b_buflen := 8 * l + unat (of_nat (8 * length ?e) :: u64)\<rparr>)
        (blake_store S1 l ?e (unat (drop_bit 3 (of_nat (8 * length ?e) :: u64))))
      else Some (S1\<lparr>b_buflen := 0\<rparr>)) = Some S'" "blake_absorbed IV (?b @ (if ?e = [] then [] else take l (b_buf S1) @ ?e)) S'"
    using finish_value [OF _ b] by blast
  have f: "(8 * l div 8 \<noteq> 0 \<and> 64 - 8 * l div 8 \<le> length d mod 64) = False" using c by (simp add: kl)
  have "blake256_update S d (of_nat (8 * length d)) = Some S'"
    unfolding blake256_update_def Let_def S(2) bytes_mod_64 [OF N(1)] f if_False bind.bind_lunit prod.case S1(1) dr(1)
    using S'(1) unfolding e by (simp del: of_nat_mult split: if_split_asm)
  moreover have "absorb m d = ?b @ (if ?e = [] then [] else take l (b_buf S1) @ ?e)"
    using c e S(3) S1(3) unfolding absorb_def Let_def kl [symmetric] q_def [symmetric] by (auto simp: kl)
  ultimately show ?thesis using S'(2) by simp
qed

lemma update_over:
  assumes a: "blake_absorbed IV m S" and IV: "length IV = 8" and len: "length m + length d < 2 ^ 60"
    and c: "length m mod 64 \<noteq> 0" "64 - length m mod 64 \<le> length d mod 64"
  shows "\<exists>S'. blake256_update S d (of_nat (8 * length d)) = Some S' \<and> blake_absorbed IV (absorb m d) S'"
proof -
  define k l where kl: "k = length m div 64" "l = length m mod 64"
  define w where "w = m @ d"
  have l: "0 < l" "l < 64" using c(1) by (simp_all add: kl)
  have f: "64 - l \<le> length d" using c(2) mod_less_eq_dividend [of "length d" 64] unfolding kl by linarith
  have m: "length m = 64 * k + l" by (simp add: kl)
  have w: "length w = 64 * k + l + length d" by (simp add: w_def m)
  have S: "compressed IV w k S" "b_buflen S = 8 * l" "take l (b_buf S) = drop (64 * k) m" "length (b_buf S) = 64"
  proof -
    have "64 * k \<le> length m" by (simp add: m)
    then show "compressed IV w k S" using a compressed_append [of k m IV d S] unfolding blake_absorbed_def kl [symmetric] w_def by blast
    then show "length (b_buf S) = 64" by (simp add: compressed_def)
  qed (use a in \<open>simp_all add: blake_absorbed_def kl [symmetric]\<close>)
  have N: "length d < 2 ^ 60" "length w < 2 ^ 60" "k < 2 ^ 54" using len by (simp_all add: w m)
  define B where "B = drop (64 * k) m @ take (64 - l) d"
  define S1 where "S1 = blake256_compress (blake_count (S\<lparr>b_buf := B\<rparr>)) B"
  have B: "length B = 64" "take 64 B = block_at w k" using l f by (simp_all add: B_def m block_at_def w_def)
  have S1: "compressed IV w (Suc k) S1" "b_buf S1 = B"
    using compressed_step [of IV w k "S\<lparr>b_buf := B\<rparr>" B] S IV N(3) B unfolding S1_def by simp_all
  have r: "64 * Suc k \<le> length w" "drop (64 * Suc k) w = drop (64 - l) d" "length w - 64 * Suc k = length d - (64 - l)"
    using f l by (simp_all add: w) (simp add: w_def m)
  let ?j = "length w div 64"
  obtain S2 where S2: "blake_blocks S1 (drop (64 - l) d) (of_nat (8 * (length d - (64 - l)))) = Some (S2, drop (64 * ?j) w, of_nat (8 * (length w mod 64)))"
    "compressed IV w ?j S2" using blocks_value [OF S1(1) IV r(1) N(2)] unfolding r by blast
  let ?b = "take (64 * ?j) w" and ?e = "drop (64 * ?j) w"
  have e: "length ?e = length w mod 64" "length ?e < 64" by (simp_all only: length_drop minus_mult_div_eq_mod)
  have b: "length ?b = 64 * ?j" by simp
  have "compressed IV ?b ?j S2" using S2(2) compressed_append [of ?j ?b IV ?e S2] by simp
  from finish_value [OF this b, of 0 ?e] e obtain S' where S': "(if 0 < (of_nat (8 * length ?e) :: u64)
      then map_option (\<lambda>S. S\<lparr>b_buflen := 8 * 0 + unat (of_nat (8 * length ?e) :: u64)\<rparr>)
        (blake_store S2 0 ?e (unat (drop_bit 3 (of_nat (8 * length ?e) :: u64))))
      else Some (S2\<lparr>b_buflen := 0\<rparr>)) = Some S'" "blake_absorbed IV (?b @ (if ?e = [] then [] else take 0 (b_buf S2) @ ?e)) S'" by auto
  have "blake256_update S d (of_nat (8 * length d)) = Some S'"
  proof -
    have t: "(8 * l div 8 \<noteq> 0 \<and> 64 - 8 * l div 8 \<le> length d mod 64) = True" using c l by (simp add: kl)
    have st: "blake_store S (8 * l div 8) d (64 - 8 * l div 8) = Some (S\<lparr>b_buf := B\<rparr>)"
      using f l S(3,4) store_value [of "64 - l" d l S] by (simp add: B_def)
    have sub: "(of_nat (8 * length d) - of_nat (8 * (64 - 8 * l div 8)) :: u64) = of_nat (8 * (length d - (64 - l)))"
      using f l by (simp add: of_nat_diff algebra_simps)
    have bf: "b_buf (S\<lparr>b_buf := B\<rparr>) = B" by simp
    show ?thesis
      unfolding blake256_update_def Let_def S(2) bytes_mod_64 [OF N(1)] t if_True st option.map bf sub S1_def [symmetric] bind.bind_lunit prod.case
      using S'(1) S2(1) unfolding e by (simp del: of_nat_mult split: if_split_asm)
  qed
  moreover have "absorb m d = ?b @ (if ?e = [] then [] else take 0 (b_buf S2) @ ?e)"
    using c by (auto simp: absorb_def Let_def w_def [symmetric])
  ultimately show ?thesis using S'(2) by simp
qed

text \<open>An update, on every path: what it leaves is the state after absorbing \<open>absorb m d\<close>.\<close>

lemma update_value:
  assumes "blake_absorbed IV m S" "length IV = 8" "length m + length d < 2 ^ 60"
  shows "\<exists>S'. blake256_update S d (of_nat (8 * length d)) = Some S' \<and> blake_absorbed IV (absorb m d) S'"
  using update_blocks [OF assms] update_over [OF assms] by blast

end
