(* ===== verification/Blake256_Proofs.thy ===== *)
theory Blake256_Proofs
  imports Blake256_Update
begin

text \<open>
  The padding and the digest: \<open>blake256_final_h\<close> pads in the buffer, correcting the counter in advance for the updates it makes, in
  one or two blocks; the result is \<open>spec_hash\<close>, the hash of the submission. From it follow the functions that hash in one call,
  messages in pieces, and HMAC, whose argument is made once in the locale \<open>hash_engine\<close> and interpreted for both digests.
\<close>

section \<open>The hash of the specification\<close>

text \<open>A one bit, zeros, a last byte \<open>e\<close> that ends in the one bit of BLAKE-256 or the zero bit of BLAKE-224, and the number of bits.\<close>

definition spec_pad :: "u8 \<Rightarrow> u8 list \<Rightarrow> u8 list" where
  "spec_pad e m =
     (let z = (119 - length m mod 64) mod 64
      in m @ (if z = 0 then [0x80 OR e] else 0x80 # replicate (z - 1) 0 @ [e]) @ rev (le_bytes 8 (8 * int (length m))))"

text \<open>The number of message bits up to the end of block \<open>i\<close>, and 0 for a block without message bits.\<close>

definition spec_counter :: "nat \<Rightarrow> nat \<Rightarrow> u64" where
  "spec_counter n i = (if n \<le> 64 * i then 0 else of_nat (min (8 * n) (512 * (i + 1))))"

definition spec_hash :: "u32 list \<Rightarrow> u8 \<Rightarrow> u8 list \<Rightarrow> u8 list" where
  "spec_hash IV e m =
     (let p = spec_pad e m;
          h = foldl (\<lambda>h i. spec_compress [0, 0, 0, 0] h (spec_counter (length m) i) (block_words (block_at p i))) IV [0..<length p div 64]
      in concat (map (\<lambda>w. rev (le_bytes 4 (uint w))) h))"

section \<open>The last blocks\<close>

lemma partial_not_zero: "0 < r \<Longrightarrow> r < 64 \<Longrightarrow> (of_nat (512 * k + 8 * r) :: u32) \<noteq> 0"
proof
  assume r: "0 < r" "r < 64" and "(of_nat (512 * k + 8 * r) :: u32) = 0"
  then have d: "2 ^ 32 dvd 512 * k + 8 * r" by (simp only: word_of_nat_eq_0_iff) simp
  have "(512 :: nat) dvd 2 ^ 32" by simp
  then have "512 dvd 512 * k + 8 * r" using d by (rule dvd_trans)
  then have "512 dvd 8 * r" by (simp add: dvd_add_right_iff)
  then show False using r by (auto dest: dvd_imp_le)
qed

lemma compress_partial:
  assumes "b_t0 S + 512 = of_nat (512 * k + 8 * r)" "0 < r" "r < 64" "b_t1 S = of_nat (k div 2 ^ 23)" "b_nullt S = 0" "k < 2 ^ 54"
    "length (b_h S) = 8" "b_s S = [0, 0, 0, 0]" "length b = 64"
  shows "blake256_compress (blake_count S) b =
    S\<lparr>b_t0 := of_nat (512 * k + 8 * r), b_h := spec_compress [0, 0, 0, 0] (b_h S) (of_nat (512 * k + 8 * r)) (block_words b)\<rparr>"
proof -
  let ?S = "S\<lparr>b_t0 := of_nat (512 * k + 8 * r)\<rparr>"
  have c: "blake_count S = ?S"
    using partial_not_zero [OF assms(2,3), of k] by (simp add: blake_count_def assms(1) del: of_nat_add of_nat_mult)
  have "counter_of ?S = of_nat (512 * k + 8 * r)"
    by (rule compressed_counter) (use assms in simp_all)
  then show ?thesis unfolding c using assms by (subst compress_value) (simp_all del: of_nat_add of_nat_mult)
qed

lemma compress_null:
  assumes "b_nullt S \<noteq> 0" "length (b_h S) = 8" "b_s S = [0, 0, 0, 0]" "length b = 64"
  shows "b_h (blake256_compress (blake_count S) b) = spec_compress [0, 0, 0, 0] (b_h S) 0 (block_words b)"
proof -
  have c: "counter_of (blake_count S) = 0" "b_h (blake_count S) = b_h S" "b_s (blake_count S) = b_s S"
    using assms(1) by (simp_all add: counter_of_def blake_count_def Let_def)
  then show ?thesis using assms by (subst compress_value) simp_all
qed

lemma last_block:
  assumes "b_buflen S = 448" "length (b_buf S) = 64" "length d = 8"
  shows "blake256_update S d 64 =
    (let b = take 56 (b_buf S) @ d in Some (blake256_compress (blake_count (S\<lparr>b_buf := b\<rparr>)) b\<lparr>b_buflen := 0\<rparr>))"
  using update_fill [of S 56 d "take 56 (b_buf S) @ d"] assms by (simp add: Let_def)


definition digest :: "u32 list \<Rightarrow> u8 list" where
  "digest h = concat (map (\<lambda>w. rev (le_bytes 4 (uint w))) h)"

lemma digest_value: "length h = 8 \<Longrightarrow> concat (map (\<lambda>i. U32TO8 (h ! i)) [0..<8]) = digest h"
proof -
  assume l: "length h = 8"
  have "map (\<lambda>i. U32TO8 (h ! i)) [0..<8] = map U32TO8 (map ((!) h) [0..<8])" by simp
  also have "map ((!) h) [0..<8] = h" using l by (metis map_nth)
  finally show ?thesis by (simp add: digest_def U32TO8_value)
qed

lemma block_at_append: "length a = 64 * k \<Longrightarrow> block_at (a @ b) k = take 64 b"
  by (simp add: block_at_def)

text \<open>The blocks that hold only message.\<close>

lemma spec_prefix:
  assumes "64 * k \<le> length m"
  shows "foldl (\<lambda>h i. spec_compress [0, 0, 0, 0] h (spec_counter (length m) i) (block_words (block_at (m @ q) i))) IV [0..<k] = chain IV m k"
  using assms
proof (induction k)
  case (Suc k)
  have "spec_counter (length m) k = of_nat (512 * (k + 1))" using Suc.prems by (simp add: spec_counter_def min_absorb2 del: of_nat_mult)
  moreover have "block_at (m @ q) k = block_at m k" using Suc.prems by (simp add: block_at_def)
  ultimately show ?case using Suc by (simp add: chain_Suc)
qed (simp add: chain_def)

lemma spec_hash_one:
  assumes k: "k = length m div 64" "r = length m mod 64" and "r \<le> 55"
  shows "spec_hash IV e m = digest (spec_compress [0, 0, 0, 0] (chain IV m k) (if r = 0 then 0 else of_nat (512 * k + 8 * r))
    (block_words (drop (64 * k) m @ (if r = 55 then [0x80 OR e] else 0x80 # replicate (54 - r) 0 @ [e]) @ rev (le_bytes 8 (8 * int (length m))))))"
proof -
  let ?q = "(if r = 55 then [0x80 OR e] else 0x80 # replicate (54 - r) 0 @ [e]) @ rev (le_bytes 8 (8 * int (length m)))"
  define q where "q = ?q"
  have m: "length m = 64 * k + r" unfolding k by simp
  then have kk: "64 * k \<le> length m" by simp
  have z: "(119 - r) mod 64 = 55 - r" using assms(3) by (simp add: mod_nat_eqI)
  have p: "spec_pad e m = m @ q" using assms(3) unfolding q_def spec_pad_def k(2) [symmetric] Let_def z by auto
  have l: "length (spec_pad e m) = 64 * Suc k" using assms(3) unfolding p q_def by (simp add: m)
  then have n: "length (spec_pad e m) div 64 = Suc k" by simp
  have "block_at (m @ q) k = drop (64 * k) m @ q"
    using l unfolding p by (simp add: block_at_def m)
  moreover have "spec_counter (length m) k = (if r = 0 then 0 else of_nat (512 * k + 8 * r))"
    using assms(3) by (simp add: spec_counter_def m min_def)
  ultimately show ?thesis
    unfolding spec_hash_def Let_def n unfolding p digest_def q_def [symmetric] by (simp add: spec_prefix [OF kk])
qed

lemma spec_hash_two:
  assumes k: "k = length m div 64" "r = length m mod 64" and "55 < r"
  shows "spec_hash IV e m = digest (spec_compress [0, 0, 0, 0]
     (spec_compress [0, 0, 0, 0] (chain IV m k) (of_nat (512 * k + 8 * r)) (block_words (drop (64 * k) m @ 0x80 # replicate (63 - r) 0))) 0
     (block_words (replicate 55 0 @ e # rev (le_bytes 8 (8 * int (length m))))))"
proof -
  let ?f = "0x80 # replicate (63 - r) 0" and ?q = "replicate 55 0 @ e # rev (le_bytes 8 (8 * int (length m)))"
  define f :: "u8 list" where "f = ?f"
  define q where "q = ?q"
  have m: "length m = 64 * k + r" unfolding k by simp
  then have kk: "64 * k \<le> length m" by simp
  have r: "r < 64" unfolding k by simp
  have z: "(119 - r) mod 64 = 119 - r" using assms(3) by simp
  have "replicate (118 - r) 0 = replicate (63 - r) 0 @ replicate 55 (0 :: u8)" using r by (simp add: replicate_add [symmetric])
  then have p: "spec_pad e m = m @ f @ q" using r unfolding f_def q_def spec_pad_def k(2) [symmetric] Let_def z by auto
  have l: "length (spec_pad e m) = 64 * Suc (Suc k)" using r unfolding p f_def q_def by (simp add: m)
  then have n: "length (spec_pad e m) div 64 = Suc (Suc k)" by simp
  have "length f = 64 - r" "length q = 64" using r by (simp_all add: f_def q_def)
  then have "block_at (m @ f @ q) k = drop (64 * k) m @ f" "block_at (m @ f @ q) (Suc k) = q"
    using r block_at_append [of "m @ f" "Suc k" q] by (simp_all add: block_at_def m)
  moreover have "spec_counter (length m) k = of_nat (512 * k + 8 * r)" "spec_counter (length m) (Suc k) = 0"
    using assms(3) r by (simp_all add: spec_counter_def m min_def)
  ultimately show ?thesis
    unfolding spec_hash_def Let_def n unfolding p digest_def f_def [symmetric] q_def [symmetric] by (simp add: spec_prefix [OF kk])
qed


section \<open>The end\<close>

lemma length_spec_compress [simp]: "length (spec_compress s h t m) = 8"
  by (simp add: spec_compress_def Let_def)

lemma end_partial:
  assumes "b_buflen T = 448" "length (b_buf T) = 64" "length d = 8" "b_t0 T + 512 = of_nat (512 * k + 8 * r)" "0 < r" "r < 64"
    "b_t1 T = of_nat (k div 2 ^ 23)" "b_nullt T = 0" "k < 2 ^ 54" "length (b_h T) = 8" "b_s T = [0, 0, 0, 0]"
  shows "map_option (\<lambda>S. concat (map (\<lambda>i. U32TO8 (b_h S ! i)) [0..<8])) (blake256_update T d 64) =
    Some (digest (spec_compress [0, 0, 0, 0] (b_h T) (of_nat (512 * k + 8 * r)) (block_words (take 56 (b_buf T) @ d))))"
proof -
  let ?b = "take 56 (b_buf T) @ d"
  have "blake256_compress (blake_count (T\<lparr>b_buf := ?b\<rparr>)) ?b = T\<lparr>b_buf := ?b, b_t0 := of_nat (512 * k + 8 * r),
      b_h := spec_compress [0, 0, 0, 0] (b_h T) (of_nat (512 * k + 8 * r)) (block_words ?b)\<rparr>"
    by (subst compress_partial [of _ k r]) (use assms in \<open>simp_all del: of_nat_add of_nat_mult\<close>)
  then show ?thesis using last_block [OF assms(1-3)] by (simp add: Let_def digest_value del: of_nat_add of_nat_mult)
qed

lemma end_null:
  assumes "b_buflen T = 448" "length (b_buf T) = 64" "length d = 8" "b_nullt T \<noteq> 0" "length (b_h T) = 8" "b_s T = [0, 0, 0, 0]"
  shows "map_option (\<lambda>S. concat (map (\<lambda>i. U32TO8 (b_h S ! i)) [0..<8])) (blake256_update T d 64) =
    Some (digest (spec_compress [0, 0, 0, 0] (b_h T) 0 (block_words (take 56 (b_buf T) @ d))))"
proof -
  let ?b = "take 56 (b_buf T) @ d"
  have h: "b_h (blake256_compress (blake_count (T\<lparr>b_buf := ?b\<rparr>)) ?b) = spec_compress [0, 0, 0, 0] (b_h T) 0 (block_words ?b)"
    by (subst compress_null) (use assms in simp_all)
  show ?thesis using last_block [OF assms(1-3)] by (simp add: Let_def h digest_value)
qed

text \<open>A state with \<open>k\<close> blocks compressed into \<open>H\<close> and the \<open>r\<close> bytes \<open>D\<close> in the buffer.\<close>

definition pending :: "u32 list \<Rightarrow> nat \<Rightarrow> nat \<Rightarrow> u8 list \<Rightarrow> u8 list \<Rightarrow> blake_state \<Rightarrow> bool" where
  "pending H k r D R S \<longleftrightarrow> b_h S = H \<and> length H = 8 \<and> b_s S = [0, 0, 0, 0] \<and> b_t0 S = of_nat (512 * k) \<and>
     b_t1 S = of_nat (k div 2 ^ 23) \<and> b_nullt S = 0 \<and> b_buflen S = 8 * r \<and> b_buf S = D @ R \<and> length D = r \<and> length R = 64 - r \<and>
     k < 2 ^ 54 \<and> r < 64"

lemma pendingD:
  assumes "pending H k r D R S"
  shows "b_h S = H" "length H = 8" "b_s S = [0, 0, 0, 0]" "b_t0 S = of_nat (512 * k)" "b_t1 S = of_nat (k div 2 ^ 23)" "b_nullt S = 0"
    "b_buflen S = 8 * r" "b_buf S = D @ R" "length D = r" "length R = 64 - r" "k < 2 ^ 54" "r < 64"
  using assms by (simp_all add: pending_def)

lemma message_length:
  assumes "pending H k r D R S"
  shows "(let lo = b_t0 S + of_nat (b_buflen S); hi = b_t1 S; hi = (if lo < of_nat (b_buflen S) then hi + 1 else hi)
      in U32TO8 hi @ U32TO8 lo) = rev (le_bytes 8 (int (512 * k + 8 * r)))"
proof -
  note S = pendingD [OF assms]
  let ?N = "512 * k + 8 * r"
  have lo: "b_t0 S + of_nat (b_buflen S) = of_nat ?N" using S by simp
  have "?N div 2 ^ 32 = ?N div 512 div 2 ^ 23" by (simp add: div_mult2_eq [symmetric])
  then have hi: "b_t1 S = of_nat (?N div 2 ^ 32)" using S by simp
  have "8 * r = ?N mod 2 ^ 32 mod 512" using S(12) by (simp add: mod_mod_cancel)
  also have "\<dots> \<le> ?N mod 2 ^ 32" by (rule mod_less_eq_dividend)
  also have "\<dots> = unat (of_nat ?N :: u32)" by (simp only: unat_of_nat) simp
  finally have "unat (of_nat (8 * r) :: u32) \<le> unat (of_nat ?N :: u32)"
    using S(12) by (simp only: unat_of_nat) simp
  then have "\<not> (of_nat ?N :: u32) < of_nat (b_buflen S)" by (simp only: S(7) word_less_nat_alt not_less)
  then show ?thesis unfolding Let_def lo by (simp only: if_False hi length_bytes)
qed

lemma final_one_byte:
  assumes p: "pending H k r D R S" and c1: "r = 55"
  defines "L \<equiv> rev (le_bytes 8 (int (512 * k + 8 * r)))"
  shows "blake256_final_h S (0x80 OR e) e = Some (digest (spec_compress [0, 0, 0, 0] H (of_nat (512 * k + 8 * r)) (block_words (D @ [0x80 OR e] @ L))))"
proof -
  note S = pendingD(1,3-6) [OF p] and IV = pendingD(2) [OF p] and bl = pendingD(7) [OF p] and R = pendingD(8,10) [OF p] and D = pendingD(9) [OF p]
    and k = pendingD(11) [OF p] and r = pendingD(12) [OF p] and ml' = message_length [OF p, unfolded Let_def, folded L_def]
  have L: "length L = 8" by (simp add: L_def)
  have "blake256_update (S\<lparr>b_t0 := b_t0 S - 8\<rparr>) [0x80 OR e] 8 =
      Some (S\<lparr>b_t0 := b_t0 S - 8, b_buf := D @ [0x80 OR e] @ drop 1 R, b_buflen := 448\<rparr>)"
    using update_small [of "S\<lparr>b_t0 := b_t0 S - 8\<rparr>" 55 1 "[0x80 OR e]"] c1 D by (simp add: bl R)
  then show ?thesis
    unfolding blake256_final_h_def Let_def ml'
    using c1 D R L IV k by (simp add: bl end_partial [of _ _ k r] S)
qed

lemma final_one_block:
  assumes p: "pending H k r D R S" and c2: "r < 55"
  defines "L \<equiv> rev (le_bytes 8 (int (512 * k + 8 * r)))"
  shows "blake256_final_h S (0x80 OR e) e = Some (digest (spec_compress [0, 0, 0, 0] H (if r = 0 then 0 else of_nat (512 * k + 8 * r)) (block_words ((D @ (0x80 # replicate (54 - r) 0) @ [e]) @ L))))"
proof -
  note S = pendingD(1,3-6) [OF p] and IV = pendingD(2) [OF p] and bl = pendingD(7) [OF p] and R = pendingD(8,10) [OF p] and D = pendingD(9) [OF p]
    and k = pendingD(11) [OF p] and r = pendingD(12) [OF p] and ml' = message_length [OF p, unfolded Let_def, folded L_def]
  have L: "length L = 8" by (simp add: L_def)
  define S0 where "S0 = (if b_buflen S = 0 then S\<lparr>b_nullt := 1\<rparr> else S)"
  define S1 where "S1 = S0\<lparr>b_t0 := b_t0 S0 - of_nat (440 - b_buflen S)\<rparr>"
  have S0: "b_buflen S0 = b_buflen S" "b_t0 S0 = b_t0 S" by (simp_all add: S0_def)
  have cc: "(b_buflen S = 440) = False" "(b_buflen S < 440) = True" using c2 bl by simp_all
  have d: "56 - r = Suc (55 - r)" using c2 by simp
  define P :: "u8 list" where "P = 0x80 # replicate (54 - r) 0"
  define S2 where "S2 = S1\<lparr>b_buf := D @ P @ drop (55 - r) R, b_buflen := 440\<rparr>"
  define T where "T = S2\<lparr>b_buf := D @ P @ [e] @ drop (56 - r) R, b_buflen := 448\<rparr>"
  define T2 where "T2 = T\<lparr>b_t0 := b_t0 T - 8 - 64\<rparr>"
  have n: "440 - b_buflen S = 8 * (55 - r)" using bl by simp
  have P: "take (55 - r) blake_padding = P" "length P = 55 - r"
    using c2 by (cases "55 - r"; simp add: blake_padding_def P_def)+
  have S1: "b_buflen S1 = 8 * r" "b_buf S1 = D @ R" using bl R by (simp_all add: S1_def S0_def)
  have u1: "blake256_update S1 blake_padding (of_nat (440 - b_buflen S)) = Some S2"
    using update_small [OF S1(1), of "55 - r" blake_padding] c2 D R unfolding n P S2_def by (simp add: S1 P) (simp add: blake_padding_def)
  have u2: "blake256_update S2 [e] 8 = Some T"
    using update_small [of S2 55 1 "[e]"] c2 D R P(2) by (simp add: S2_def T_def d)
  have t0: "b_t0 T2 + 512 = of_nat (512 * k + 8 * r)"
    using c2 by (simp add: T2_def T_def S2_def S1_def S0_def S bl of_nat_diff algebra_simps)
  have T2: "b_buflen T2 = 448" "length (b_buf T2) = 64" "b_h T2 = H" "b_s T2 = [0, 0, 0, 0]" "take 56 (b_buf T2) = D @ P @ [e]"
      "b_t1 T2 = of_nat (k div 2 ^ 23)" "b_nullt T2 = (if r = 0 then 1 else 0)"
    using c2 D R P(2) by (simp_all add: T2_def T_def S2_def S1_def S0_def S bl)
  have u3: "map_option (\<lambda>S. concat (map (\<lambda>i. U32TO8 (b_h S ! i)) [0..<8])) (blake256_update T2 L 64) =
      Some (digest (spec_compress [0, 0, 0, 0] H (if r = 0 then 0 else of_nat (512 * k + 8 * r)) (block_words ((D @ P @ [e]) @ L))))"
  proof (cases "r = 0")
    case True
    then show ?thesis using end_null [OF T2(1,2) L] IV unfolding T2 by simp
  next
    case False
    then show ?thesis using end_partial [OF T2(1,2) L t0] IV r k unfolding T2 by simp
  qed
  show ?thesis
    unfolding u3 [symmetric, unfolded P_def] blake256_final_h_def Let_def ml'
    by (simp only: cc if_False if_True S0_def [symmetric] S0 S1_def [unfolded S0, symmetric] u1 u2 bind.bind_lunit option.map T2_def) simp
qed

lemma final_two_blocks:
  assumes p: "pending H k r D R S" and c3: "55 < r"
  defines "L \<equiv> rev (le_bytes 8 (int (512 * k + 8 * r)))"
  shows "blake256_final_h S (0x80 OR e) e = Some (digest (spec_compress [0, 0, 0, 0] (spec_compress [0, 0, 0, 0] H (of_nat (512 * k + 8 * r)) (block_words (D @ 0x80 # replicate (63 - r) 0))) 0
    (block_words ((replicate 55 0 @ [e]) @ L))))"
proof -
  note S = pendingD(1,3-6) [OF p] and IV = pendingD(2) [OF p] and bl = pendingD(7) [OF p] and R = pendingD(8,10) [OF p] and D = pendingD(9) [OF p]
    and k = pendingD(11) [OF p] and r = pendingD(12) [OF p] and ml' = message_length [OF p, unfolded Let_def, folded L_def]
  have L: "length L = 8" by (simp add: L_def)
  let ?Z = "replicate 55 0 :: u8 list"
  define S1 where "S1 = S\<lparr>b_t0 := b_t0 S - of_nat (512 - b_buflen S)\<rparr>"
  define P :: "u8 list" where "P = 0x80 # replicate (63 - r) 0"
  define h where "h = spec_compress [0, 0, 0, 0] H (of_nat (512 * k + 8 * r)) (block_words (D @ P))"
  define S2 where "S2 = S1\<lparr>b_buf := D @ P, b_t0 := of_nat (512 * k + 8 * r), b_h := h, b_buflen := 0\<rparr>"
  define S3 where "S3 = S2\<lparr>b_t0 := b_t0 S2 - 440, b_buf := ?Z @ drop 55 (D @ P), b_buflen := 440\<rparr>"
  define T where "T = S3\<lparr>b_nullt := 1, b_buf := ?Z @ [e] @ drop 56 (D @ P), b_buflen := 448\<rparr>"
  define T2 where "T2 = T\<lparr>b_t0 := b_t0 T - 8 - 64\<rparr>"
  have cc: "(b_buflen S = 440) = False" "(b_buflen S < 440) = False" using c3 bl by simp_all
  have n: "512 - b_buflen S = 8 * (64 - r)" using bl by simp
  have P: "take (64 - r) blake_padding = P" "length P = 64 - r"
    using r by (cases "64 - r"; simp add: blake_padding_def P_def)+
  have S1: "b_buflen S1 = 8 * r" "b_buf S1 = D @ R" "b_t0 S1 + 512 = of_nat (512 * k + 8 * r)" using r
    by (simp_all add: S1_def bl R S of_nat_diff algebra_simps)
  have "blake256_compress (blake_count (S1\<lparr>b_buf := D @ P\<rparr>)) (D @ P) =
      S1\<lparr>b_buf := D @ P, b_t0 := of_nat (512 * k + 8 * r), b_h := h\<rparr>"
    using c3 S1(3) r k IV D P(2)
    by (subst compress_partial [of _ k r]) (simp_all add: S1_def S h_def del: of_nat_add of_nat_mult)
  moreover have "blake256_update S1 blake_padding (of_nat (512 - b_buflen S)) =
      Some (blake256_compress (blake_count (S1\<lparr>b_buf := D @ P\<rparr>)) (D @ P)\<lparr>b_buflen := 0\<rparr>)"
    unfolding n using c3 r D R P S1 by (intro update_fill) (simp_all add: blake_padding_def)
  ultimately have u1: "blake256_update S1 blake_padding (of_nat (512 - b_buflen S)) = Some S2"
    by (simp add: S2_def)
  have u2: "blake256_update (S2\<lparr>b_t0 := b_t0 S2 - 440\<rparr>) (drop 1 blake_padding) 440 = Some S3"
    using update_small [of "S2\<lparr>b_t0 := b_t0 S2 - 440\<rparr>" 0 55 "drop 1 blake_padding"]
    by (simp add: S2_def S3_def blake_padding_def)
  have u3: "blake256_update (S3\<lparr>b_nullt := 1\<rparr>) [e] 8 = Some T"
    using update_small [of "S3\<lparr>b_nullt := 1\<rparr>" 55 1 "[e]"] c3 D by (simp add: S3_def T_def)
  have T2: "b_buflen T2 = 448" "length (b_buf T2) = 64" "b_h T2 = h" "b_s T2 = [0, 0, 0, 0]" "take 56 (b_buf T2) = ?Z @ [e]"
      "b_nullt T2 = 1"
    using D P(2) r by (simp_all add: T2_def T_def S3_def S2_def S1_def S)
  have u4: "map_option (\<lambda>S. concat (map (\<lambda>i. U32TO8 (b_h S ! i)) [0..<8])) (blake256_update T2 L 64) =
      Some (digest (spec_compress [0, 0, 0, 0] h 0 (block_words ((?Z @ [e]) @ L))))"
    using end_null [OF T2(1,2) L] unfolding T2 by (simp add: h_def)
  show ?thesis
    unfolding u4 [symmetric, unfolded h_def P_def] blake256_final_h_def Let_def ml'
    by (simp only: cc if_False S1_def [symmetric] u1 u2 u3 bind.bind_lunit option.map T2_def) simp
qed

lemma absorbed_pending:
  assumes "blake_absorbed IV m S" "length IV = 8" "length m < 2 ^ 60"
  obtains R where "pending (chain IV m (length m div 64)) (length m div 64) (length m mod 64) (drop (64 * (length m div 64)) m) R S"
proof
  let ?k = "length m div 64" and ?r = "length m mod 64"
  have "take ?r (b_buf S) = drop (64 * ?k) m" using assms(1) by (simp add: blake_absorbed_def)
  then have "b_buf S = drop (64 * ?k) m @ drop ?r (b_buf S)" by (metis append_take_drop_id)
  then show "pending (chain IV m ?k) ?k ?r (drop (64 * ?k) m) (drop ?r (b_buf S)) S"
    using assms by (simp add: pending_def blake_absorbed_def compressed_def minus_mult_div_eq_mod)
qed

lemma final_value:
  assumes "blake_absorbed IV m S" "length IV = 8" "length m < 2 ^ 60"
  shows "blake256_final_h S (0x80 OR e) e = Some (spec_hash IV e m)"
proof -
  define k r where kr: "k = length m div 64" "r = length m mod 64"
  have "length m = 64 * k + r" unfolding kr by simp
  then have L: "8 * int (length m) = int (512 * k + 8 * r)" by simp
  obtain R where p: "pending (chain IV m k) k r (drop (64 * k) m) R S" using absorbed_pending [OF assms] unfolding kr .
  consider "r = 55" | "r < 55" | "55 < r" by linarith
  then show ?thesis
  proof cases
    case 1
    then show ?thesis using final_one_byte [OF p, of e] spec_hash_one [OF kr, of IV e] unfolding L by simp
  next
    case 2
    then show ?thesis using final_one_block [OF p, of e] spec_hash_one [OF kr, of IV e] unfolding L by simp
  next
    case 3
    then show ?thesis using final_two_blocks [OF p, of e] spec_hash_two [OF kr, of IV e] unfolding L by simp
  qed
qed

definition IV256 :: "u32 list" where
  "IV256 = [0x6A09E667, 0xBB67AE85, 0x3C6EF372, 0xA54FF53A, 0x510E527F, 0x9B05688C, 0x1F83D9AB, 0x5BE0CD19]"

definition IV224 :: "u32 list" where
  "IV224 = [0xC1059ED8, 0x367CD507, 0x3070DD17, 0xF70E5939, 0xFFC00B31, 0x68581511, 0x64F98FA7, 0xBEFA4FA4]"

lemma init_absorbed: "length memory = 64 \<Longrightarrow> blake_absorbed IV256 [] (blake256_init memory)" "length memory = 64 \<Longrightarrow> blake_absorbed IV224 [] (blake224_init memory)"
  by (simp_all add: blake_absorbed_def compressed_def chain_def blake256_init_def blake224_init_def IV256_def IV224_def)

lemma length_IV [simp]: "length IV256 = 8" "length IV224 = 8"
  by (simp_all add: IV256_def IV224_def)

lemma absorb_Nil [simp]: "absorb [] d = d"
  using absorb_append [of "[]" d] by simp

text \<open>The functions that hash in one call.\<close>

lemma blake_hash_value:
  assumes "length memory = 64" "length m < 2 ^ 60"
  shows "blake256_hash memory m = Some (spec_hash IV256 0x01 m)" "blake224_hash memory m = Some (spec_hash IV224 0x00 m)"
proof -
  have l: "(of_nat (length m) * 8 :: u64) = of_nat (8 * length m)" by simp
  obtain S where S: "blake256_update (blake256_init memory) m (of_nat (8 * length m)) = Some S" "blake_absorbed IV256 m S"
    using update_value [OF init_absorbed(1) [OF assms(1)], of m] assms(2) by auto
  show "blake256_hash memory m = Some (spec_hash IV256 0x01 m)"
    using final_value [OF S(2) _ assms(2), of 1] unfolding blake256_hash_def l S(1) by (simp add: blake256_final_def)
  obtain T where T: "blake256_update (blake224_init memory) m (of_nat (8 * length m)) = Some T" "blake_absorbed IV224 m T"
    using update_value [OF init_absorbed(2) [OF assms(1)], of m] assms(2) by auto
  show "blake224_hash memory m = Some (spec_hash IV224 0x00 m)"
    using final_value [OF T(2) _ assms(2), of 0] unfolding blake224_hash_def blake224_update_def l T(1) by (simp add: blake224_final_def)
qed

section \<open>Messages in pieces\<close>

fun feed :: "blake_state \<Rightarrow> u8 list list \<Rightarrow> blake_state option" where
  "feed S [] = Some S"
| "feed S (d # ds) = Option.bind (blake256_update S d (of_nat (8 * length d))) (\<lambda>S. feed S ds)"

lemma length_absorb: "length (absorb m d) \<le> length m + length d"
  by (auto simp: absorb_def Let_def)

lemma feed_value:
  assumes "blake_absorbed IV m S" "length IV = 8" "length m + length (concat ds) < 2 ^ 60"
  shows "\<exists>S'. feed S ds = Some S' \<and> blake_absorbed IV (foldl absorb m ds) S' \<and> length (foldl absorb m ds) < 2 ^ 60"
  using assms(1,3)
proof (induction ds arbitrary: m S)
  case (Cons d ds)
  obtain S1 where S1: "blake256_update S d (of_nat (8 * length d)) = Some S1" "blake_absorbed IV (absorb m d) S1"
    using update_value [OF Cons.prems(1) assms(2), of d] Cons.prems(2) by auto
  have "length (absorb m d) + length (concat ds) < 2 ^ 60" using length_absorb [of m d] Cons.prems(2) by simp
  from Cons.IH [OF S1(2) this] S1(1) show ?case by simp
qed auto

text \<open>Pieces none of which meets the two cases in which an update loses or reorders bytes.\<close>

fun safe_pieces :: "nat \<Rightarrow> u8 list list \<Rightarrow> bool" where
  "safe_pieces l [] = True"
| "safe_pieces l (d # ds) =
     ((l mod 64 = 0 \<or> 64 - l mod 64 \<le> length d mod 64 \<or> 0 < length d \<and> length d < 64 - l mod 64) \<and> safe_pieces (l + length d) ds)"

lemma safe_pieces_concat: "safe_pieces (length m) ds \<Longrightarrow> foldl absorb m ds = m @ concat ds"
proof (induction ds arbitrary: m)
  case (Cons d ds)
  then have "absorb m d = m @ d" by (intro absorb_append) simp
  with Cons show ?case by simp
qed simp

section \<open>HMAC\<close>

definition rfc2104 :: "(u8 list \<Rightarrow> u8 list) \<Rightarrow> (u8 list \<Rightarrow> u8 list) \<Rightarrow> u8 list \<Rightarrow> u8 list \<Rightarrow> u8 list" where
  "rfc2104 HK H key m =
     (let K = (if 64 < length key then HK key else key); K0 = K @ replicate (64 - length K) 0
      in H (map ((XOR) 0x5c) K0 @ H (map ((XOR) 0x36) K0 @ m)))"

lemma hmac_pad_value: "length key \<le> 64 \<Longrightarrow> hmac_pad c key = map ((XOR) c) (key @ replicate (64 - length key) 0)"
  by (rule nth_equalityI) (auto simp: hmac_pad_def nth_append)

lemma length_hmac_pad [simp]: "length (hmac_pad c key) = 64"
  by (simp add: hmac_pad_def)

lemma length_spec_hash [simp]: "length (spec_hash IV e m) = 32" if "length IV = 8"
proof -
  have l: "length (foldl (\<lambda>h i. spec_compress [0, 0, 0, 0] h (f i) (g i)) IV [0..<n]) = 8" for f g n
    using that by (induction n) simp_all
  have "length (concat (map (\<lambda>w. rev (le_bytes 4 (uint w))) h)) = 4 * length h" for h :: "u32 list"
    by (induction h) simp_all
  then show ?thesis by (simp add: spec_hash_def Let_def l)
qed

text \<open>The steps of an HMAC with a key of at most 64 bytes: the two pads, the text, the inner digest, of which the outer hash reads \<open>n\<close> bytes.\<close>

definition hmac_run :: "('s \<Rightarrow> u8 list \<Rightarrow> nat \<Rightarrow> 's option) \<Rightarrow> ('s \<Rightarrow> u8 list option) \<Rightarrow> nat \<Rightarrow> 's \<Rightarrow> u8 list \<Rightarrow> u8 list \<Rightarrow> u8 list option" where
  "hmac_run upd fin n S key m =
     Option.bind (upd S (hmac_pad 0x36 key) 64) (\<lambda>i.
     Option.bind (upd S (hmac_pad 0x5c key) 64) (\<lambda>ou.
     Option.bind (upd i m (length m)) (\<lambda>i.
     Option.bind (fin i) (\<lambda>ihash. Option.bind (upd ou ihash n) fin))))"

text \<open>
  What an HMAC relies on in a hash that is fed in pieces: \<open>absorbs m S\<close> relates a state to the message it has read, an
  update of a state after a multiple of 64 bytes appends, and so does one that reads a part of its data shorter than a block.
\<close>

locale hash_engine =
  fixes absorbs :: "u8 list \<Rightarrow> 's \<Rightarrow> bool" and upd :: "'s \<Rightarrow> u8 list \<Rightarrow> nat \<Rightarrow> 's option" and fin :: "'s \<Rightarrow> u8 list option"
    and H :: "u8 list \<Rightarrow> u8 list" and n :: nat
  assumes append: "absorbs p S \<Longrightarrow> length p mod 64 = 0 \<Longrightarrow> length p + length m < 2 ^ 60 \<Longrightarrow>
      \<exists>S'. upd S m (length m) = Some S' \<and> absorbs (p @ m) S'"
    and part: "absorbs p S \<Longrightarrow> length p mod 64 = 0 \<Longrightarrow> 0 < k \<Longrightarrow> k < 64 \<Longrightarrow> k \<le> length d \<Longrightarrow>
      \<exists>S'. upd S d k = Some S' \<and> absorbs (p @ take k d) S'"
    and final: "absorbs m S \<Longrightarrow> length m < 2 ^ 60 \<Longrightarrow> fin S = Some (H m)"
    and size: "0 < n" "n < 64" "n \<le> length (H m)"
begin

lemma hmac_correct:
  assumes "absorbs [] S" "length key \<le> 64" "length m < 2 ^ 60 - 64"
  shows "\<exists>t. hmac_run upd fin n S key m = Some (H t) \<and> take n (H t) = rfc2104 HK (\<lambda>m. take n (H m)) key m"
proof -
  let ?i = "hmac_pad 0x36 key" and ?o = "hmac_pad 0x5c key"
  obtain I where I: "upd S ?i 64 = Some I" "absorbs ?i I" using append [OF assms(1), of ?i] by auto
  obtain J where J: "upd S ?o 64 = Some J" "absorbs ?o J" using append [OF assms(1), of ?o] by auto
  obtain I2 where I2: "upd I m (length m) = Some I2" "absorbs (?i @ m) I2" using append [OF I(2), of m] assms(3) by auto
  have f: "fin I2 = Some (H (?i @ m))" using final [OF I2(2)] assms(3) by simp
  obtain J2 where J2: "upd J (H (?i @ m)) n = Some J2" "absorbs (?o @ take n (H (?i @ m))) J2"
    using part [OF J(2), of n "H (?i @ m)"] size by auto
  have "fin J2 = Some (H (?o @ take n (H (?i @ m))))" using final [OF J2(2)] size(2) by simp
  then have "hmac_run upd fin n S key m = Some (H (?o @ take n (H (?i @ m))))"
    by (simp add: hmac_run_def I(1) J(1) I2(1) f J2(1))
  moreover have "take n (H (?o @ take n (H (?i @ m)))) = rfc2104 HK (\<lambda>m. take n (H m)) key m"
    using assms(2) by (simp add: rfc2104_def hmac_pad_value)
  ultimately show ?thesis by (intro exI conjI)
qed

end

lemma update_aligned:
  assumes "blake_absorbed IV m S" "length IV = 8" "length m mod 64 = 0" "length m + length d < 2 ^ 60"
  shows "\<exists>S'. blake256_update S d (of_nat (8 * length d)) = Some S' \<and> blake_absorbed IV (m @ d) S'"
  using update_value [OF assms(1,2,4)] absorb_append [of m d] assms(3) by simp

lemma update_prefix:
  assumes "blake_absorbed IV m S" "length m mod 64 = 0" "0 < n" "n < 64" "n \<le> length d"
  shows "\<exists>S'. blake256_update S d (of_nat (8 * n)) = Some S' \<and> blake_absorbed IV (m @ take n d) S'"
proof -
  let ?k = "length m div 64"
  have m: "length m = 64 * ?k" using assms(2) by (metis add.right_neutral mult_div_mod_eq)
  have S: "compressed IV m ?k S" "b_buflen S = 8 * 0" "length (b_buf S) = 64" using assms(1,2) by (simp_all add: blake_absorbed_def compressed_def)
  have k: "length (m @ take n d) div 64 = ?k" "length (m @ take n d) mod 64 = n" "drop (64 * ?k) (m @ take n d) = take n d"
    using assms(2,4,5) m by (simp_all, simp only: mod_add_left_eq [of "length m", symmetric], simp)
  have l: "length (take n d @ drop n (b_buf S)) = 64" using assms(4,5) S(3) by simp
  have "compressed IV (m @ take n d) ?k S" using S(1) m by (simp add: compressed_append)
  then have "blake_absorbed IV (m @ take n d) (S\<lparr>b_buf := take n d @ drop n (b_buf S), b_buflen := 8 * n\<rparr>)"
    using compressed_buffer(2) [OF l S(3)] assms(5) unfolding blake_absorbed_def k by simp
  then show ?thesis using update_small [OF S(2) assms(3), of d] assms(4,5) by (simp del: of_nat_mult)
qed

interpretation b256: hash_engine "blake_absorbed IV256" "\<lambda>S d k. blake256_update S d (of_nat (8 * k))" blake256_final "spec_hash IV256 0x01" 32
proof
  fix m :: "u8 list" and S assume "blake_absorbed IV256 m S" "length m < 2 ^ 60"
  then show "blake256_final S = Some (spec_hash IV256 0x01 m)" using final_value [of IV256 m S 1] by (simp add: blake256_final_def)
qed (simp_all add: update_aligned update_prefix del: of_nat_mult)

interpretation b224: hash_engine "blake_absorbed IV224" "\<lambda>S d k. blake224_update S d (of_nat (8 * k))" blake224_final "spec_hash IV224 0x00" 28
proof
  fix m :: "u8 list" and S assume "blake_absorbed IV224 m S" "length m < 2 ^ 60"
  then show "blake224_final S = Some (spec_hash IV224 0x00 m)" using final_value [of IV224 m S 0] by (simp add: blake224_final_def)
qed (simp_all add: blake224_update_def update_aligned update_prefix del: of_nat_mult)

lemma hmac_256_run:
  "length key \<le> 64 \<Longrightarrow> hmac_blake256_hash memory key m = hmac_run (\<lambda>S d k. blake256_update S d (of_nat (8 * k))) blake256_final 32 (blake256_init memory) key m"
  by (simp add: hmac_blake256_hash_def hmac_blake256_init_def hmac_blake256_update_def hmac_blake256_final_def hmac_run_def mult.commute
    split: Option.bind_split)

lemma hmac_224_run:
  "length key \<le> 64 \<Longrightarrow> hmac_blake224_hash memory key m = hmac_run (\<lambda>S d k. blake224_update S d (of_nat (8 * k))) blake224_final 28 (blake224_init memory) key m"
  by (simp add: hmac_blake224_hash_def hmac_blake224_init_def hmac_blake224_update_def hmac_blake224_final_def hmac_run_def mult.commute
    split: Option.bind_split)

lemma hmac_values:
  assumes "length memory = 64" "length key \<le> 64" "length m < 2 ^ 60 - 64"
  shows "hmac_blake256_hash memory key m = Some (rfc2104 HK (spec_hash IV256 0x01) key m)"
    "map_option (take 28) (hmac_blake224_hash memory key m) = Some (rfc2104 HK (\<lambda>m. take 28 (spec_hash IV224 0x00 m)) key m)"
  using b256.hmac_correct [OF init_absorbed(1) [OF assms(1)] assms(2,3), of HK]
    b224.hmac_correct [OF init_absorbed(2) [OF assms(1)] assms(2,3), of HK]
  by (auto simp: hmac_256_run hmac_224_run assms(2))

section \<open>Correctness\<close>

text \<open>C26: \<open>blake256_hash\<close>, and with it \<open>hash_extra_blake\<close>, is BLAKE-256 of its input for every length below \<open>2 ^ 60\<close> bytes, whatever the
  uninitialised buffer of the state holds, and stays within its buffers: the padding in place, the counters of partial blocks
  and the null counter of blocks without message bits are those of the specification. The first 28 bytes that
  \<open>blake224_hash\<close> writes are BLAKE-224.\<close>

theorem blake_hash_correct:
  assumes "length memory = 64" "length m < 2 ^ 60"
  shows "blake256_hash memory m = Some (spec_hash IV256 0x01 m) \<and> hash_extra_blake memory m = Some (spec_hash IV256 0x01 m) \<and>
    map_option (take 28) (blake224_hash memory m) = Some (take 28 (spec_hash IV224 0x00 m))"
  using blake_hash_value [OF assms] by (simp add: hash_extra_blake_def)

lemma blake_hash_correct_witness:
  "hash_extra_blake (replicate 64 0xAA) (replicate 72 0) = Some (spec_hash IV256 0x01 (replicate 72 0)) \<and>
   blake256_hash (replicate 64 0xAA) [] = Some (spec_hash IV256 0x01 [])"
  using blake_hash_correct [of "replicate 64 0xAA" "replicate 72 0"] blake_hash_correct [of "replicate 64 0xAA" "[]"] by simp

text \<open>C27: A message may be given to \<open>blake256_update\<close> in pieces: the digest is that of the pieces one after the other, provided that each
  piece begins at a block boundary, or reaches the end of the buffered block with the part of it that is no whole block, or is
  neither empty nor longer than the rest of the block.\<close>

theorem blake_pieces_correct:
  assumes "length memory = 64" "length (concat ds) < 2 ^ 60" "safe_pieces 0 ds"
  shows "Option.bind (feed (blake256_init memory) ds) blake256_final = Some (spec_hash IV256 0x01 (concat ds))"
proof -
  obtain S where S: "feed (blake256_init memory) ds = Some S" "blake_absorbed IV256 (foldl absorb [] ds) S"
    using feed_value [OF init_absorbed(1) [OF assms(1)], of ds] assms(2) by auto
  have f: "foldl absorb [] ds = concat ds" using safe_pieces_concat [of "[]" ds] assms(3) by simp
  show ?thesis using final_value [OF S(2) [unfolded f] _ assms(2), of 1] S(1) by (simp add: blake256_final_def)
qed

lemma blake_pieces_correct_witness:
  "safe_pieces 0 [[0x61], replicate 62 0x62, replicate 65 0x63, [0x64]] \<and>
   Option.bind (feed (blake256_init (replicate 64 0)) [[0x61], replicate 62 0x62, replicate 65 0x63, [0x64]]) blake256_final =
     Some (spec_hash IV256 0x01 (0x61 # replicate 62 0x62 @ replicate 65 0x63 @ [0x64]))"
  using blake_pieces_correct [of "replicate 64 0" "[[0x61], replicate 62 0x62, replicate 65 0x63, [0x64]]"] by simp

text \<open>C39: Outside those pieces \<open>blake256_update\<close> loses data: when fewer than 64 bytes are buffered and the next piece is empty or a
  multiple of 64 bytes, the buffered bytes are dropped and the digest is that of the second piece alone.\<close>

theorem blake_update_drops_buffer:
  assumes "length memory = 64" "0 < length m" "length m < 64" "length d mod 64 = 0" "length d < 2 ^ 59"
  shows "Option.bind (feed (blake256_init memory) [m, d]) blake256_final = blake256_hash memory d"
proof -
  have "64 * (length d div 64) = length d" using assms(4) by (metis add.right_neutral mult_div_mod_eq)
  then have "absorb m d = d" using assms(2-4) by (simp add: absorb_def Let_def del: mod_0_imp_dvd)
  moreover have l: "length (concat [m, d]) < 2 ^ 60" "length d < 2 ^ 60" using assms(3,5) by simp_all
  obtain S where "feed (blake256_init memory) [m, d] = Some S" "blake_absorbed IV256 (foldl absorb [] [m, d]) S"
    using feed_value [OF init_absorbed(1) [OF assms(1)], of "[m, d]"] l(1) by auto
  ultimately show ?thesis using final_value [of IV256 d S 1] l(2) blake_hash_value(1) [OF assms(1) l(2)] by (simp add: blake256_final_def)
qed

lemma blake_update_drops_buffer_witness:
  "Option.bind (feed (blake256_init (replicate 64 0)) [[0x61, 0x62], []]) blake256_final = blake256_hash (replicate 64 0) []"
  using blake_update_drops_buffer [of "replicate 64 0" "[0x61, 0x62]" "[]"] by simp

text \<open>C28: \<open>hmac_blake256_hash\<close> is HMAC of RFC 2104 over BLAKE-256 for every key and text, and \<open>hmac_blake224_hash\<close> writes HMAC over
  BLAKE-224 as its first 28 bytes when the key has at most 64 bytes; a longer key is replaced by 28 bytes of its BLAKE-256, where
  the RFC has its BLAKE-224.\<close>

theorem hmac_blake_correct:
  assumes "length memory = 64" "length key < 2 ^ 60" "length m < 2 ^ 60 - 64"
  shows "hmac_blake256_hash memory key m = Some (rfc2104 (spec_hash IV256 0x01) (spec_hash IV256 0x01) key m) \<and>
    map_option (take 28) (hmac_blake224_hash memory key m) =
      Some (rfc2104 (\<lambda>key. take 28 (spec_hash IV256 0x01 key)) (\<lambda>m. take 28 (spec_hash IV224 0x00 m)) key m)"
proof (cases "64 < length key")
  case True
  have "hmac_blake256_hash memory key m = hmac_blake256_hash memory (spec_hash IV256 0x01 key) m"
    "hmac_blake224_hash memory key m = hmac_blake224_hash memory (take 28 (spec_hash IV256 0x01 key)) m"
    using True blake_hash_value(1) [OF assms(1,2)]
    by (simp_all add: hmac_blake256_hash_def hmac_blake224_hash_def hmac_blake256_init_def hmac_blake224_init_def)
  then show ?thesis
    using True hmac_values(1) [OF assms(1) _ assms(3), of "spec_hash IV256 0x01 key"]
      hmac_values(2) [OF assms(1) _ assms(3), of "take 28 (spec_hash IV256 0x01 key)"]
    by (simp add: rfc2104_def)
qed (use hmac_values [OF assms(1) _ assms(3)] in simp)

lemma hmac_blake_correct_witness:
  "hmac_blake256_hash (replicate 64 0) [0x6B] [0x61, 0x62] = Some (rfc2104 (spec_hash IV256 0x01) (spec_hash IV256 0x01) [0x6B] [0x61, 0x62])"
  using hmac_blake_correct [of "replicate 64 0" "[0x6B]" "[0x61, 0x62]"] by simp

end
