(* ===== verification/Sha3.thy ===== *)
theory Sha3
  imports Keccak
begin

text \<open>
  The class \<open>SHA3\<close> of cryptopp/sha3.cpp, with which the Ethereum miner hashes, and its wrapper
  libethash/sha3_cryptopp.cpp: the permutation with its rounds unrolled in pairs over 25 named words, the object
  that takes a message in pieces, and the final block. The words of the state are stored in little-endian order,
  so the state is a list of 200 bytes. Writes outside it are \<open>None\<close>.
\<close>

section \<open>The permutation\<close>

definition rotlFixed :: "u64 \<Rightarrow> nat \<Rightarrow> u64" where
  "rotlFixed x y = (if y \<noteq> 0 then push_bit y x OR drop_bit (64 - y) x else x)"

definition KeccakF_RoundConstants :: "u64 list" where
  "KeccakF_RoundConstants =
    [0x0000000000000001, 0x0000000000008082, 0x800000000000808a,
     0x8000000080008000, 0x000000000000808b, 0x0000000080000001,
     0x8000000080008081, 0x8000000000008009, 0x000000000000008a,
     0x0000000000000088, 0x0000000080008009, 0x000000008000000a,
     0x000000008000808b, 0x800000000000008b, 0x8000000000008089,
     0x8000000000008003, 0x8000000000008002, 0x8000000000000080,
     0x000000000000800a, 0x800000008000000a, 0x8000000080008081,
     0x8000000000008080, 0x0000000080000001, 0x8000000080008008]"

text \<open>The two rounds of the loop body, from the words \<open>A\<close> to \<open>E\<close> and back; \<open>c\<close> is the round constant.\<close>

definition KeccakF1600_even :: "u64 \<Rightarrow> u64 list \<Rightarrow> u64 list" where
  "KeccakF1600_even c A =
     (let Aba = A ! 0; Abe = A ! 1; Abi = A ! 2; Abo = A ! 3; Abu = A ! 4;
          Aga = A ! 5; Age = A ! 6; Agi = A ! 7; Ago = A ! 8; Agu = A ! 9;
          Aka = A ! 10; Ake = A ! 11; Aki = A ! 12; Ako = A ! 13; Aku = A ! 14;
          Ama = A ! 15; Ame = A ! 16; Ami = A ! 17; Amo = A ! 18; Amu = A ! 19;
          Asa = A ! 20; Ase = A ! 21; Asi = A ! 22; Aso = A ! 23; Asu = A ! 24;
          BCa = Aba XOR Aga XOR Aka XOR Ama XOR Asa;
          BCe = Abe XOR Age XOR Ake XOR Ame XOR Ase;
          BCi = Abi XOR Agi XOR Aki XOR Ami XOR Asi;
          BCo = Abo XOR Ago XOR Ako XOR Amo XOR Aso;
          BCu = Abu XOR Agu XOR Aku XOR Amu XOR Asu;
          Da = BCu XOR rotlFixed BCe 1;
          De = BCa XOR rotlFixed BCi 1;
          Di = BCe XOR rotlFixed BCo 1;
          Do = BCi XOR rotlFixed BCu 1;
          Du = BCo XOR rotlFixed BCa 1;
          Aba = Aba XOR Da;
          BCa = Aba;
          Age = Age XOR De;
          BCe = rotlFixed Age 44;
          Aki = Aki XOR Di;
          BCi = rotlFixed Aki 43;
          Amo = Amo XOR Do;
          BCo = rotlFixed Amo 21;
          Asu = Asu XOR Du;
          BCu = rotlFixed Asu 14;
          Eba = BCa XOR ((NOT BCe) AND BCi);
          Eba = Eba XOR c;
          Ebe = BCe XOR ((NOT BCi) AND BCo);
          Ebi = BCi XOR ((NOT BCo) AND BCu);
          Ebo = BCo XOR ((NOT BCu) AND BCa);
          Ebu = BCu XOR ((NOT BCa) AND BCe);
          Abo = Abo XOR Do;
          BCa = rotlFixed Abo 28;
          Agu = Agu XOR Du;
          BCe = rotlFixed Agu 20;
          Aka = Aka XOR Da;
          BCi = rotlFixed Aka 3;
          Ame = Ame XOR De;
          BCo = rotlFixed Ame 45;
          Asi = Asi XOR Di;
          BCu = rotlFixed Asi 61;
          Ega = BCa XOR ((NOT BCe) AND BCi);
          Ege = BCe XOR ((NOT BCi) AND BCo);
          Egi = BCi XOR ((NOT BCo) AND BCu);
          Ego = BCo XOR ((NOT BCu) AND BCa);
          Egu = BCu XOR ((NOT BCa) AND BCe);
          Abe = Abe XOR De;
          BCa = rotlFixed Abe 1;
          Agi = Agi XOR Di;
          BCe = rotlFixed Agi 6;
          Ako = Ako XOR Do;
          BCi = rotlFixed Ako 25;
          Amu = Amu XOR Du;
          BCo = rotlFixed Amu 8;
          Asa = Asa XOR Da;
          BCu = rotlFixed Asa 18;
          Eka = BCa XOR ((NOT BCe) AND BCi);
          Eke = BCe XOR ((NOT BCi) AND BCo);
          Eki = BCi XOR ((NOT BCo) AND BCu);
          Eko = BCo XOR ((NOT BCu) AND BCa);
          Eku = BCu XOR ((NOT BCa) AND BCe);
          Abu = Abu XOR Du;
          BCa = rotlFixed Abu 27;
          Aga = Aga XOR Da;
          BCe = rotlFixed Aga 36;
          Ake = Ake XOR De;
          BCi = rotlFixed Ake 10;
          Ami = Ami XOR Di;
          BCo = rotlFixed Ami 15;
          Aso = Aso XOR Do;
          BCu = rotlFixed Aso 56;
          Ema = BCa XOR ((NOT BCe) AND BCi);
          Eme = BCe XOR ((NOT BCi) AND BCo);
          Emi = BCi XOR ((NOT BCo) AND BCu);
          Emo = BCo XOR ((NOT BCu) AND BCa);
          Emu = BCu XOR ((NOT BCa) AND BCe);
          Abi = Abi XOR Di;
          BCa = rotlFixed Abi 62;
          Ago = Ago XOR Do;
          BCe = rotlFixed Ago 55;
          Aku = Aku XOR Du;
          BCi = rotlFixed Aku 39;
          Ama = Ama XOR Da;
          BCo = rotlFixed Ama 41;
          Ase = Ase XOR De;
          BCu = rotlFixed Ase 2;
          Esa = BCa XOR ((NOT BCe) AND BCi);
          Ese = BCe XOR ((NOT BCi) AND BCo);
          Esi = BCi XOR ((NOT BCo) AND BCu);
          Eso = BCo XOR ((NOT BCu) AND BCa);
          Esu = BCu XOR ((NOT BCa) AND BCe)
      in [Eba, Ebe, Ebi, Ebo, Ebu,
          Ega, Ege, Egi, Ego, Egu,
          Eka, Eke, Eki, Eko, Eku,
          Ema, Eme, Emi, Emo, Emu,
          Esa, Ese, Esi, Eso, Esu])"

definition KeccakF1600_odd :: "u64 \<Rightarrow> u64 list \<Rightarrow> u64 list" where
  "KeccakF1600_odd c E =
     (let Eba = E ! 0; Ebe = E ! 1; Ebi = E ! 2; Ebo = E ! 3; Ebu = E ! 4;
          Ega = E ! 5; Ege = E ! 6; Egi = E ! 7; Ego = E ! 8; Egu = E ! 9;
          Eka = E ! 10; Eke = E ! 11; Eki = E ! 12; Eko = E ! 13; Eku = E ! 14;
          Ema = E ! 15; Eme = E ! 16; Emi = E ! 17; Emo = E ! 18; Emu = E ! 19;
          Esa = E ! 20; Ese = E ! 21; Esi = E ! 22; Eso = E ! 23; Esu = E ! 24;
          BCa = Eba XOR Ega XOR Eka XOR Ema XOR Esa;
          BCe = Ebe XOR Ege XOR Eke XOR Eme XOR Ese;
          BCi = Ebi XOR Egi XOR Eki XOR Emi XOR Esi;
          BCo = Ebo XOR Ego XOR Eko XOR Emo XOR Eso;
          BCu = Ebu XOR Egu XOR Eku XOR Emu XOR Esu;
          Da = BCu XOR rotlFixed BCe 1;
          De = BCa XOR rotlFixed BCi 1;
          Di = BCe XOR rotlFixed BCo 1;
          Do = BCi XOR rotlFixed BCu 1;
          Du = BCo XOR rotlFixed BCa 1;
          Eba = Eba XOR Da;
          BCa = Eba;
          Ege = Ege XOR De;
          BCe = rotlFixed Ege 44;
          Eki = Eki XOR Di;
          BCi = rotlFixed Eki 43;
          Emo = Emo XOR Do;
          BCo = rotlFixed Emo 21;
          Esu = Esu XOR Du;
          BCu = rotlFixed Esu 14;
          Aba = BCa XOR ((NOT BCe) AND BCi);
          Aba = Aba XOR c;
          Abe = BCe XOR ((NOT BCi) AND BCo);
          Abi = BCi XOR ((NOT BCo) AND BCu);
          Abo = BCo XOR ((NOT BCu) AND BCa);
          Abu = BCu XOR ((NOT BCa) AND BCe);
          Ebo = Ebo XOR Do;
          BCa = rotlFixed Ebo 28;
          Egu = Egu XOR Du;
          BCe = rotlFixed Egu 20;
          Eka = Eka XOR Da;
          BCi = rotlFixed Eka 3;
          Eme = Eme XOR De;
          BCo = rotlFixed Eme 45;
          Esi = Esi XOR Di;
          BCu = rotlFixed Esi 61;
          Aga = BCa XOR ((NOT BCe) AND BCi);
          Age = BCe XOR ((NOT BCi) AND BCo);
          Agi = BCi XOR ((NOT BCo) AND BCu);
          Ago = BCo XOR ((NOT BCu) AND BCa);
          Agu = BCu XOR ((NOT BCa) AND BCe);
          Ebe = Ebe XOR De;
          BCa = rotlFixed Ebe 1;
          Egi = Egi XOR Di;
          BCe = rotlFixed Egi 6;
          Eko = Eko XOR Do;
          BCi = rotlFixed Eko 25;
          Emu = Emu XOR Du;
          BCo = rotlFixed Emu 8;
          Esa = Esa XOR Da;
          BCu = rotlFixed Esa 18;
          Aka = BCa XOR ((NOT BCe) AND BCi);
          Ake = BCe XOR ((NOT BCi) AND BCo);
          Aki = BCi XOR ((NOT BCo) AND BCu);
          Ako = BCo XOR ((NOT BCu) AND BCa);
          Aku = BCu XOR ((NOT BCa) AND BCe);
          Ebu = Ebu XOR Du;
          BCa = rotlFixed Ebu 27;
          Ega = Ega XOR Da;
          BCe = rotlFixed Ega 36;
          Eke = Eke XOR De;
          BCi = rotlFixed Eke 10;
          Emi = Emi XOR Di;
          BCo = rotlFixed Emi 15;
          Eso = Eso XOR Do;
          BCu = rotlFixed Eso 56;
          Ama = BCa XOR ((NOT BCe) AND BCi);
          Ame = BCe XOR ((NOT BCi) AND BCo);
          Ami = BCi XOR ((NOT BCo) AND BCu);
          Amo = BCo XOR ((NOT BCu) AND BCa);
          Amu = BCu XOR ((NOT BCa) AND BCe);
          Ebi = Ebi XOR Di;
          BCa = rotlFixed Ebi 62;
          Ego = Ego XOR Do;
          BCe = rotlFixed Ego 55;
          Eku = Eku XOR Du;
          BCi = rotlFixed Eku 39;
          Ema = Ema XOR Da;
          BCo = rotlFixed Ema 41;
          Ese = Ese XOR De;
          BCu = rotlFixed Ese 2;
          Asa = BCa XOR ((NOT BCe) AND BCi);
          Ase = BCe XOR ((NOT BCi) AND BCo);
          Asi = BCi XOR ((NOT BCo) AND BCu);
          Aso = BCo XOR ((NOT BCu) AND BCa);
          Asu = BCu XOR ((NOT BCa) AND BCe)
      in [Aba, Abe, Abi, Abo, Abu,
          Aga, Age, Agi, Ago, Agu,
          Aka, Ake, Aki, Ako, Aku,
          Ama, Ame, Ami, Amo, Amu,
          Asa, Ase, Asi, Aso, Asu])"

definition KeccakF1600_rounds :: "u64 list \<Rightarrow> u64 list" where
  "KeccakF1600_rounds A =
     fold (\<lambda>round A. KeccakF1600_odd (KeccakF_RoundConstants ! (round + 1)) (KeccakF1600_even (KeccakF_RoundConstants ! round) A))
       [0, 2, 4, 6, 8, 10, 12, 14, 16, 18, 20, 22] A"

definition KeccakF1600 :: "u8 list \<Rightarrow> u8 list" where
  "KeccakF1600 state = lane_bytes (KeccakF1600_rounds (map (load64 state) [0..<25]))"

section \<open>The object\<close>

record sha3 =
  m_state :: "u8 list"
  m_digestSize :: u32
  m_counter :: u32

definition sha3_r :: "sha3 \<Rightarrow> u32" where
  "sha3_r h = 200 - 2 * m_digestSize h"

definition sha3_Restart :: "sha3 \<Rightarrow> sha3" where
  "sha3_Restart h = h\<lparr>m_state := replicate 200 0, m_counter := 0\<rparr>"

definition sha3_new :: "u32 \<Rightarrow> sha3" where
  "sha3_new digestSize = sha3_Restart \<lparr>m_state = replicate 200 0, m_digestSize = digestSize, m_counter = 0\<rparr>"

text \<open>\<open>xorbuf(m_state.BytePtr() + off, input, length)\<close>\<close>

definition xorbuf :: "nat \<Rightarrow> u8 list \<Rightarrow> u8 list \<Rightarrow> u8 list option" where
  "xorbuf off inp st =
     (if off + length inp \<le> length st
      then Some (take off st @ map2 (XOR) (take (length inp) (drop off st)) inp @ drop (off + length inp) st)
      else None)"

text \<open>With a rate of 0 the loop does not end.\<close>

function sha3_Update :: "u8 list \<Rightarrow> sha3 \<Rightarrow> sha3 option" where
  "sha3_Update inp h =
     (let spaceLeft = unat (sha3_r h - m_counter h)
      in if sha3_r h = 0 then None
         else if spaceLeft \<le> length inp then
           Option.bind (xorbuf (unat (m_counter h)) (take spaceLeft inp) (m_state h)) (\<lambda>st.
             sha3_Update (drop spaceLeft inp) (h\<lparr>m_state := KeccakF1600 st, m_counter := 0\<rparr>))
         else
           map_option (\<lambda>st. h\<lparr>m_state := st, m_counter := m_counter h + of_nat (length inp)\<rparr>)
             (xorbuf (unat (m_counter h)) inp (m_state h)))"
  by auto

termination
proof (relation "measures [\<lambda>(inp, h). length inp, \<lambda>(inp, h). unat (m_counter h)]")
  fix inp h x st
  assume a: "x = unat (sha3_r h - m_counter h)" "sha3_r h \<noteq> 0" "x \<le> length inp"
  show "((drop x inp, h\<lparr>m_state := KeccakF1600 st, m_counter := 0\<rparr>), inp, h)
      \<in> measures [\<lambda>(inp, h). length inp, \<lambda>(inp, h). unat (m_counter h)]"
  proof (cases "x = 0")
    case True
    then have "m_counter h \<noteq> 0" using a by (auto simp: unat_eq_0)
    then show ?thesis using True by (simp add: unat_gt_0)
  next
    case False
    then have "0 < length inp" using a by linarith
    then show ?thesis using False a by (simp only: measures_less in_measures length_drop case_prod_conv) simp
  qed
qed simp

declare sha3_Update.simps [simp del]

text \<open>\<open>TruncatedFinal\<close>: the digest and the object for the next message. \<open>ThrowIfInvalidTruncatedSize\<close> throws, and the
  result is \<open>None\<close>, where more than the digest is asked for.\<close>

definition sha3_TruncatedFinal :: "nat \<Rightarrow> sha3 \<Rightarrow> (u8 list \<times> sha3) option" where
  "sha3_TruncatedFinal sz h =
     (if unat (m_digestSize h) < sz then None
      else
        Option.bind (xorbuf (unat (m_counter h)) [1] (m_state h)) (\<lambda>st.
        map_option (\<lambda>st. (take sz (KeccakF1600 st), sha3_Restart (h\<lparr>m_state := KeccakF1600 st\<rparr>)))
          (xorbuf (unat (sha3_r h - 1)) [0x80] st)))"

definition sha3_CalculateDigest :: "u8 list \<Rightarrow> sha3 \<Rightarrow> (u8 list \<times> sha3) option" where
  "sha3_CalculateDigest inp h =
     Option.bind (sha3_Update inp h) (\<lambda>h. sha3_TruncatedFinal (unat (m_digestSize h)) h)"

section \<open>The functions of libethash\<close>

definition SHA3_256 :: "u8 list \<Rightarrow> u8 list option" where
  "SHA3_256 data = map_option fst (sha3_CalculateDigest data (sha3_new 32))"

definition SHA3_512 :: "u8 list \<Rightarrow> u8 list option" where
  "SHA3_512 data = map_option fst (sha3_CalculateDigest data (sha3_new 64))"

end
