(* ===== verification/Ethash.thy ===== *)
theory Ethash
  imports Sha3
begin

text \<open>
  The proof of work of the Ethereum miner: internal.c, internal.h and fnv.h of libethash, on a little-endian host and
  without the SSE variants. A node is its 16 words; a cache or a DAG is a list of nodes. Accesses outside them,
  divisions by zero and loops that do not end are \<open>None\<close>; the \<open>bool\<close> results of the code are results here. The hash of the
  light client reads a local variable after the end of its block: what that gives is a parameter of it. The two nodes of
  the mix are adjacent and are indexed from the first as one array of 32 words, past its member array, as the code does.
\<close>

section \<open>Nodes\<close>

type_synonym node = "u32 list"

definition NODE_WORDS :: nat where "NODE_WORDS = 16"
definition MIX_WORDS :: nat where "MIX_WORDS = 32"
definition MIX_NODES :: nat where "MIX_NODES = 2"
definition ETHASH_DATASET_PARENTS :: nat where "ETHASH_DATASET_PARENTS = 256"
definition ETHASH_CACHE_ROUNDS :: nat where "ETHASH_CACHE_ROUNDS = 3"
definition ETHASH_ACCESSES :: nat where "ETHASH_ACCESSES = 64"
definition ETHASH_EPOCH_LENGTH :: nat where "ETHASH_EPOCH_LENGTH = 30000"

text \<open>The two views of the union \<open>node\<close>.\<close>

definition node_bytes :: "u32 list \<Rightarrow> u8 list" where
  "node_bytes ws = concat (map (\<lambda>w. le_bytes 4 (uint w)) ws)"

definition node_words :: "u8 list \<Rightarrow> u32 list" where
  "node_words bs = map (\<lambda>i. word_of_int (le_val (take 4 (drop (4 * i) bs)))) [0..<length bs div 4]"

text \<open>\<open>SHA3_512\<close> into a node.\<close>

definition sha512_node :: "u8 list \<Rightarrow> node option" where
  "sha512_node bs = map_option node_words (SHA3_512 bs)"

definition FNV_PRIME :: u32 where "FNV_PRIME = 0x01000193"

definition fnv_hash :: "u32 \<Rightarrow> u32 \<Rightarrow> u32" where
  "fnv_hash x y = x * FNV_PRIME XOR y"

text \<open>An element of a buffer of nodes.\<close>

definition node_at :: "node list \<Rightarrow> nat \<Rightarrow> node option" where
  "node_at nodes i = (if i < length nodes then Some (nodes ! i) else None)"

section \<open>The cache\<close>

text \<open>\<open>for (i = 1; i != num_nodes; ++i) SHA3_512(nodes[i].bytes, nodes[i - 1].bytes, 64)\<close>, the list being the nodes
  that have been written, for \<open>k\<close> more rounds.\<close>

fun cache_chain :: "nat \<Rightarrow> node list \<Rightarrow> node list option" where
  "cache_chain 0 nodes = Some nodes"
| "cache_chain (Suc k) nodes =
     Option.bind (sha512_node (node_bytes (last nodes))) (\<lambda>n. cache_chain k (nodes @ [n]))"

text \<open>One step of the strict memory hard rounds, in place.\<close>

definition cache_mix :: "u32 \<Rightarrow> node list \<Rightarrow> nat \<Rightarrow> node list option" where
  "cache_mix num_nodes nodes i =
     Option.bind (node_at nodes i) (\<lambda>ni.
     Option.bind (node_at nodes (unat (ni ! 0 mod num_nodes))) (\<lambda>nidx.
     Option.bind (node_at nodes (unat ((num_nodes - 1 + of_nat i) mod num_nodes))) (\<lambda>data.
     Option.bind (sha512_node (node_bytes (map2 (XOR) data nidx))) (\<lambda>n. Some (nodes[i := n])))))"

fun fold_opt :: "('s \<Rightarrow> 'a \<Rightarrow> 's option) \<Rightarrow> 's \<Rightarrow> 'a list \<Rightarrow> 's option" where
  "fold_opt f s [] = Some s"
| "fold_opt f s (x # xs) = Option.bind (f s x) (\<lambda>s. fold_opt f s xs)"

definition ethash_compute_cache_nodes :: "u64 \<Rightarrow> u8 list \<Rightarrow> (bool \<times> node list) option" where
  "ethash_compute_cache_nodes cache_size seed =
     (if cache_size mod 64 \<noteq> 0 then Some (False, [])
      else
        (let num_nodes = ucast (cache_size div 64) :: u32
         in if num_nodes = 0 then None
            else
              Option.bind (sha512_node seed) (\<lambda>n0.
              Option.bind (cache_chain (unat num_nodes - 1) [n0]) (\<lambda>nodes.
              Option.bind (fold_opt (\<lambda>nodes _. fold_opt (cache_mix num_nodes) nodes [0..<unat num_nodes]) nodes [0..<ETHASH_CACHE_ROUNDS]) (\<lambda>nodes.
                Some (True, nodes))))))"

record ethash_light =
  cache :: "node list"
  cache_size :: u64
  block_number :: u64

section \<open>An item of the DAG\<close>

definition dag_parent :: "u32 \<Rightarrow> u32 \<Rightarrow> node list \<Rightarrow> node \<Rightarrow> nat \<Rightarrow> node option" where
  "dag_parent node_index num_parent_nodes cache_nodes ret i =
     Option.bind (node_at cache_nodes (unat (fnv_hash (node_index XOR of_nat i) (ret ! (i mod NODE_WORDS)) mod num_parent_nodes)))
       (\<lambda>parent. Some (map2 fnv_hash ret parent))"

definition ethash_calculate_dag_item :: "u32 \<Rightarrow> ethash_light \<Rightarrow> node option" where
  "ethash_calculate_dag_item node_index light =
     (let num_parent_nodes = ucast (cache_size light div 64) :: u32
      in if num_parent_nodes = 0 then None
         else
           Option.bind (node_at (cache light) (unat (node_index mod num_parent_nodes))) (\<lambda>ret.
           Option.bind (sha512_node (node_bytes (ret[0 := ret ! 0 XOR node_index]))) (\<lambda>ret.
           Option.bind (fold_opt (dag_parent node_index num_parent_nodes (cache light)) ret [0..<ETHASH_DATASET_PARENTS]) (\<lambda>ret.
             sha512_node (node_bytes ret)))))"

text \<open>The loop of \<open>ethash_compute_full_data\<close> from node \<open>n\<close> on, \<open>k\<close> nodes to go; \<open>callback\<close> tells at which node
  the progress callback, if there is one, asks to stop. The percentage it is given is a floating-point number and
  is left out.\<close>

fun full_data_loop :: "ethash_light \<Rightarrow> (u32 \<Rightarrow> bool) option \<Rightarrow> u32 \<Rightarrow> nat \<Rightarrow> u32 \<Rightarrow> node list \<Rightarrow> (bool \<times> node list) option" where
  "full_data_loop light callback max_n 0 n full_nodes = Some (True, full_nodes)"
| "full_data_loop light callback max_n (Suc k) n full_nodes =
     (if callback \<noteq> None \<and> max_n div 100 = 0 then None
      else if callback \<noteq> None \<and> n mod (max_n div 100) = 0 \<and> the callback n then Some (False, full_nodes)
      else Option.bind (ethash_calculate_dag_item n light) (\<lambda>item.
             full_data_loop light callback max_n k (n + 1) (full_nodes @ [item])))"

definition ethash_compute_full_data :: "u64 \<Rightarrow> ethash_light \<Rightarrow> (u32 \<Rightarrow> bool) option \<Rightarrow> (bool \<times> node list) option" where
  "ethash_compute_full_data full_size light callback =
     (if full_size mod (4 * of_nat MIX_WORDS) \<noteq> 0 \<or> full_size mod 64 \<noteq> 0 then Some (False, [])
      else
        (let max_n = ucast (full_size div 64) :: u32
         in full_data_loop light callback max_n (unat max_n) 0 []))"

section \<open>The hash\<close>

record ethash_return_value =
  result :: "u8 list"
  mix_hash :: "u8 list"
  success :: bool

text \<open>What a read through a pointer gives once the block in which the object was declared has ended, from the last value
  of the object. The standard leaves every such read undefined (\<open>standard_c\<close>); a compiler that does not use the storage
  for anything else before the read gives the last value (\<open>storage_kept\<close>).\<close>

type_synonym after_block = "node \<Rightarrow> node option"

definition standard_c :: after_block where
  "standard_c v = None"

definition storage_kept :: after_block where
  "storage_kept v = Some v"

text \<open>Where \<open>ethash_hash\<close> takes its nodes from: the DAG, or the cache. From the cache the node is computed into \<open>tmp_node\<close>,
  a variable of the \<open>else\<close> block, and all reads of it follow the end of that block.\<close>

definition dag_node :: "after_block \<Rightarrow> node list option \<Rightarrow> ethash_light \<Rightarrow> u32 \<Rightarrow> nat \<Rightarrow> node option" where
  "dag_node after full_nodes light index n =
     (case full_nodes of
        Some nodes \<Rightarrow> node_at nodes (unat (of_nat MIX_NODES * index + of_nat n))
      | None \<Rightarrow>
          Option.bind (ethash_calculate_dag_item (index * of_nat MIX_NODES + of_nat n) light) (\<lambda>tmp_node.
            after tmp_node))"

text \<open>One access: the two nodes of the mix, a list of 32 words, are combined with two nodes of the DAG.\<close>

definition mix_access :: "(u32 \<Rightarrow> nat \<Rightarrow> node option) \<Rightarrow> u32 \<Rightarrow> u32 \<Rightarrow> u32 list \<Rightarrow> nat \<Rightarrow> u32 list option" where
  "mix_access nodes num_full_pages s0 mix i =
     (let index = fnv_hash (s0 XOR of_nat i) (mix ! (i mod MIX_WORDS)) mod num_full_pages
      in Option.bind (nodes index 0) (\<lambda>d0. Option.bind (nodes index 1) (\<lambda>d1.
           Some (map2 fnv_hash (take NODE_WORDS mix) d0 @ map2 fnv_hash (drop NODE_WORDS mix) d1))))"

text \<open>The reduction of four words, stored in place.\<close>

definition compress_mix :: "u32 list \<Rightarrow> u32 list" where
  "compress_mix mix =
     fold (\<lambda>w mix.
       let reduction = mix ! w;
           reduction = reduction * FNV_PRIME XOR mix ! (w + 1);
           reduction = reduction * FNV_PRIME XOR mix ! (w + 2);
           reduction = reduction * FNV_PRIME XOR mix ! (w + 3)
       in mix[w div 4 := reduction]) [0, 4, 8, 12, 16, 20, 24, 28] mix"

definition ethash_hash_with :: "(u32 \<Rightarrow> nat \<Rightarrow> node option) \<Rightarrow> u64 \<Rightarrow> u8 list \<Rightarrow> u64 \<Rightarrow> (bool \<times> u8 list \<times> u8 list) option" where
  "ethash_hash_with nodes full_size header_hash nonce =
     (if full_size mod of_nat MIX_WORDS \<noteq> 0 then Some (False, [], [])
      else
        Option.bind (sha512_node (take 32 header_hash @ le_bytes 8 (uint nonce))) (\<lambda>s_mix.
          (let mix = map (\<lambda>w. s_mix ! (w mod NODE_WORDS)) [0..<MIX_WORDS];
               num_full_pages = ucast (full_size div (4 * of_nat MIX_WORDS)) :: u32
           in if num_full_pages = 0 then None
              else
                Option.bind (fold_opt (mix_access nodes num_full_pages (s_mix ! 0)) mix [0..<ETHASH_ACCESSES]) (\<lambda>mix.
                  (let cmix = take 32 (node_bytes (compress_mix mix))
                   in map_option (\<lambda>r. (True, r, cmix)) (SHA3_256 (node_bytes s_mix @ cmix)))))))"

definition ethash_hash :: "after_block \<Rightarrow> node list option \<Rightarrow> ethash_light \<Rightarrow> u64 \<Rightarrow> u8 list \<Rightarrow> u64 \<Rightarrow> (bool \<times> u8 list \<times> u8 list) option" where
  "ethash_hash after full_nodes light full_size header_hash nonce =
     ethash_hash_with (dag_node after full_nodes light) full_size header_hash nonce"

definition ethash_light_compute_internal :: "after_block \<Rightarrow> ethash_light \<Rightarrow> u64 \<Rightarrow> u8 list \<Rightarrow> u64 \<Rightarrow> ethash_return_value option" where
  "ethash_light_compute_internal after light full_size header_hash nonce =
     map_option (\<lambda>(ok, r, m). \<lparr>result = r, mix_hash = m, success = ok\<rparr>) (ethash_hash after None light full_size header_hash nonce)"

record ethash_full =
  file_size :: u64
  data :: "node list"

text \<open>With a DAG there is no read after a block, and the hash is the one of the standard.\<close>

definition ethash_full_compute :: "ethash_full \<Rightarrow> u8 list \<Rightarrow> u64 \<Rightarrow> ethash_return_value option" where
  "ethash_full_compute full header_hash nonce =
     map_option (\<lambda>(ok, r, m). \<lparr>result = r, mix_hash = m, success = ok\<rparr>)
       (ethash_hash standard_c (Some (data full)) \<lparr>cache = [], cache_size = 0, block_number = 0\<rparr> (file_size full) header_hash nonce)"

section \<open>Verification of a nonce\<close>

definition ethash_quick_hash :: "u8 list \<Rightarrow> u64 \<Rightarrow> u8 list \<Rightarrow> u8 list option" where
  "ethash_quick_hash header_hash nonce mix =
     Option.bind (SHA3_512 (take 32 header_hash @ le_bytes 8 (uint nonce))) (\<lambda>buf. SHA3_256 (buf @ take 32 mix))"

text \<open>The comparison of two hashes of 32 bytes, most significant byte first.\<close>

fun check_bytes :: "u8 list \<Rightarrow> u8 list \<Rightarrow> bool" where
  "check_bytes (h # hs) (b # bs) = (if h = b then check_bytes hs bs else h < b)"
| "check_bytes _ _ = True"

definition ethash_check_difficulty :: "u8 list \<Rightarrow> u8 list \<Rightarrow> bool" where
  "ethash_check_difficulty hash boundary = check_bytes (take 32 hash) (take 32 boundary)"

definition ethash_quick_check_difficulty :: "u8 list \<Rightarrow> u64 \<Rightarrow> u8 list \<Rightarrow> u8 list \<Rightarrow> bool option" where
  "ethash_quick_check_difficulty header_hash nonce mix boundary =
     map_option (\<lambda>return_hash. ethash_check_difficulty return_hash boundary) (ethash_quick_hash header_hash nonce mix)"

section \<open>The seed of an epoch\<close>

text \<open>The loop counter has 32 bits and the number of epochs 64: from \<open>2^32\<close> epochs on the loop does not end.\<close>

definition ethash_get_seedhash :: "u64 \<Rightarrow> u8 list option" where
  "ethash_get_seedhash block =
     (let epochs = unat block div ETHASH_EPOCH_LENGTH
      in if 2 ^ 32 \<le> epochs then None
         else fold_opt (\<lambda>ret _. SHA3_256 ret) (replicate 32 0) [0..<epochs])"

definition ethash_light_new_internal :: "u64 \<Rightarrow> u8 list \<Rightarrow> bool \<Rightarrow> ethash_light option option" where
  "ethash_light_new_internal csize seed memory =
     (if \<not> memory then Some None
      else
        map_option (\<lambda>(ok, nodes). if ok then Some \<lparr>cache = nodes, cache_size = csize, block_number = 0\<rparr> else None)
          (ethash_compute_cache_nodes csize seed))"

end
