(* ===== verification/Sha3_Proofs.thy ===== *)
theory Sha3_Proofs
  imports Sha3 Keccak_Proofs Chacha8_Proofs
begin

text \<open>
  The unrolled permutation of Crypto++ is the one of keccak.c, and its object, fed a message in any pieces, returns
  the digest that \<open>keccak\<close> computes of the whole message: two independent implementations of the program agree.
\<close>

section \<open>The unrolled permutation\<close>

lemma rotlFixed_ROTL64: "rotlFixed x y = ROTL64 x y"
  by (simp add: rotlFixed_def ROTL64_0) (simp add: ROTL64_def)

lemma round_constants: "KeccakF_RoundConstants = keccakf_rndc"
  by (simp add: KeccakF_RoundConstants_def keccakf_rndc_def)

lemma rounds_agree: "KeccakF1600_odd = KeccakF1600_even"
  by (simp only: KeccakF1600_odd_def [abs_def] KeccakF1600_even_def [abs_def])

lemma rho_numerals:
  "rho_offset 0 0 = 0" "rho_offset 1 0 = 1" "rho_offset 2 0 = 62" "rho_offset 3 0 = 28" "rho_offset 4 0 = 27"
  "rho_offset 0 1 = 36" "rho_offset 1 1 = 44" "rho_offset 2 1 = 6" "rho_offset 3 1 = 55" "rho_offset 4 1 = 20"
  "rho_offset 0 2 = 3" "rho_offset 1 2 = 10" "rho_offset 2 2 = 43" "rho_offset 3 2 = 25" "rho_offset 4 2 = 39"
  "rho_offset 0 3 = 41" "rho_offset 1 3 = 45" "rho_offset 2 3 = 15" "rho_offset 3 3 = 21" "rho_offset 4 3 = 8"
  "rho_offset 0 4 = 18" "rho_offset 1 4 = 2" "rho_offset 2 4 = 61" "rho_offset 3 4 = 56" "rho_offset 4 4 = 14"
  by (simp_all add: rho_offset_table rho_table_def)

text \<open>The lanes after rho and pi, on the words of the state.\<close>

definition lane_parity :: "lanes \<Rightarrow> nat \<Rightarrow> u64" where
  "lane_parity A x = A ! x XOR A ! (x + 5) XOR A ! (x + 10) XOR A ! (x + 15) XOR A ! (x + 20)"

definition pi_lane :: "lanes \<Rightarrow> nat \<Rightarrow> nat \<Rightarrow> u64" where
  "pi_lane A = spec_pi (spec_rho (spec_theta (lanes_of A)))"

lemma parities:
  "lane_parity A 0 = A ! 0 XOR A ! 5 XOR A ! 10 XOR A ! 15 XOR A ! 20"
  "lane_parity A 1 = A ! 1 XOR A ! 6 XOR A ! 11 XOR A ! 16 XOR A ! 21"
  "lane_parity A 2 = A ! 2 XOR A ! 7 XOR A ! 12 XOR A ! 17 XOR A ! 22"
  "lane_parity A 3 = A ! 3 XOR A ! 8 XOR A ! 13 XOR A ! 18 XOR A ! 23"
  "lane_parity A 4 = A ! 4 XOR A ! 9 XOR A ! 14 XOR A ! 19 XOR A ! 24"
  by (simp_all add: lane_parity_def)

lemma spec_theta_parity:
  "spec_theta (lanes_of A) x y = A ! (x + 5 * y) XOR (lane_parity A ((x + 4) mod 5) XOR ROTL64 (lane_parity A ((x + 1) mod 5)) 1)"
  by (simp add: spec_theta_def lanes_of_def lane_parity_def Let_def ROTL64_rot)

lemma pi_lanes:
  "pi_lane A 0 0 = ROTL64 (A ! 0 XOR (lane_parity A 4 XOR ROTL64 (lane_parity A 1) 1)) 0"
  "pi_lane A 1 0 = ROTL64 (A ! 6 XOR (lane_parity A 0 XOR ROTL64 (lane_parity A 2) 1)) 44"
  "pi_lane A 2 0 = ROTL64 (A ! 12 XOR (lane_parity A 1 XOR ROTL64 (lane_parity A 3) 1)) 43"
  "pi_lane A 3 0 = ROTL64 (A ! 18 XOR (lane_parity A 2 XOR ROTL64 (lane_parity A 4) 1)) 21"
  "pi_lane A 4 0 = ROTL64 (A ! 24 XOR (lane_parity A 3 XOR ROTL64 (lane_parity A 0) 1)) 14"
  "pi_lane A 0 1 = ROTL64 (A ! 3 XOR (lane_parity A 2 XOR ROTL64 (lane_parity A 4) 1)) 28"
  "pi_lane A 1 1 = ROTL64 (A ! 9 XOR (lane_parity A 3 XOR ROTL64 (lane_parity A 0) 1)) 20"
  "pi_lane A 2 1 = ROTL64 (A ! 10 XOR (lane_parity A 4 XOR ROTL64 (lane_parity A 1) 1)) 3"
  "pi_lane A 3 1 = ROTL64 (A ! 16 XOR (lane_parity A 0 XOR ROTL64 (lane_parity A 2) 1)) 45"
  "pi_lane A 4 1 = ROTL64 (A ! 22 XOR (lane_parity A 1 XOR ROTL64 (lane_parity A 3) 1)) 61"
  "pi_lane A 0 2 = ROTL64 (A ! 1 XOR (lane_parity A 0 XOR ROTL64 (lane_parity A 2) 1)) 1"
  "pi_lane A 1 2 = ROTL64 (A ! 7 XOR (lane_parity A 1 XOR ROTL64 (lane_parity A 3) 1)) 6"
  "pi_lane A 2 2 = ROTL64 (A ! 13 XOR (lane_parity A 2 XOR ROTL64 (lane_parity A 4) 1)) 25"
  "pi_lane A 3 2 = ROTL64 (A ! 19 XOR (lane_parity A 3 XOR ROTL64 (lane_parity A 0) 1)) 8"
  "pi_lane A 4 2 = ROTL64 (A ! 20 XOR (lane_parity A 4 XOR ROTL64 (lane_parity A 1) 1)) 18"
  "pi_lane A 0 3 = ROTL64 (A ! 4 XOR (lane_parity A 3 XOR ROTL64 (lane_parity A 0) 1)) 27"
  "pi_lane A 1 3 = ROTL64 (A ! 5 XOR (lane_parity A 4 XOR ROTL64 (lane_parity A 1) 1)) 36"
  "pi_lane A 2 3 = ROTL64 (A ! 11 XOR (lane_parity A 0 XOR ROTL64 (lane_parity A 2) 1)) 10"
  "pi_lane A 3 3 = ROTL64 (A ! 17 XOR (lane_parity A 1 XOR ROTL64 (lane_parity A 3) 1)) 15"
  "pi_lane A 4 3 = ROTL64 (A ! 23 XOR (lane_parity A 2 XOR ROTL64 (lane_parity A 4) 1)) 56"
  "pi_lane A 0 4 = ROTL64 (A ! 2 XOR (lane_parity A 1 XOR ROTL64 (lane_parity A 3) 1)) 62"
  "pi_lane A 1 4 = ROTL64 (A ! 8 XOR (lane_parity A 2 XOR ROTL64 (lane_parity A 4) 1)) 55"
  "pi_lane A 2 4 = ROTL64 (A ! 14 XOR (lane_parity A 3 XOR ROTL64 (lane_parity A 0) 1)) 39"
  "pi_lane A 3 4 = ROTL64 (A ! 15 XOR (lane_parity A 4 XOR ROTL64 (lane_parity A 1) 1)) 41"
  "pi_lane A 4 4 = ROTL64 (A ! 21 XOR (lane_parity A 0 XOR ROTL64 (lane_parity A 2) 1)) 2"
  by (simp_all add: pi_lane_def spec_pi_def spec_rho_def spec_theta_parity rho_numerals ROTL64_rot)
    (simp_all only: Suc_1 One_nat_def [symmetric] rho_numerals)

lemma even_lanes: "KeccakF1600_even c A =
  [(pi_lane A 0 0 XOR (NOT (pi_lane A 1 0) AND pi_lane A 2 0)) XOR c,
   pi_lane A 1 0 XOR (NOT (pi_lane A 2 0) AND pi_lane A 3 0),
   pi_lane A 2 0 XOR (NOT (pi_lane A 3 0) AND pi_lane A 4 0),
   pi_lane A 3 0 XOR (NOT (pi_lane A 4 0) AND pi_lane A 0 0),
   pi_lane A 4 0 XOR (NOT (pi_lane A 0 0) AND pi_lane A 1 0),
   pi_lane A 0 1 XOR (NOT (pi_lane A 1 1) AND pi_lane A 2 1),
   pi_lane A 1 1 XOR (NOT (pi_lane A 2 1) AND pi_lane A 3 1),
   pi_lane A 2 1 XOR (NOT (pi_lane A 3 1) AND pi_lane A 4 1),
   pi_lane A 3 1 XOR (NOT (pi_lane A 4 1) AND pi_lane A 0 1),
   pi_lane A 4 1 XOR (NOT (pi_lane A 0 1) AND pi_lane A 1 1),
   pi_lane A 0 2 XOR (NOT (pi_lane A 1 2) AND pi_lane A 2 2),
   pi_lane A 1 2 XOR (NOT (pi_lane A 2 2) AND pi_lane A 3 2),
   pi_lane A 2 2 XOR (NOT (pi_lane A 3 2) AND pi_lane A 4 2),
   pi_lane A 3 2 XOR (NOT (pi_lane A 4 2) AND pi_lane A 0 2),
   pi_lane A 4 2 XOR (NOT (pi_lane A 0 2) AND pi_lane A 1 2),
   pi_lane A 0 3 XOR (NOT (pi_lane A 1 3) AND pi_lane A 2 3),
   pi_lane A 1 3 XOR (NOT (pi_lane A 2 3) AND pi_lane A 3 3),
   pi_lane A 2 3 XOR (NOT (pi_lane A 3 3) AND pi_lane A 4 3),
   pi_lane A 3 3 XOR (NOT (pi_lane A 4 3) AND pi_lane A 0 3),
   pi_lane A 4 3 XOR (NOT (pi_lane A 0 3) AND pi_lane A 1 3),
   pi_lane A 0 4 XOR (NOT (pi_lane A 1 4) AND pi_lane A 2 4),
   pi_lane A 1 4 XOR (NOT (pi_lane A 2 4) AND pi_lane A 3 4),
   pi_lane A 2 4 XOR (NOT (pi_lane A 3 4) AND pi_lane A 4 4),
   pi_lane A 3 4 XOR (NOT (pi_lane A 4 4) AND pi_lane A 0 4),
   pi_lane A 4 4 XOR (NOT (pi_lane A 0 4) AND pi_lane A 1 4)]"
  unfolding KeccakF1600_even_def Let_def pi_lanes parities rotlFixed_ROTL64 ROTL64_0 by (rule refl)

lemma even_round:
  "same_lanes (lanes_of (KeccakF1600_even c A))
    (\<lambda>x y. if x = 0 \<and> y = 0 then spec_chi (pi_lane A) 0 0 XOR c else spec_chi (pi_lane A) x y)"
  unfolding same_lanes_def all_5 even_lanes by (simp add: lanes_of_def spec_chi_def) (simp add: numeral_2_eq_2)

lemma even_length: "length (KeccakF1600_even c A) = 25"
  by (simp add: even_lanes)

lemma lanes_eqI:
  assumes "length A = 25" "length B = 25" "same_lanes (lanes_of A) (lanes_of B)"
  shows "A = B"
proof (rule nth_equalityI)
  fix i assume "i < length A"
  then have "i mod 5 < 5" "i div 5 < 5" "i mod 5 + 5 * (i div 5) = i" using assms(1) by simp_all
  with assms(3) show "A ! i = B ! i" unfolding same_lanes_def lanes_of_def by metis
qed (use assms in simp)

text \<open>A round of Crypto++ is a round of keccak.c.\<close>

lemma round_agrees:
  assumes "length A = 25" "i < 24"
  shows "KeccakF1600_even (KeccakF_RoundConstants ! i) A = keccak_round i A"
proof (rule lanes_eqI)
  have "same_lanes (lanes_of (KeccakF1600_even (KeccakF_RoundConstants ! i) A)) (spec_round i (lanes_of A))"
    using even_round [of "KeccakF_RoundConstants ! i" A] constants_ok assms(2)
    by (simp add: same_lanes_def spec_round_def spec_iota_def pi_lane_def round_constants)
  then show "same_lanes (lanes_of (KeccakF1600_even (KeccakF_RoundConstants ! i) A)) (lanes_of (keccak_round i A))"
    using round_ok(1) [OF assms] by (simp add: same_lanes_def)
qed (simp_all add: even_length round_ok(2) [OF assms])

lemma KeccakF1600_rounds_value: "length A = 25 \<Longrightarrow> KeccakF1600_rounds A = keccakf A 24"
proof -
  assume A: "length A = 25"
  define K where "K = KeccakF_RoundConstants"
  have "fold (\<lambda>round A. KeccakF1600_odd (K ! (round + 1)) (KeccakF1600_even (K ! round) A)) (map ((*) 2) [0..<n]) A =
      fold keccak_round [0..<2 * n] A \<and> length (fold keccak_round [0..<2 * n] A) = 25" if "n \<le> 12" for n
    using that
  proof (induction n)
    case (Suc n)
    let ?B = "fold keccak_round [0..<2 * n] A"
    have I: "length ?B = 25" "2 * n < 24" "2 * n + 1 < 24" using Suc by simp_all
    have r: "KeccakF1600_even (K ! i) B = keccak_round i B" if "length B = 25" "i < 24" for i B
      using round_agrees [OF that] by (simp only: K_def)
    have "KeccakF1600_odd (K ! (2 * n + 1)) (KeccakF1600_even (K ! (2 * n)) ?B) = keccak_round (Suc (2 * n)) (keccak_round (2 * n) ?B)"
      using r [OF I(1,2)] r [OF round_ok(2) [OF I(1,2)] I(3)] by (simp add: rounds_agree)
    moreover have "fold keccak_round [0..<2 * Suc n] A = keccak_round (Suc (2 * n)) (keccak_round (2 * n) ?B)"
      by simp
    moreover have "length (keccak_round (Suc (2 * n)) (keccak_round (2 * n) ?B)) = 25"
      using round_ok(2) [OF round_ok(2) [OF I(1,2)], of "Suc (2 * n)"] I(3) by simp
    ultimately show ?case using Suc by simp
  qed (simp add: A)
  from this [of 12] show ?thesis
    unfolding KeccakF1600_rounds_def keccakf_def K_def by (simp add: upt_rec del: upt_rec_numeral)
qed

section \<open>The state as bytes\<close>

lemma KeccakF1600_value: "KeccakF1600 bs = lane_bytes (keccakf (words_of_bytes bs) 24)"
  unfolding KeccakF1600_def words_of_bytes_def [symmetric] by (simp add: KeccakF1600_rounds_value)

section \<open>Blocks and what is left\<close>

definition tail_of :: "nat \<Rightarrow> u8 list \<Rightarrow> u8 list" where
  "tail_of r m = drop (r * (length m div r)) m"

lemma tail_of_simps:
  "length m < r \<Longrightarrow> tail_of r m = m"
  "0 < r \<Longrightarrow> r \<le> length m \<Longrightarrow> tail_of r m = tail_of r (drop r m)"
proof -
  assume "0 < r" "r \<le> length m"
  then have "r * (length m div r) = r + r * ((length m - r) div r)" by (simp add: le_div_geq)
  then show "tail_of r m = tail_of r (drop r m)" by (simp add: tail_of_def add.commute)
qed (simp add: tail_of_def)

lemma length_tail_of: "length (tail_of r m) = length m mod r"
  by (simp add: tail_of_def minus_mult_div_eq_mod)

lemma chunks_append:
  assumes "0 < r"
  shows "(length (tail_of r m) + length x < r \<longrightarrow> chunks r (m @ x) = chunks r m \<and> tail_of r (m @ x) = tail_of r m @ x) \<and>
    (length (tail_of r m) + length x = r \<longrightarrow> chunks r (m @ x) = chunks r m @ [tail_of r m @ x] \<and> tail_of r (m @ x) = [])"
proof (induction m rule: length_induct)
  case (1 m)
  show ?case
  proof (cases "r \<le> length m")
    case True
    then have l: "length (drop r m) < length m" using assms by simp
    have c: "chunks r m = take r m # chunks r (drop r m)" using True assms by (subst chunks.simps) simp
    have c': "chunks r (m @ x) = take r m # chunks r (drop r m @ x)" using True assms by (subst chunks.simps) simp
    have t: "tail_of r m = tail_of r (drop r m)" "tail_of r (m @ x) = tail_of r (drop r m @ x)"
      using True assms tail_of_simps(2) [of r m] tail_of_simps(2) [of r "m @ x"] by simp_all
    from "1.IH" [rule_format, OF l] show ?thesis unfolding c c' t by simp
  next
    case False
    then have t: "tail_of r m = m" "chunks r m = []" by (simp_all add: tail_of_simps chunks.simps)
    have "length (m @ x) < r \<Longrightarrow> chunks r (m @ x) = [] \<and> tail_of r (m @ x) = m @ x"
      by (simp add: tail_of_simps chunks.simps)
    moreover have "length (m @ x) = r \<Longrightarrow> chunks r (m @ x) = [m @ x] \<and> tail_of r (m @ x) = []"
    proof -
      assume l: "length (m @ x) = r"
      have "chunks r (m @ x) = take r (m @ x) # chunks r (drop r (m @ x))" using l assms by (subst chunks.simps) simp
      moreover have "chunks r (drop r (m @ x)) = []" using l assms by (simp add: chunks.simps)
      moreover have "tail_of r (m @ x) = []" using l assms length_tail_of [of r "m @ x"] by simp
      ultimately show ?thesis using l by simp
    qed
    ultimately show ?thesis unfolding t by simp
  qed
qed

lemma keccak_absorb_tail: "0 < r \<Longrightarrow> keccak_absorb r st m = (foldl (absorbed r) st (chunks r m), tail_of r m)"
proof (induction m arbitrary: st rule: length_induct)
  case (1 m)
  show ?case
  proof (cases "r \<le> length m")
    case True
    with "1.prems" have l: "length (drop r m) < length m" by simp
    have a: "absorbed r st (take r m) = absorbed r st m" by (simp only: absorbed_def xor_block_take)
    have "keccak_absorb r st m = keccak_absorb r (absorbed r st m) (drop r m)"
      using True "1.prems" by (subst keccak_absorb.simps) (simp add: absorbed_def)
    moreover have "chunks r m = take r m # chunks r (drop r m)" using True "1.prems" by (subst chunks.simps) simp
    ultimately show ?thesis
      using "1.IH" [rule_format, OF l "1.prems"] tail_of_simps(2) [OF "1.prems" True] by (simp add: a)
  next
    case False
    then show ?thesis by (simp add: keccak_absorb.simps chunks.simps tail_of_simps)
  qed
qed

section \<open>Exclusive or into the state\<close>

definition xor_front :: "u8 list \<Rightarrow> u8 list \<Rightarrow> u8 list" where
  "xor_front b st = map2 (XOR) (take (length b) st) b @ drop (length b) st"

lemma xor_front_Nil [simp]: "xor_front [] st = st"
  by (simp add: xor_front_def)

lemma length_xor_front: "length b \<le> length st \<Longrightarrow> length (xor_front b st) = length st"
  by (simp add: xor_front_def)

lemma xor_front_nth:
  "length b \<le> length st \<Longrightarrow> k < length st \<Longrightarrow> xor_front b st ! k = (if k < length b then st ! k XOR b ! k else st ! k)"
  by (simp add: xor_front_def nth_append)

lemma xorbuf_front:
  assumes "length b + length x \<le> length st"
  shows "xorbuf (length b) x (xor_front b st) = Some (xor_front (b @ x) st)"
proof -
  have "take (length b + length x) st = take (length b) st @ take (length x) (drop (length b) st)" by (rule take_add)
  then show ?thesis
    using assms by (auto simp: xorbuf_def xor_front_def length_xor_front min_def add.commute)
qed

lemma xorbuf_byte: "k < length st \<Longrightarrow> xorbuf k [v] st = Some (st[k := st ! k XOR v])"
  by (simp add: xorbuf_def upd_conv_take_nth_drop Cons_nth_drop_Suc [symmetric])

lemma take_drop_xor_front:
  assumes "length b \<le> length st"
  shows "k + n \<le> length b \<Longrightarrow> take n (drop k (xor_front b st)) = map2 (XOR) (take n (drop k st)) (take n (drop k b))"
    and "length b \<le> k \<Longrightarrow> drop k (xor_front b st) = drop k st"
  using assms by (auto simp: xor_front_def take_map drop_map take_zip drop_zip take_drop min_def intro!: nth_equalityI)

text \<open>Exclusive or of a block into the bytes is \<open>xor_block\<close> on the words.\<close>

lemma words_xor_front:
  assumes "length st = 200" "length b = r" "8 dvd r" "r \<le> 200"
  shows "words_of_bytes (xor_front b st) = xor_block (r div 8) b (words_of_bytes st)"
proof (rule nth_equalityI)
  fix i assume "i < length (words_of_bytes (xor_front b st))"
  then have i: "i < 25" by simp
  then have w: "words_of_bytes c ! i = load64 c i" for c by (simp add: words_of_bytes_def del: upt_rec_numeral)
  have le: "length b \<le> length st" using assms by simp
  show "words_of_bytes (xor_front b st) ! i = xor_block (r div 8) b (words_of_bytes st) ! i"
  proof (cases "i < r div 8")
    case True
    then have "8 * i + 8 \<le> length b" using assms(2) by linarith
    then have "take 8 (drop (8 * i) (xor_front b st)) = map2 (XOR) (take 8 (drop (8 * i) st)) (take 8 (drop (8 * i) b))"
      by (rule take_drop_xor_front(1) [OF le])
    moreover have "length (take 8 (drop (8 * i) st)) = length (take 8 (drop (8 * i) b))"
      using \<open>8 * i + 8 \<le> length b\<close> le by simp
    ultimately have "load64 (xor_front b st) i = load64 st i XOR load64 b i"
      unfolding load64_def by (simp only: le_val_xor word_of_int_xor)
    then show ?thesis using True i by (simp add: w xor_block_nth)
  next
    case False
    then have "length b \<le> 8 * i" using assms(2,3) by (auto elim: dvdE)
    then show ?thesis using False i by (simp add: w xor_block_nth load64_def take_drop_xor_front(2) [OF le])
  qed
qed simp

section \<open>The object\<close>

text \<open>The digest lengths whose rate is a whole number of words and fits the buffer of keccak.c.\<close>

definition digest_size :: "nat \<Rightarrow> bool" where
  "digest_size d \<longleftrightarrow> 28 \<le> d \<and> d < 100 \<and> 4 dvd d"

definition rate_of :: "nat \<Rightarrow> nat" where
  "rate_of d = 200 - 2 * d"

lemma rate_of: "digest_size d \<Longrightarrow> 0 < rate_of d" "digest_size d \<Longrightarrow> rate_of d \<le> 144" "digest_size d \<Longrightarrow> 8 dvd rate_of d"
  by (auto simp: digest_size_def rate_of_def elim!: dvdE)

text \<open>The words after the full blocks of a message.\<close>

definition blocks_state :: "nat \<Rightarrow> u8 list \<Rightarrow> lanes" where
  "blocks_state r m = foldl (absorbed r) (replicate 25 0) (chunks r m)"

lemma length_blocks_state [simp]: "length (blocks_state r m) = 25"
proof -
  have "length (absorbed r st b) = 25" if "length st = 25" for st b
    using that keccakf_length [of "xor_block (r div 8) b st"] by (simp add: absorbed_def)
  then have "length st = 25 \<Longrightarrow> length (foldl (absorbed r) st bs) = 25" for st bs
    by (induction bs arbitrary: st) simp_all
  then show ?thesis by (simp add: blocks_state_def)
qed

text \<open>The object that has taken the message \<open>m\<close>.\<close>

definition sha3_taken :: "nat \<Rightarrow> u8 list \<Rightarrow> sha3" where
  "sha3_taken d m =
     \<lparr>m_state = xor_front (tail_of (rate_of d) m) (lane_bytes (blocks_state (rate_of d) m)),
      m_digestSize = of_nat d, m_counter = of_nat (length (tail_of (rate_of d) m))\<rparr>"

lemma lane_bytes_200: "length st = 25 \<Longrightarrow> length (lane_bytes st) = 200"
  by (simp add: lane_bytes_length)

lemma sha3_new_taken: "digest_size d \<Longrightarrow> sha3_new (of_nat d) = sha3_taken d []"
proof -
  assume "digest_size d"
  then have t: "tail_of (rate_of d) [] = []" "chunks (rate_of d) [] = []"
    using rate_of(1) [of d] by (simp_all add: tail_of_def chunks.simps)
  have "le_bytes 8 0 = replicate 8 0" by (simp add: le_bytes_def map_replicate_const)
  then have "lane_bytes (replicate n 0) = replicate (8 * n) 0" for n
    by (induction n) (simp_all add: lane_bytes_def replicate_add [symmetric])
  then show ?thesis by (simp add: sha3_new_def sha3_Restart_def sha3_taken_def t blocks_state_def)
qed

lemma sha3_r_taken: "digest_size d \<Longrightarrow> sha3_r (sha3_taken d m) = of_nat (rate_of d)"
  by (simp add: sha3_r_def sha3_taken_def rate_of_def digest_size_def)

lemma small_unat: "n < 2 ^ 32 \<Longrightarrow> unat (of_nat n :: u32) = n"
  by (simp add: unat_of_nat take_bit_nat_eq_self)

lemma space_left:
  assumes "digest_size d"
  shows "unat (sha3_r (sha3_taken d m) - m_counter (sha3_taken d m)) = rate_of d - length (tail_of (rate_of d) m)"
    and "unat (m_counter (sha3_taken d m)) = length (tail_of (rate_of d) m)"
    and "length (tail_of (rate_of d) m) < rate_of d"
proof -
  show l: "length (tail_of (rate_of d) m) < rate_of d" using rate_of(1) [OF assms] by (simp add: length_tail_of)
  have r: "rate_of d \<le> 144" by (rule rate_of(2) [OF assms])
  show "unat (m_counter (sha3_taken d m)) = length (tail_of (rate_of d) m)"
    using l r by (simp add: sha3_taken_def small_unat)
  show "unat (sha3_r (sha3_taken d m) - m_counter (sha3_taken d m)) = rate_of d - length (tail_of (rate_of d) m)"
    unfolding sha3_r_taken [OF assms] using l r
    by (subst unat_sub) (simp_all add: sha3_taken_def small_unat word_le_nat_alt)
qed

text \<open>A full block: one permutation of Crypto++.\<close>

lemma full_block:
  assumes "digest_size d" "length b = rate_of d" "length st = 25"
  shows "KeccakF1600 (xor_front b (lane_bytes st)) = lane_bytes (absorbed (rate_of d) st b)"
proof -
  have "words_of_bytes (xor_front b (lane_bytes st)) = xor_block (rate_of d div 8) b st"
    using words_xor_front [of "lane_bytes st" b "rate_of d"] rate_of [OF assms(1)] assms(2,3)
    by (simp add: lane_bytes_200 words_lane_bytes)
  then show ?thesis by (simp only: KeccakF1600_value absorbed_def)
qed

lemma Update_taken:
  assumes "digest_size d"
  shows "sha3_Update inp (sha3_taken d m) = Some (sha3_taken d (m @ inp))"
proof (induction inp arbitrary: m rule: length_induct)
  case (1 inp)
  let ?r = "rate_of d" and ?h = "sha3_taken d m" and ?t = "tail_of (rate_of d) m"
  note sp = space_left [OF assms, of m]
  have r: "0 < ?r" "?r \<le> 144" by (rule rate_of [OF assms])+
  have r0: "sha3_r ?h \<noteq> 0" unfolding sha3_r_taken [OF assms] using r small_unat [of ?r] by (auto simp: unat_eq_0)
  have fit: "length ?t + length x \<le> length (lane_bytes (blocks_state ?r m))" if "length ?t + length x \<le> ?r" for x :: "u8 list"
    using that r by (simp add: lane_bytes_200)
  show ?case
  proof (cases "?r - length ?t \<le> length inp")
    case True
    let ?x = "take (?r - length ?t) inp"
    have lx: "length ?t + length ?x = ?r" using True sp(3) by simp
    have c: "chunks ?r (m @ ?x) = chunks ?r m @ [?t @ ?x]" "tail_of ?r (m @ ?x) = []"
      using chunks_append [OF r(1), of m ?x] lx by simp_all
    have k: "KeccakF1600 (xor_front (?t @ ?x) (lane_bytes (blocks_state ?r m))) = lane_bytes (blocks_state ?r (m @ ?x))"
    proof -
      have "blocks_state ?r (m @ ?x) = absorbed ?r (blocks_state ?r m) (?t @ ?x)" by (simp add: blocks_state_def c)
      then show ?thesis using full_block [OF assms, of "?t @ ?x" "blocks_state ?r m"] lx by simp
    qed
    have x: "xorbuf (unat (m_counter ?h)) ?x (m_state ?h) = Some (xor_front (?t @ ?x) (lane_bytes (blocks_state ?r m)))"
      unfolding sp(2) using xorbuf_front [OF fit, of ?x] lx by (simp add: sha3_taken_def)
    have h: "?h\<lparr>m_state := lane_bytes (blocks_state ?r (m @ ?x)), m_counter := 0\<rparr> = sha3_taken d (m @ ?x)"
      by (simp add: sha3_taken_def c(2))
    have l: "length (drop (?r - length ?t) inp) < length inp" using True sp(3) by simp
    have "sha3_Update inp ?h = sha3_Update (drop (?r - length ?t) inp) (sha3_taken d (m @ ?x))"
      using True r0 x by (subst sha3_Update.simps) (simp add: sp(1) k h Let_def)
    also have "\<dots> = Some (sha3_taken d ((m @ ?x) @ drop (?r - length ?t) inp))" by (rule "1.IH" [rule_format, OF l])
    finally show ?thesis by simp
  next
    case False
    then have l: "length ?t + length inp < ?r" by linarith
    from chunks_append [OF r(1), of m inp] l have c: "chunks ?r (m @ inp) = chunks ?r m" "tail_of ?r (m @ inp) = ?t @ inp" by simp_all
    have x: "xorbuf (unat (m_counter ?h)) inp (m_state ?h) = Some (xor_front (?t @ inp) (lane_bytes (blocks_state ?r m)))"
      unfolding sp(2) using xorbuf_front [OF fit, of inp] l by (simp add: sha3_taken_def)
    show ?thesis
      using False r0 x by (subst sha3_Update.simps) (simp add: sp(1) Let_def, simp add: sha3_taken_def c blocks_state_def)
  qed
qed

lemma Final_taken:
  assumes "digest_size d"
  shows "sha3_TruncatedFinal d (sha3_taken d m) =
    Some (take d (lane_bytes (absorbed (rate_of d) (blocks_state (rate_of d) m) (keccak_last (rate_of d) (tail_of (rate_of d) m)))), sha3_new (of_nat d))"
proof -
  let ?r = "rate_of d" and ?h = "sha3_taken d m" and ?t = "tail_of (rate_of d) m"
  let ?S = "lane_bytes (blocks_state ?r m)"
  note sp = space_left [OF assms, of m]
  have r: "0 < ?r" "?r \<le> 144" by (rule rate_of [OF assms])+
  have S: "length ?S = 200" by (simp add: lane_bytes_200)
  have one: "xorbuf (unat (m_counter ?h)) [1] (m_state ?h) = Some (xor_front (?t @ [1]) ?S)"
    unfolding sp(2) using xorbuf_front [of ?t "[1]" ?S] sp(3) r S by (simp add: sha3_taken_def)
  have Z: "length (xor_front (?t @ [1]) ?S) = 200" using sp(3) r S by (simp add: length_xor_front)
  have u: "unat (sha3_r ?h - 1) = ?r - 1"
    unfolding sha3_r_taken [OF assms] using r by (subst unat_sub) (simp_all add: small_unat word_le_nat_alt)
  have L: "length (keccak_last ?r ?t) = ?r" using sp(3) by (simp add: keccak_last_def Let_def)
  have or: "(1 :: u8) XOR 0x80 = 1 OR 0x80" "(0 :: u8) XOR 0x80 = 0 OR 0x80" by simp_all
  have K: "(xor_front (?t @ [1]) ?S)[?r - 1 := xor_front (?t @ [1]) ?S ! (?r - 1) XOR 0x80] = xor_front (keccak_last ?r ?t) ?S"
  proof (rule nth_equalityI)
    fix k assume "k < length ((xor_front (?t @ [1]) ?S)[?r - 1 := xor_front (?t @ [1]) ?S ! (?r - 1) XOR 0x80])"
    then have k: "k < 200" using Z by simp
    have kl: "keccak_last ?r ?t ! k = (if k < length ?t then ?t ! k else if k = length ?t then (if k = ?r - 1 then 1 OR 0x80 else 1)
        else if k = ?r - 1 then 0x80 else 0)" if "k < ?r"
      using that sp(3) by (auto simp: keccak_last_def Let_def nth_append nth_list_update nth_Cons')
    show "(xor_front (?t @ [1]) ?S)[?r - 1 := xor_front (?t @ [1]) ?S ! (?r - 1) XOR 0x80] ! k = xor_front (keccak_last ?r ?t) ?S ! k"
      using k kl sp(3) r S L Z by (auto simp: nth_list_update xor_front_nth nth_append xor.assoc)
  qed (use Z L r S in \<open>simp add: length_xor_front\<close>)
  have two: "xorbuf (unat (sha3_r ?h - 1)) [0x80] (xor_front (?t @ [1]) ?S) = Some (xor_front (keccak_last ?r ?t) ?S)"
    unfolding u using xorbuf_byte [of "?r - 1" "xor_front (?t @ [1]) ?S" "0x80"] Z r K by simp
  have "unat (m_digestSize ?h) = d" using assms by (simp add: sha3_taken_def small_unat digest_size_def)
  moreover have "sha3_Restart (?h\<lparr>m_state := st\<rparr>) = sha3_new (of_nat d)" for st
    by (simp add: sha3_Restart_def sha3_new_def sha3_taken_def)
  ultimately show ?thesis
    using one two full_block [OF assms L, of "blocks_state ?r m"] by (simp add: sha3_TruncatedFinal_def)
qed

text \<open>That is the digest of keccak.c.\<close>

lemma keccak_blocks:
  assumes "digest_size d" "length m < 2 ^ 31"
  shows "keccak m (int (length m)) (int d) =
    Some (take d (lane_bytes (absorbed (rate_of d) (blocks_state (rate_of d) m) (keccak_last (rate_of d) (tail_of (rate_of d) m)))))"
proof -
  have "int d \<noteq> 200" "200 - 2 * int d = int (rate_of d)" "int (rate_of d) \<le> 144" "\<not> int (rate_of d) \<le> 0"
    using assms(1) rate_of [OF assms(1)] by (auto simp: digest_size_def rate_of_def)
  then show ?thesis
    using keccak_absorb_tail [OF rate_of(1) [OF assms(1)], of "replicate 25 0" m]
    by (simp add: keccak_def Let_def absorbed_def blocks_state_def del: replicate.simps)
qed

text \<open>A message in pieces.\<close>

fun sha3_feed :: "u8 list list \<Rightarrow> sha3 \<Rightarrow> sha3 option" where
  "sha3_feed [] h = Some h"
| "sha3_feed (x # xs) h = Option.bind (sha3_Update x h) (sha3_feed xs)"

lemma feed_taken: "digest_size d \<Longrightarrow> sha3_feed xs (sha3_taken d m) = Some (sha3_taken d (m @ concat xs))"
  by (induction xs arbitrary: m) (simp_all add: Update_taken)

text \<open>C29: The two Keccak implementations of the program agree: for every digest length divisible by 4 from 28 to 96 and every
  way to cut a message into pieces, feeding the pieces to a new \<open>SHA3\<close> object of Crypto++, with its rounds unrolled in
  pairs, and closing it gives the digest that \<open>keccak\<close> of keccak.c computes of the whole message, and leaves the object as
  new.\<close>

theorem sha3_agrees_with_keccak:
  assumes "28 \<le> d" "d < 100" "4 dvd d" "length (concat pieces) < 2 ^ 31"
  shows "\<exists>h digest. sha3_feed pieces (sha3_new (of_nat d)) = Some h \<and>
    sha3_TruncatedFinal d h = Some (digest, sha3_new (of_nat d)) \<and> length digest = d \<and>
    keccak (concat pieces) (int (length (concat pieces))) (int d) = Some digest"
proof -
  have d: "digest_size d" using assms by (simp add: digest_size_def)
  have "length (lane_bytes (absorbed r (blocks_state r m) b)) = 200" for r m b
    using keccakf_length by (simp add: absorbed_def lane_bytes_200)
  then show ?thesis
    using feed_taken [OF d, of pieces "[]"] Final_taken [OF d, of "concat pieces"] keccak_blocks [OF d assms(4)] assms(2)
    by (simp add: sha3_new_taken [OF d, symmetric])
qed

theorem sha3_agrees_with_keccak_witness:
  "\<exists>h digest. sha3_feed [replicate 100 1, [2, 3], replicate 70 4] (sha3_new 32) = Some h \<and>
    sha3_TruncatedFinal 32 h = Some (digest, sha3_new 32) \<and> length digest = 32 \<and>
    keccak (replicate 100 1 @ [2, 3] @ replicate 70 4) 172 32 = Some digest"
  using sha3_agrees_with_keccak [of 32 "[replicate 100 1, [2, 3], replicate 70 4]"] by simp

lemma CalculateDigest_value:
  assumes "digest_size d" "length m < 2 ^ 31"
  shows "\<exists>digest. sha3_CalculateDigest m (sha3_new (of_nat d)) = Some (digest, sha3_new (of_nat d)) \<and>
    length digest = d \<and> keccak m (int (length m)) (int d) = Some digest"
proof -
  have "length (lane_bytes (absorbed r (blocks_state r m) b)) = 200" for r m b
    using keccakf_length by (simp add: absorbed_def lane_bytes_200)
  moreover have "unat (m_digestSize (sha3_taken d m)) = d" using assms(1) by (simp add: sha3_taken_def small_unat digest_size_def)
  ultimately show ?thesis
    using Update_taken [OF assms(1), of m "[]"] Final_taken [OF assms(1), of m] keccak_blocks [OF assms] assms(1)
    by (simp add: sha3_CalculateDigest_def sha3_new_taken [OF assms(1), symmetric] digest_size_def)
qed

end
