(* ===== verification/Ethash_Proofs.thy ===== *)
theory Ethash_Proofs
  imports Ethash Sha3_Proofs
begin

text \<open>
  A miner that has the DAG and a verifier that has only the cache compute the same hash: both take their nodes
  through one interface, and the DAG holds at every index what the cache gives there. The verifier, however, reads each
  node after the end of the block of \<open>tmp_node\<close>, so that this holds for compilers that leave it in storage, while its
  hash is undefined by the standard. The hash succeeds on every well-formed source, its final part is what the quick
  check recomputes, and the difficulty check compares numbers.
\<close>

section \<open>Hashes and nodes\<close>

text \<open>What libethash relies on in its hash functions: digests of 32 and 64 bytes for every input.\<close>

locale sha3_functions =
  fixes H256 H512 :: "u8 list \<Rightarrow> u8 list option"
  assumes digest_256: "length m < 2 ^ 31 \<Longrightarrow> \<exists>h. H256 m = Some h \<and> length h = 32"
    and digest_512: "length m < 2 ^ 31 \<Longrightarrow> \<exists>h. H512 m = Some h \<and> length h = 64"
begin

lemma iterate_256: "\<exists>h. fold_opt (\<lambda>ret _. H256 ret) s xs = Some h \<and> length h = 32" if "length s = 32"
  using that
proof (induction xs arbitrary: s)
  case (Cons x xs)
  with digest_256 [of s] show ?case by auto
qed simp

end

interpretation sha3: sha3_functions SHA3_256 SHA3_512
proof
  fix m :: "u8 list" assume m: "length m < 2 ^ 31"
  show "\<exists>h. SHA3_256 m = Some h \<and> length h = 32"
    using CalculateDigest_value [of 32 m] m by (auto simp: SHA3_256_def digest_size_def)
  show "\<exists>h. SHA3_512 m = Some h \<and> length h = 64"
    using CalculateDigest_value [of 64 m] m by (auto simp: SHA3_512_def digest_size_def)
qed

lemma length_node_bytes [simp]: "length (node_bytes ws) = 4 * length ws"
  by (simp add: node_bytes_def length_concat comp_def sum_list_triv)

lemma length_node_words [simp]: "length (node_words bs) = length bs div 4"
  by (simp add: node_words_def)

text \<open>The two views of a node are inverse to each other.\<close>

lemma node_bytes_words: "4 dvd length bs \<Longrightarrow> node_bytes (node_words bs) = bs"
proof (rule nth_equalityI)
  assume d: "4 dvd length bs"
  then show "length (node_bytes (node_words bs)) = length bs" by simp
  fix n assume "n < length (node_bytes (node_words bs))"
  with d have n: "n < length bs" by simp
  let ?i = "n div 4" and ?j = "n mod 4"
  obtain q where q: "length bs = 4 * q" using d by (auto elim: dvdE)
  with n have i: "?i < q" "?j < 4" "4 * ?i + ?j = n" by simp_all
  then have l: "length (take 4 (drop (4 * ?i) bs)) = 4" using q by simp
  have "le_val (take 4 (drop (4 * ?i) bs)) < 256 ^ 4" using le_val_less [of "take 4 (drop (4 * ?i) bs)"] l by simp
  then have u: "uint (word_of_int (le_val (take 4 (drop (4 * ?i) bs))) :: u32) = le_val (take 4 (drop (4 * ?i) bs))"
    by (simp add: unsigned_of_int take_bit_int_eq_self)
  have "node_bytes (node_words bs) ! n = le_bytes 4 (uint (node_words bs ! ?i)) ! ?j"
    unfolding node_bytes_def using n q by (intro nth_concat_map) simp_all
  also have "node_words bs ! ?i = word_of_int (le_val (take 4 (drop (4 * ?i) bs)))"
    using i(1) q by (simp add: node_words_def)
  also have "le_bytes 4 (uint \<dots>) = take 4 (drop (4 * ?i) bs)" unfolding u by (rule le_bytes_le_val [OF l])
  also have "\<dots> ! ?j = bs ! n" using i q by simp
  finally show "node_bytes (node_words bs) ! n = bs ! n" .
qed

lemma sha512_node: "length bs < 2 ^ 31 \<Longrightarrow> \<exists>h. SHA3_512 bs = Some h \<and> length h = 64 \<and> sha512_node bs = Some (node_words h) \<and> length (node_words h) = 16"
  using sha3.digest_512 [of bs] by (auto simp: sha512_node_def)

lemma sha512_node_length: "length bs < 2 ^ 31 \<Longrightarrow> \<exists>n. sha512_node bs = Some n \<and> length n = 16"
  using sha512_node by blast

text \<open>A loop that preserves an invariant and never fails.\<close>

lemma fold_opt_invariant:
  assumes "P s" "\<And>s x. P s \<Longrightarrow> x \<in> set xs \<Longrightarrow> \<exists>t. f s x = Some t \<and> P t"
  shows "\<exists>t. fold_opt f s xs = Some t \<and> P t"
  using assms
proof (induction xs arbitrary: s)
  case (Cons x xs)
  from Cons.prems(2) [OF Cons.prems(1), of x] obtain t where "f s x = Some t" "P t" by auto
  with Cons.IH [of t] Cons.prems(2) show ?case by auto
qed simp

section \<open>The cache\<close>

definition nodes_ok :: "node list \<Rightarrow> bool" where
  "nodes_ok nodes \<longleftrightarrow> (\<forall>n\<in>set nodes. length n = 16)"

lemma node_at_ok: "nodes_ok nodes \<Longrightarrow> i < length nodes \<Longrightarrow> \<exists>n. node_at nodes i = Some n \<and> length n = 16"
  by (auto simp: node_at_def nodes_ok_def)

text \<open>A light client whose cache has the announced size.\<close>

definition light_ok :: "ethash_light \<Rightarrow> bool" where
  "light_ok light \<longleftrightarrow> nodes_ok (cache light) \<and> length (cache light) = unat (ucast (cache_size light div 64) :: u32) \<and>
     0 < length (cache light)"

lemma cache_chain_ok:
  "nodes_ok nodes \<Longrightarrow> nodes \<noteq> [] \<Longrightarrow> \<exists>ns. cache_chain k nodes = Some ns \<and> nodes_ok ns \<and> length ns = length nodes + k"
proof (induction k arbitrary: nodes)
  case (Suc k)
  have "length (last nodes) = 16" using Suc.prems by (auto simp: nodes_ok_def)
  then obtain n where n: "sha512_node (node_bytes (last nodes)) = Some n" "length n = 16"
    using sha512_node_length [of "node_bytes (last nodes)"] by auto
  have "nodes_ok (nodes @ [n])" using Suc.prems n by (simp add: nodes_ok_def)
  with Suc.IH [of "nodes @ [n]"] n show ?case by auto
qed simp

lemma unat_mod_less: "0 < c \<Longrightarrow> unat (x mod c) < unat (c :: u32)"
  by (simp add: unat_mod word_less_nat_alt unat_gt_0)

lemma cache_mix_ok:
  assumes "nodes_ok nodes" "length nodes = unat c" "0 < unat c" "i < unat c"
  shows "\<exists>ns. cache_mix c nodes i = Some ns \<and> nodes_ok ns \<and> length ns = unat c"
proof -
  have c: "0 < c" using assms(3) by (simp add: word_less_nat_alt)
  obtain a where a: "node_at nodes i = Some a" using node_at_ok [OF assms(1)] assms by auto
  obtain b where b: "node_at nodes (unat (a ! 0 mod c)) = Some b" "length b = 16"
    using node_at_ok [OF assms(1), of "unat (a ! 0 mod c)"] unat_mod_less [OF c] assms(2) by auto
  obtain d where d: "node_at nodes (unat ((c - 1 + of_nat i) mod c)) = Some d" "length d = 16"
    using node_at_ok [OF assms(1), of "unat ((c - 1 + of_nat i) mod c)"] unat_mod_less [OF c] assms(2) by auto
  obtain n where n: "sha512_node (node_bytes (map2 (XOR) d b)) = Some n" "length n = 16"
    using sha512_node_length [of "node_bytes (map2 (XOR) d b)"] b d by auto
  have "nodes_ok (nodes[i := n])"
    using assms(1) n set_update_subset_insert [of nodes i n] by (auto simp: nodes_ok_def)
  with a b d n assms show ?thesis by (simp add: cache_mix_def)
qed

lemma compute_cache_ok:
  assumes "csize mod 64 = 0" "ucast (csize div 64) \<noteq> (0 :: u32)" "length seed = 32"
  shows "\<exists>nodes. ethash_compute_cache_nodes csize seed = Some (True, nodes) \<and> nodes_ok nodes \<and>
    length nodes = unat (ucast (csize div 64) :: u32)"
proof -
  let ?c = "ucast (csize div 64) :: u32"
  have c: "0 < unat ?c" using assms(2) by (simp add: unat_gt_0)
  obtain n0 where n0: "sha512_node seed = Some n0" "length n0 = 16" using sha512_node_length [of seed] assms(3) by auto
  from cache_chain_ok [of "[n0]" "unat ?c - 1"] n0(2) obtain ns where
    ns: "cache_chain (unat ?c - 1) [n0] = Some ns" "nodes_ok ns" "length ns = unat ?c" using c by (auto simp: nodes_ok_def)
  define P where "P ns \<longleftrightarrow> nodes_ok ns \<and> length ns = unat ?c" for ns
  have "\<exists>t. fold_opt (\<lambda>nodes _. fold_opt (cache_mix ?c) nodes [0..<unat ?c]) ns [0..<ETHASH_CACHE_ROUNDS] = Some t \<and> P t"
  proof (rule fold_opt_invariant)
    show "P ns" using ns by (simp add: P_def)
    show "\<exists>t. fold_opt (cache_mix ?c) s [0..<unat ?c] = Some t \<and> P t" if "P s" for s and x :: nat
    proof (rule fold_opt_invariant [where P = P, OF that])
      show "\<exists>t. cache_mix ?c s x = Some t \<and> P t" if "P s" "x \<in> set [0..<unat ?c]" for s x
        using cache_mix_ok [of s ?c x] that c by (auto simp: P_def)
    qed
  qed
  then show ?thesis
    using assms(1,2) n0 ns by (auto simp: ethash_compute_cache_nodes_def Let_def P_def)
qed

section \<open>Items of the DAG\<close>

lemma dag_item_ok:
  assumes "light_ok light"
  shows "\<exists>n. ethash_calculate_dag_item i light = Some n \<and> length n = 16"
proof -
  let ?c = "ucast (cache_size light div 64) :: u32"
  have L: "nodes_ok (cache light)" "length (cache light) = unat ?c" "0 < unat ?c" using assms by (auto simp: light_ok_def simp del: length_greater_0_conv)
  then have c: "0 < ?c" by (simp add: word_less_nat_alt)
  then have c0: "?c \<noteq> 0" by auto
  obtain r where r: "node_at (cache light) (unat (i mod ?c)) = Some r" "length r = 16"
    using node_at_ok [OF L(1), of "unat (i mod ?c)"] unat_mod_less [OF c] L(2) by auto
  obtain s where s: "sha512_node (node_bytes (r[0 := r ! 0 XOR i])) = Some s" "length s = 16"
    using sha512_node_length [of "node_bytes (r[0 := r ! 0 XOR i])"] r by auto
  have "\<exists>t. fold_opt (dag_parent i ?c (cache light)) s [0..<ETHASH_DATASET_PARENTS] = Some t \<and> length t = 16"
  proof (rule fold_opt_invariant)
    show "\<exists>t. dag_parent i ?c (cache light) u k = Some t \<and> length t = 16" if "length u = 16" for u k
    proof -
      let ?p = "unat (fnv_hash (i XOR of_nat k) (u ! (k mod NODE_WORDS)) mod ?c)"
      obtain p where "node_at (cache light) ?p = Some p" "length p = 16"
        using node_at_ok [OF L(1), of ?p] unat_mod_less [OF c] L(2) by auto
      with that show ?thesis by (simp add: dag_parent_def)
    qed
  qed (rule s(2))
  then obtain t where t: "fold_opt (dag_parent i ?c (cache light)) s [0..<ETHASH_DATASET_PARENTS] = Some t" "length t = 16" by blast
  obtain n where "sha512_node (node_bytes t) = Some n" "length n = 16"
    using sha512_node_length [of "node_bytes t"] t by auto
  with r s t c0 show ?thesis by (simp add: ethash_calculate_dag_item_def Let_def)
qed

definition dag_item :: "ethash_light \<Rightarrow> nat \<Rightarrow> node" where
  "dag_item light i = the (ethash_calculate_dag_item (of_nat i) light)"

lemma dag_item: "light_ok light \<Longrightarrow> ethash_calculate_dag_item (of_nat i) light = Some (dag_item light i)"
  "light_ok light \<Longrightarrow> length (dag_item light i) = 16"
  using dag_item_ok [of light "of_nat i"] by (auto simp: dag_item_def)

text \<open>A callback that never asks to stop, and with which the progress step is not 0.\<close>

definition callback_ok :: "(u32 \<Rightarrow> bool) option \<Rightarrow> u32 \<Rightarrow> bool" where
  "callback_ok callback max_n \<longleftrightarrow> (case callback of None \<Rightarrow> True | Some f \<Rightarrow> max_n div 100 \<noteq> 0 \<and> (\<forall>n. \<not> f n))"

lemma full_data_loop_ok:
  assumes "light_ok light" "callback_ok callback max_n"
  shows "full_data_loop light callback max_n k (of_nat n) acc = Some (True, acc @ map (dag_item light) [n..<n + k])"
proof (induction k arbitrary: n acc)
  case (Suc k)
  have "[n..<n + Suc k] = n # [Suc n..<Suc n + k]" by (simp add: upt_rec)
  moreover have "(of_nat n + 1 :: u32) = of_nat (Suc n)" by simp
  ultimately show ?case
    using assms(2) Suc.IH [of "Suc n" "acc @ [dag_item light n]"] dag_item(1) [OF assms(1), of n]
    by (auto simp: callback_ok_def simp del: of_nat_Suc split: option.splits)
qed simp

section \<open>Where the nodes come from\<close>

text \<open>The interface between the hash and its source of nodes: a source that is good for a number of pages gives two
  nodes of 16 words for every page.\<close>

locale dag_source =
  fixes good :: "'d \<Rightarrow> u32 \<Rightarrow> bool" and nodes :: "'d \<Rightarrow> u32 \<Rightarrow> nat \<Rightarrow> node option"
  assumes available: "good d pages \<Longrightarrow> index < pages \<Longrightarrow> n < 2 \<Longrightarrow> \<exists>w. nodes d index n = Some w \<and> length w = 16"
begin

lemma mix_access_ok:
  assumes "good d pages" "0 < pages" "length mix = 32"
  shows "\<exists>t. mix_access (nodes d) pages s0 mix i = Some t \<and> length t = 32"
proof -
  let ?x = "fnv_hash (s0 XOR of_nat i) (mix ! (i mod MIX_WORDS)) mod pages"
  have x: "?x < pages" using assms(2) by (rule word_mod_less_divisor)
  obtain w0 w1 where "nodes d ?x 0 = Some w0" "length w0 = 16" "nodes d ?x 1 = Some w1" "length w1 = 16"
    using available [OF assms(1) x, of 0] available [OF assms(1) x, of 1] by auto
  then show ?thesis using assms(3) by (simp add: mix_access_def Let_def NODE_WORDS_def)
qed

text \<open>The hash succeeds, and the quick hash recomputes its result from its second part.\<close>

lemma hash_value:
  assumes "good d (ucast (full_size div 128))" "full_size mod 32 = 0" "ucast (full_size div 128) \<noteq> (0 :: u32)" "length header = 32"
  shows "\<exists>r m. ethash_hash_with (nodes d) full_size header nonce = Some (True, r, m) \<and> length r = 32 \<and> length m = 32 \<and>
    ethash_quick_hash header nonce m = Some r"
proof -
  let ?p = "ucast (full_size div 128) :: u32" and ?s = "take 32 header @ le_bytes 8 (uint nonce)"
  have p: "0 < ?p" using assms(3) by (simp add: word_greater_zero_iff)
  obtain h where h: "SHA3_512 ?s = Some h" "length h = 64" "sha512_node ?s = Some (node_words h)"
    using sha512_node [of ?s] assms(4) by auto
  let ?mix = "map (\<lambda>w. node_words h ! (w mod NODE_WORDS)) [0..<MIX_WORDS]"
  have "\<exists>t. fold_opt (mix_access (nodes d) ?p (node_words h ! 0)) ?mix [0..<ETHASH_ACCESSES] = Some t \<and> length t = 32"
    by (rule fold_opt_invariant) (use mix_access_ok [OF assms(1) p] in \<open>simp_all add: MIX_WORDS_def\<close>)
  then obtain t where t: "fold_opt (mix_access (nodes d) ?p (node_words h ! 0)) ?mix [0..<ETHASH_ACCESSES] = Some t" "length t = 32" by blast
  have "length (compress_mix t) = 32" by (simp add: compress_mix_def Let_def t(2))
  then have m: "length (take 32 (node_bytes (compress_mix t))) = 32" by simp
  have b: "node_bytes (node_words h) = h" using h(2) by (simp add: node_bytes_words)
  obtain r where r: "SHA3_256 (h @ take 32 (node_bytes (compress_mix t))) = Some r" "length r = 32"
    using sha3.digest_256 [of "h @ take 32 (node_bytes (compress_mix t))"] h(2) m by auto
  have "ethash_hash_with (nodes d) full_size header nonce = Some (True, r, take 32 (node_bytes (compress_mix t)))"
    using assms(2,3) h(3) t(1) r(1) by (simp add: ethash_hash_with_def Let_def MIX_WORDS_def b)
  moreover have "ethash_quick_hash header nonce (take 32 (node_bytes (compress_mix t))) = Some r"
    using h(1) r(1) by (simp add: ethash_quick_hash_def)
  ultimately show ?thesis using r(2) m by blast
qed

end

text \<open>The cache as a source, and the DAG as a source.\<close>

abbreviation no_light :: ethash_light where
  "no_light \<equiv> \<lparr>cache = [], cache_size = 0, block_number = 0\<rparr>"

definition full_ok :: "ethash_full \<Rightarrow> u32 \<Rightarrow> bool" where
  "full_ok full pages \<longleftrightarrow> nodes_ok (data full) \<and> unat pages < 2 ^ 31 \<and> 2 * unat pages \<le> length (data full)"

interpretation light_source: dag_source "\<lambda>light pages. light_ok light" "dag_node storage_kept None"
proof
  fix light :: ethash_light and pages index :: u32 and n :: nat
  assume "light_ok light"
  then obtain w where "ethash_calculate_dag_item (index * of_nat MIX_NODES + of_nat n) light = Some w" "length w = 16"
    using dag_item_ok by blast
  then show "\<exists>w. dag_node storage_kept None light index n = Some w \<and> length w = 16"
    by (simp add: dag_node_def storage_kept_def)
qed

lemma page_index:
  assumes "unat pages < 2 ^ 31" "index < pages" "n < 2"
  shows "unat (2 * index + of_nat n :: u32) = 2 * unat index + n"
proof -
  have "unat index < unat pages" using assms(2) by (simp add: word_less_nat_alt)
  then have "2 * unat index + n < 2 ^ 32" using assms(1,3) by simp
  moreover have "unat (of_nat n :: u32) = n" using assms(3) by (simp add: small_unat)
  ultimately show ?thesis by (simp add: unat_word_ariths)
qed

interpretation full_source: dag_source full_ok "\<lambda>full. dag_node standard_c (Some (data full)) no_light"
proof
  fix full :: ethash_full and pages index :: u32 and n :: nat
  assume a: "full_ok full pages" "index < pages" "n < 2"
  then have "2 * unat index + n < length (data full)"
    by (auto simp: full_ok_def word_less_nat_alt)
  with a show "\<exists>w. dag_node standard_c (Some (data full)) no_light index n = Some w \<and> length w = 16"
    using page_index [of pages index n] node_at_ok [of "data full"]
    by (auto simp: full_ok_def dag_node_def MIX_NODES_def)
qed

text \<open>Two sources with the same nodes give the same hash.\<close>

lemma hash_with_cong:
  assumes "\<And>index n. index < ucast (full_size div 128) \<Longrightarrow> n < 2 \<Longrightarrow> f index n = g index n"
  shows "ethash_hash_with f full_size header nonce = ethash_hash_with g full_size header nonce"
proof -
  define pages :: u32 where "pages = ucast (full_size div 128)"
  have four: "full_size div (4 * of_nat MIX_WORDS) = full_size div 128" by (simp add: MIX_WORDS_def)
  show ?thesis
  proof (cases "pages = 0")
    case True
    then show ?thesis unfolding ethash_hash_with_def four pages_def [symmetric] Let_def by simp
  next
    case False
    then have p: "0 < pages" by (simp add: word_greater_zero_iff)
    have a: "index < pages \<Longrightarrow> n < 2 \<Longrightarrow> f index n = g index n" for index n using assms by (simp only: pages_def)
    have "mix_access f pages s0 mix i = mix_access g pages s0 mix i" for s0 mix i
      using a [OF word_mod_less_divisor [OF p], of 0] a [OF word_mod_less_divisor [OF p], of 1]
      by (simp add: mix_access_def Let_def)
    then have e: "mix_access f pages = mix_access g pages" by (intro ext)
    show ?thesis unfolding ethash_hash_with_def four pages_def [symmetric] Let_def e by (rule refl)
  qed
qed

section \<open>The properties of the hash\<close>

text \<open>What the DAG sizes of the program satisfy: a positive multiple of a page, with fewer than \<open>2^32\<close> nodes.\<close>

definition dag_size_ok :: "u64 \<Rightarrow> bool" where
  "dag_size_ok full_size \<longleftrightarrow> full_size mod 128 = 0 \<and> 0 < full_size \<and> full_size < 2 ^ 38"

lemma dag_size_facts:
  assumes "dag_size_ok full_size"
  shows "full_size mod 64 = 0" "full_size mod 32 = 0" "ucast (full_size div 128) \<noteq> (0 :: u32)"
    "unat (ucast (full_size div 64) :: u32) = 2 * unat (ucast (full_size div 128) :: u32)"
    "unat (ucast (full_size div 128) :: u32) < 2 ^ 31"
proof -
  have m: "unat full_size mod 128 = 0" using assms by (simp add: dag_size_ok_def word_unat_eq_iff unat_mod)
  then obtain q where q: "unat full_size = 128 * q" by (auto elim: dvdE simp: dvd_eq_mod_eq_0 [symmetric])
  have l: "0 < unat full_size" "unat full_size < 2 ^ 38"
    using assms by (simp_all add: dag_size_ok_def word_less_nat_alt)
  have u: "unat (ucast (full_size div 128) :: u32) = q" "unat (ucast (full_size div 64) :: u32) = 2 * q"
    using l by (simp_all add: unat_div q take_bit_nat_eq_self unsigned_ucast_eq)
  show "full_size mod 64 = 0" "full_size mod 32 = 0"
    using mod_mult_right_eq [of 2 "64 * q" 64] by (simp_all add: word_unat_eq_iff unat_mod q mod_mult_left_eq)
  show "ucast (full_size div 128) \<noteq> (0 :: u32)" using u(1) l q by (auto simp: word_unat_eq_iff)
  show "unat (ucast (full_size div 64) :: u32) = 2 * unat (ucast (full_size div 128) :: u32)" using u by simp
  show "unat (ucast (full_size div 128) :: u32) < 2 ^ 31" using u(1) l q by simp
qed

lemma full_data_ok:
  assumes "dag_size_ok full_size" "light_ok light" "callback_ok callback (ucast (full_size div 64))"
  shows "ethash_compute_full_data full_size light callback =
    Some (True, map (dag_item light) [0..<2 * unat (ucast (full_size div 128) :: u32)])"
  using full_data_loop_ok [OF assms(2,3), of _ 0 "[]"] dag_size_facts [OF assms(1)] assms(1)
  by (simp add: ethash_compute_full_data_def MIX_WORDS_def dag_size_ok_def)

text \<open>The light client of the standard: the first node that its hash takes from the cache is read after its block.\<close>

lemma light_hash_undefined:
  assumes "full_size mod 32 = 0"
  shows "ethash_light_compute_internal standard_c light full_size header nonce = None"
proof -
  have "dag_node standard_c None light index n = None" for index n
    by (simp add: dag_node_def standard_c_def split: bind_splits)
  then have "mix_access (dag_node standard_c None light) pages s0 mix i = None" for pages s0 mix i
    by (simp add: mix_access_def Let_def)
  moreover have "[0..<ETHASH_ACCESSES] = 0 # [1..<ETHASH_ACCESSES]" by (simp add: ETHASH_ACCESSES_def upt_conv_Cons)
  ultimately have "fold_opt (mix_access (dag_node standard_c None light) pages s0) mix [0..<ETHASH_ACCESSES] = None" for pages s0 mix
    by simp
  then show ?thesis
    using assms
    by (simp add: ethash_light_compute_internal_def ethash_hash_def ethash_hash_with_def Let_def MIX_WORDS_def split: bind_splits)
qed

text \<open>The DAG of a light client gives the hash of the light client, where that has one.\<close>

lemma dag_hash_agrees:
  assumes "dag_size_ok full_size" "light_ok light" "length header = 32"
  shows "\<exists>ret. ethash_full_compute \<lparr>file_size = full_size,
        data = map (dag_item light) [0..<2 * unat (ucast (full_size div 128) :: u32)]\<rparr> header nonce = Some ret \<and>
    ethash_light_compute_internal storage_kept light full_size header nonce = Some ret \<and>
    ethash_light_compute_internal standard_c light full_size header nonce = None \<and>
    success ret \<and> length (result ret) = 32 \<and> length (mix_hash ret) = 32 \<and>
    ethash_quick_hash header nonce (mix_hash ret) = Some (result ret)"
proof -
  let ?p = "ucast (full_size div 128) :: u32"
  let ?nodes = "map (dag_item light) [0..<2 * unat ?p]"
  note size = dag_size_facts [OF assms(1)]
  obtain r m where L: "ethash_hash_with (dag_node storage_kept None light) full_size header nonce = Some (True, r, m)"
    "length r = 32" "length m = 32" "ethash_quick_hash header nonce m = Some r"
    using light_source.hash_value [OF assms(2) size(2,3) assms(3), of nonce] by blast
  have "dag_node standard_c (Some ?nodes) no_light index n = dag_node storage_kept None light index n" if "index < ?p" "n < 2" for index n
  proof -
    have i: "unat (2 * index + of_nat n :: u32) = 2 * unat index + n" by (rule page_index [OF size(5) that])
    moreover have "unat index < unat ?p" using that(1) by (simp add: word_less_nat_alt)
    moreover have "(of_nat (2 * unat index + n) :: u32) = index * 2 + of_nat n" by (simp add: mult.commute)
    ultimately show ?thesis
      using that(2) dag_item(1) [OF assms(2), of "2 * unat index + n"] by (simp add: dag_node_def storage_kept_def MIX_NODES_def node_at_def mult.commute)
  qed
  then have "ethash_hash_with (dag_node standard_c (Some ?nodes) no_light) full_size header nonce = Some (True, r, m)"
    unfolding L(1) [symmetric] by (rule hash_with_cong)
  then show ?thesis
    using L light_hash_undefined [OF size(2)]
    by (intro exI [of _ "\<lparr>result = r, mix_hash = m, success = True\<rparr>"])
      (simp add: ethash_full_compute_def ethash_light_compute_internal_def ethash_hash_def)
qed

text \<open>C30: Mining and verification agree as far as C defines them: for every size that is a positive multiple of a page and
  every well-formed cache, the hash over the DAG that \<open>ethash_compute_full_data\<close> fills (with no callback, or one that does
  not stop it) succeeds for every header and nonce and reads no object after the end of its block; its result and its mix
  hash have 32 bytes, and
  \<open>ethash_quick_hash\<close> recomputes the result from the mix hash. The hash from the cache alone is the same where the compiler
  leaves the storage of \<open>tmp_node\<close> as it is after its block; by the standard it is always undefined, since every
  access reads \<open>tmp_node\<close> after the end of its lifetime.\<close>

theorem full_agrees_with_light:
  assumes "dag_size_ok full_size" "light_ok light" "callback_ok callback (ucast (full_size div 64))" "length header = 32"
  shows "\<exists>nodes ret. ethash_compute_full_data full_size light callback = Some (True, nodes) \<and>
    ethash_full_compute \<lparr>file_size = full_size, data = nodes\<rparr> header nonce = Some ret \<and>
    ethash_light_compute_internal storage_kept light full_size header nonce = Some ret \<and>
    ethash_light_compute_internal standard_c light full_size header nonce = None \<and>
    success ret \<and> length (result ret) = 32 \<and> length (mix_hash ret) = 32 \<and>
    ethash_quick_hash header nonce (mix_hash ret) = Some (result ret)"
  using full_data_ok [OF assms(1-3)] dag_hash_agrees [OF assms(1,2,4), of nonce] by blast

theorem full_agrees_with_light_witness:
  "\<exists>nodes ret. let light = \<lparr>cache = [replicate 16 7], cache_size = 64, block_number = 0\<rparr>; header = replicate 32 1 in
    ethash_compute_full_data 256 light None = Some (True, nodes) \<and>
    ethash_full_compute \<lparr>file_size = 256, data = nodes\<rparr> header 42 = Some ret \<and>
    ethash_light_compute_internal storage_kept light 256 header 42 = Some ret \<and>
    ethash_light_compute_internal standard_c light 256 header 42 = None \<and> success ret"
proof -
  let ?light = "\<lparr>cache = [replicate 16 7], cache_size = 64, block_number = 0\<rparr> :: ethash_light"
  have "dag_size_ok 256" by (simp add: dag_size_ok_def)
  moreover have "light_ok ?light" by (simp add: light_ok_def nodes_ok_def)
  moreover have "callback_ok None x" for x by (simp add: callback_ok_def)
  moreover have "length (replicate 32 (1::u8)) = 32" by simp
  ultimately show ?thesis using full_agrees_with_light [of 256 ?light None "replicate 32 1" 42] by (auto simp: Let_def)
qed

text \<open>The number of a hash, most significant byte first.\<close>

definition be_val :: "u8 list \<Rightarrow> int" where
  "be_val bs = le_val (rev bs)"

lemma be_val_simps: "be_val [] = 0" "be_val (b # bs) = 256 ^ length bs * uint b + be_val bs"
  by (simp_all add: be_val_def le_val_append)

lemma be_val_bounds: "0 \<le> be_val bs" "be_val bs < 256 ^ length bs"
  using le_val_less [of "rev bs"] by (simp_all add: be_val_def)

lemma check_bytes_iff: "length hs = length bs \<Longrightarrow> check_bytes hs bs \<longleftrightarrow> be_val hs \<le> be_val bs"
proof (induction hs bs rule: list_induct2)
  case (Cons h hs b bs)
  show ?case
  proof (cases "h = b")
    case True
    then show ?thesis using Cons by (simp add: be_val_simps)
  next
    case False
    let ?k = "256 ^ length bs :: int"
    have hb: "0 \<le> be_val hs" "be_val hs < ?k" "0 \<le> be_val bs" "be_val bs < ?k"
      using be_val_bounds [of hs] be_val_bounds [of bs] Cons.hyps by simp_all
    have step: "?k * x + u \<le> ?k * y + v" if "x < y" "u < ?k" "0 \<le> v" for x y u v :: int
    proof -
      have "?k * x + ?k \<le> ?k * y" using mult_left_mono [of "x + 1" y ?k] that(1) by (simp add: distrib_left)
      then show ?thesis using that by linarith
    qed
    have strict: "?k * x + u < ?k * y + v" if "x < y" "u < ?k" "0 \<le> v" for x y u v :: int
    proof -
      have "?k * x + ?k \<le> ?k * y" using mult_left_mono [of "x + 1" y ?k] that(1) by (simp add: distrib_left)
      then show ?thesis using that by linarith
    qed
    show ?thesis
    proof (cases "uint h < uint b")
      case True
      then show ?thesis
        using False step [OF True hb(2,3)] Cons.hyps by (simp add: be_val_simps word_less_def)
    next
      case f: False
      then have "uint b < uint h" using False by (simp add: word_uint_eq_iff)
      then show ?thesis
        using False f strict [OF _ hb(4,1)] Cons.hyps by (simp add: be_val_simps word_less_def not_le)
    qed
  qed
qed (simp add: be_val_simps)

text \<open>C31: The verification of a share: for a header, a mix hash and a boundary of 32 bytes the quick check succeeds, and
  accepts exactly when the hash recomputed from the mix hash, as a big-endian number, is at most the boundary.\<close>

theorem quick_check_correct:
  assumes "length header = 32" "length mix = 32" "length boundary = 32"
  shows "\<exists>h. ethash_quick_hash header nonce mix = Some h \<and> length h = 32 \<and>
    ethash_quick_check_difficulty header nonce mix boundary = Some (be_val h \<le> be_val boundary)"
proof -
  obtain b where b: "SHA3_512 (header @ le_bytes 8 (uint nonce)) = Some b" "length b = 64"
    using sha3.digest_512 [of "header @ le_bytes 8 (uint nonce)"] assms(1) by auto
  obtain h where "SHA3_256 (b @ mix) = Some h" "length h = 32"
    using sha3.digest_256 [of "b @ mix"] b(2) assms(2) by auto
  then show ?thesis
    using b assms by (simp add: ethash_quick_check_difficulty_def ethash_quick_hash_def ethash_check_difficulty_def check_bytes_iff)
qed

theorem quick_check_correct_witness:
  "\<exists>h. ethash_quick_hash (replicate 32 1) 7 (replicate 32 2) = Some h \<and>
    ethash_quick_check_difficulty (replicate 32 1) 7 (replicate 32 2) (replicate 32 255) = Some (be_val h \<le> be_val (replicate 32 255))"
proof -
  have "length (replicate 32 (x :: u8)) = 32" for x by simp
  then show ?thesis
    using quick_check_correct [of "replicate 32 1" "replicate 32 2" "replicate 32 255" 7] by auto
qed

lemma fold_opt_append: "fold_opt f s (xs @ ys) = Option.bind (fold_opt f s xs) (\<lambda>s. fold_opt f s ys)"
  by (induction xs arbitrary: s) (simp_all add: bind_assoc)

lemma fold_opt_unused: "length xs = length ys \<Longrightarrow> fold_opt (\<lambda>s _. f s) s xs = fold_opt (\<lambda>s _. f s) s ys"
  by (induction xs ys arbitrary: s rule: list_induct2) simp_all

text \<open>The seed: for every block up to \<open>2^32\<close> epochs \<open>ethash_get_seedhash\<close> returns 32 bytes that depend on the epoch
  only, zeros for the first epoch and the digest of its predecessor for every other; from \<open>2^32\<close> epochs on its loop
  does not end.\<close>

theorem seedhash_correct:
  "(unat b div 30000 < 2 ^ 32 \<longrightarrow> (\<exists>h. ethash_get_seedhash b = Some h \<and> length h = 32 \<and>
      (if unat b < 30000 then h = replicate 32 0
       else Option.bind (ethash_get_seedhash (b - 30000)) SHA3_256 = Some h))) \<and>
   (unat b div 30000 \<ge> 2 ^ 32 \<longrightarrow> ethash_get_seedhash b = None)"
proof (cases "unat b div 30000 < 2 ^ 32")
  case True
  let ?F = "\<lambda>k. fold_opt (\<lambda>ret _. SHA3_256 ret) (replicate 32 0) [0..<k]"
  have get: "ethash_get_seedhash b' = ?F (unat b' div 30000)" if "unat b' div 30000 < 2 ^ 32" for b'
    using that by (simp add: ethash_get_seedhash_def ETHASH_EPOCH_LENGTH_def)
  obtain h where h: "?F (unat b div 30000) = Some h" "length h = 32"
    using sha3.iterate_256 [of "replicate 32 0" "[0..<unat b div 30000]"] by auto
  have "if unat b < 30000 then h = replicate 32 0 else Option.bind (ethash_get_seedhash (b - 30000)) SHA3_256 = Some h"
  proof (cases "unat b < 30000")
    case f: False
    then have u: "unat (b - 30000) = unat b - 30000" by (subst unat_sub) (simp_all add: word_le_nat_alt)
    have d: "unat b div 30000 = Suc ((unat b - 30000) div 30000)" using f by (simp add: le_div_geq)
    have "?F (Suc k) = Option.bind (?F k) SHA3_256" for k
      by (simp add: fold_opt_append)
    then show ?thesis using f h(1) get [of "b - 30000"] True unfolding u d by simp
  qed (use h in simp)
  with True get [OF True] h show ?thesis by simp
next
  case False
  then show ?thesis by (simp add: ethash_get_seedhash_def ETHASH_EPOCH_LENGTH_def)
qed

theorem seedhash_correct_witness:
  "\<exists>h. ethash_get_seedhash 30001 = Some h \<and> SHA3_256 (replicate 32 0) = Some h"
proof -
  have "unat (30001 :: u64) = 30001" "unat (1 :: u64) = 1" by simp_all
  then show ?thesis
    using seedhash_correct [of 30001] seedhash_correct [of 1] by auto
qed

text \<open>A light client: with memory, a cache size that is a positive multiple of a node and a seed of 32 bytes the cache is
  computed and well formed, as the hash needs it; without memory or with another size there is no client, and
  nothing is left undefined.\<close>

theorem light_new_correct:
  assumes "length seed = 32" "csize < 2 ^ 38" "0 < csize"
  shows "\<exists>r. ethash_light_new_internal csize seed memory = Some r \<and>
    (case r of
       None \<Rightarrow> \<not> memory \<or> csize mod 64 \<noteq> 0
     | Some light \<Rightarrow> memory \<and> csize mod 64 = 0 \<and> light_ok light \<and> cache_size light = csize)"
proof (cases "memory \<and> csize mod 64 = 0")
  case True
  have "unat csize mod 64 = 0" using True by (simp add: word_unat_eq_iff unat_mod)
  moreover have "0 < unat csize" "unat csize < 2 ^ 38" using assms(2,3) by (simp_all add: word_less_nat_alt)
  ultimately have u: "unat (ucast (csize div 64) :: u32) = unat csize div 64" "0 < unat csize div 64"
    by (auto simp: unsigned_ucast_eq unat_div take_bit_nat_eq_self dvd_eq_mod_eq_0 [symmetric] elim!: dvdE)
  then have "ucast (csize div 64) \<noteq> (0 :: u32)" by (auto simp: word_unat_eq_iff)
  with compute_cache_ok [of csize seed] True assms(1) obtain nodes where
    "ethash_compute_cache_nodes csize seed = Some (True, nodes)" "nodes_ok nodes" "length nodes = unat (ucast (csize div 64) :: u32)"
    by auto
  then show ?thesis
    using True u by (intro exI [of _ "Some \<lparr>cache = nodes, cache_size = csize, block_number = 0\<rparr>"])
      (simp add: ethash_light_new_internal_def light_ok_def)
next
  case False
  then show ?thesis by (auto simp: ethash_light_new_internal_def ethash_compute_cache_nodes_def)
qed

theorem light_new_correct_witness:
  "\<exists>light. ethash_light_new_internal 128 (replicate 32 0) True = Some (Some light) \<and> light_ok light"
  using light_new_correct [of "replicate 32 0" 128 True] by (auto split: option.splits)

text \<open>With a callback and fewer than 100 nodes the progress step is 0, and the first test divides by it.\<close>

theorem small_dag_divides_by_zero:
  assumes "full_size mod 128 = 0" "0 < full_size" "full_size < 6400"
  shows "ethash_compute_full_data full_size light (Some f) = None"
proof -
  have m: "unat full_size mod 128 = 0" "0 < unat full_size" "unat full_size < 6400"
    using assms by (simp_all add: word_unat_eq_iff unat_mod word_less_nat_alt)
  then obtain q where q: "unat full_size = 128 * q" "0 < q" "q < 50" by (auto elim: dvdE simp: dvd_eq_mod_eq_0 [symmetric])
  have u: "unat (ucast (full_size div 64) :: u32) = 2 * q"
    using q by (simp add: unsigned_ucast_eq unat_div take_bit_nat_eq_self)
  have "unat ((ucast (full_size div 64) :: u32) div 100) = 0" using q u by (simp add: unat_div)
  then have z: "(ucast (full_size div 64) :: u32) div 100 = 0" by (simp add: unat_eq_0)
  have "full_size mod 64 = 0" using q mod_mult_right_eq [of 2 "64 * q" 64] by (simp add: word_unat_eq_iff unat_mod)
  moreover obtain k where "2 * q = Suc k" using q(2) by (cases q) auto
  ultimately show ?thesis
    using assms(1) z u by (simp add: ethash_compute_full_data_def MIX_WORDS_def Let_def)
qed

end
