(* ===== verification/Ethash_Sizes_Proofs.thy ===== *)
theory Ethash_Sizes_Proofs
  imports Ethash_Sizes Ethash_Proofs
begin

text \<open>
  Every size of the tables is one with which the hash works, so that for the first 2048 epochs a light client can be
  built, whose hash of every header is defined but for the reads of \<open>tmp_node\<close> after its block.
\<close>

definition dag_entry :: "int \<Rightarrow> bool" where
  "dag_entry s \<longleftrightarrow> s mod 128 = 0 \<and> 0 < s \<and> s < 2 ^ 38"

definition cache_entry :: "int \<Rightarrow> bool" where
  "cache_entry s \<longleftrightarrow> s mod 64 = 0 \<and> 0 < s \<and> s < 2 ^ 38"

lemma dag_sizes_1: "list_all dag_entry dag_sizes_1" "length dag_sizes_1 = 210"
  unfolding dag_sizes_1_def by (simp_all add: dag_entry_def)

lemma dag_sizes_2: "list_all dag_entry dag_sizes_2" "length dag_sizes_2 = 210"
  unfolding dag_sizes_2_def by (simp_all add: dag_entry_def)

lemma dag_sizes_3: "list_all dag_entry dag_sizes_3" "length dag_sizes_3 = 210"
  unfolding dag_sizes_3_def by (simp_all add: dag_entry_def)

lemma dag_sizes_4: "list_all dag_entry dag_sizes_4" "length dag_sizes_4 = 210"
  unfolding dag_sizes_4_def by (simp_all add: dag_entry_def)

lemma dag_sizes_5: "list_all dag_entry dag_sizes_5" "length dag_sizes_5 = 210"
  unfolding dag_sizes_5_def by (simp_all add: dag_entry_def)

lemma dag_sizes_6: "list_all dag_entry dag_sizes_6" "length dag_sizes_6 = 210"
  unfolding dag_sizes_6_def by (simp_all add: dag_entry_def)

lemma dag_sizes_7: "list_all dag_entry dag_sizes_7" "length dag_sizes_7 = 210"
  unfolding dag_sizes_7_def by (simp_all add: dag_entry_def)

lemma dag_sizes_8: "list_all dag_entry dag_sizes_8" "length dag_sizes_8 = 210"
  unfolding dag_sizes_8_def by (simp_all add: dag_entry_def)

lemma dag_sizes_9: "list_all dag_entry dag_sizes_9" "length dag_sizes_9 = 210"
  unfolding dag_sizes_9_def by (simp_all add: dag_entry_def)

lemma dag_sizes_10: "list_all dag_entry dag_sizes_10" "length dag_sizes_10 = 158"
  unfolding dag_sizes_10_def by (simp_all add: dag_entry_def)

lemma cache_sizes_1: "list_all cache_entry cache_sizes_1" "length cache_sizes_1 = 294"
  unfolding cache_sizes_1_def by (simp_all add: cache_entry_def)

lemma cache_sizes_2: "list_all cache_entry cache_sizes_2" "length cache_sizes_2 = 294"
  unfolding cache_sizes_2_def by (simp_all add: cache_entry_def)

lemma cache_sizes_3: "list_all cache_entry cache_sizes_3" "length cache_sizes_3 = 258"
  unfolding cache_sizes_3_def by (simp_all add: cache_entry_def)

lemma cache_sizes_4: "list_all cache_entry cache_sizes_4" "length cache_sizes_4 = 252"
  unfolding cache_sizes_4_def by (simp_all add: cache_entry_def)

lemma cache_sizes_5: "list_all cache_entry cache_sizes_5" "length cache_sizes_5 = 252"
  unfolding cache_sizes_5_def by (simp_all add: cache_entry_def)

lemma cache_sizes_6: "list_all cache_entry cache_sizes_6" "length cache_sizes_6 = 252"
  unfolding cache_sizes_6_def by (simp_all add: cache_entry_def)

lemma cache_sizes_7: "list_all cache_entry cache_sizes_7" "length cache_sizes_7 = 252"
  unfolding cache_sizes_7_def by (simp_all add: cache_entry_def)

lemma cache_sizes_8: "list_all cache_entry cache_sizes_8" "length cache_sizes_8 = 194"
  unfolding cache_sizes_8_def by (simp_all add: cache_entry_def)

lemma tables:
  "\<exists>l. dag_sizes = map word_of_int l \<and> list_all dag_entry l \<and> length l = 2048"
  "\<exists>l. cache_sizes = map word_of_int l \<and> list_all cache_entry l \<and> length l = 2048"
  unfolding dag_sizes_def cache_sizes_def
  by (rule exI, rule conjI, rule refl, simp add: dag_sizes_1 dag_sizes_2 dag_sizes_3 dag_sizes_4 dag_sizes_5 dag_sizes_6 dag_sizes_7 dag_sizes_8 dag_sizes_9 dag_sizes_10)
    (rule exI, rule conjI, rule refl, simp add: cache_sizes_1 cache_sizes_2 cache_sizes_3 cache_sizes_4 cache_sizes_5 cache_sizes_6 cache_sizes_7 cache_sizes_8)

lemma word_entry:
  assumes "0 < n" "n < 2 ^ 38"
  shows "0 < (word_of_int n :: u64)" "(word_of_int n :: u64) < 2 ^ 38" "n mod 128 = 0 \<Longrightarrow> (word_of_int n :: u64) mod 128 = 0"
    "n mod 64 = 0 \<Longrightarrow> (word_of_int n :: u64) mod 64 = 0"
proof -
  have u: "uint (word_of_int n :: u64) = n" using assms by (simp add: unsigned_of_int take_bit_int_eq_self)
  show "0 < (word_of_int n :: u64)" "(word_of_int n :: u64) < 2 ^ 38" using assms by (simp_all add: word_less_def u)
  show "n mod 128 = 0 \<Longrightarrow> (word_of_int n :: u64) mod 128 = 0" "n mod 64 = 0 \<Longrightarrow> (word_of_int n :: u64) mod 64 = 0"
    by (simp_all add: word_uint_eq_iff uint_mod u)
qed

lemma epoch_index: "unat (b div of_nat ETHASH_EPOCH_LENGTH :: u64) = unat b div 30000"
  by (simp add: ETHASH_EPOCH_LENGTH_def unat_div)

lemma epoch_test: "(b div of_nat ETHASH_EPOCH_LENGTH :: u64) < 2048 \<longleftrightarrow> unat b div 30000 < 2048"
  by (simp add: word_less_nat_alt epoch_index)

lemma datasize_ok: "unat b div 30000 < 2048 \<Longrightarrow> \<exists>s. ethash_get_datasize b = Some s \<and> dag_size_ok s"
proof -
  assume e: "unat b div 30000 < 2048"
  from tables(1) obtain l where l: "dag_sizes = map word_of_int l" "list_all dag_entry l" "length l = 2048" by blast
  then have "dag_entry (l ! (unat b div 30000))" using e by (simp add: list_all_length)
  moreover have "dag_sizes ! (unat b div 30000) = word_of_int (l ! (unat b div 30000))" unfolding l(1) using e l(3) by simp
  ultimately show ?thesis
    using e word_entry [of "l ! (unat b div 30000)"]
    by (simp add: ethash_get_datasize_def epoch_test epoch_index dag_size_ok_def dag_entry_def)
qed

lemma cachesize_ok:
  "unat b div 30000 < 2048 \<Longrightarrow> \<exists>c. ethash_get_cachesize b = Some c \<and> c mod 64 = 0 \<and> 0 < c \<and> c < 2 ^ 38"
proof -
  assume e: "unat b div 30000 < 2048"
  from tables(2) obtain l where l: "cache_sizes = map word_of_int l" "list_all cache_entry l" "length l = 2048" by blast
  then have "cache_entry (l ! (unat b div 30000))" using e by (simp add: list_all_length)
  moreover have "cache_sizes ! (unat b div 30000) = word_of_int (l ! (unat b div 30000))" unfolding l(1) using e l(3) by simp
  ultimately show ?thesis
    using e word_entry [of "l ! (unat b div 30000)"]
    by (simp add: ethash_get_cachesize_def epoch_test epoch_index cache_entry_def)
qed

text \<open>The light client of a tabulated epoch.\<close>

lemma light_new_ok:
  assumes True: "unat b div 30000 < 2048"
  shows "\<exists>light seed. ethash_get_seedhash b = Some seed \<and> length seed = 32 \<and> ethash_light_new b True = Some light \<and>
    ethash_light_new b False = None \<and> light_ok light \<and> block_number light = b"
proof -
  obtain c where c: "ethash_get_cachesize b = Some c" "c mod 64 = 0" "0 < c" "c < 2 ^ 38" using cachesize_ok [OF True] by (elim exE conjE)
  obtain seed where seed: "ethash_get_seedhash b = Some seed" "length seed = 32"
  proof -
    have "\<not> 2 ^ 32 \<le> unat b div 30000" using True by simp
    then have "ethash_get_seedhash b = fold_opt (\<lambda>ret _. SHA3_256 ret) (replicate 32 0) [0..<unat b div 30000]"
      unfolding ethash_get_seedhash_def ETHASH_EPOCH_LENGTH_def Let_def by (rule if_not_P)
    then show thesis using that sha3.iterate_256 [of "replicate 32 0" "[0..<unat b div 30000]"] length_replicate [of 32 "0::u8"]
      by metis
  qed
  have "unat c mod 64 = 0" using c(2) by (simp add: word_unat_eq_iff unat_mod)
  moreover have "0 < unat c" "unat c < 2 ^ 38" using c(3,4) by (simp_all add: word_less_nat_alt)
  ultimately have u: "unat (ucast (c div 64) :: u32) = unat c div 64" "0 < unat c div 64"
    by (auto simp: unsigned_ucast_eq unat_div take_bit_nat_eq_self dvd_eq_mod_eq_0 [symmetric] elim!: dvdE)
  then have "ucast (c div 64) \<noteq> (0 :: u32)" by (auto simp: word_unat_eq_iff)
  with compute_cache_ok [of c seed] c(2) seed(2) obtain nodes where
    n: "ethash_compute_cache_nodes c seed = Some (True, nodes)" "nodes_ok nodes" "length nodes = unat (ucast (c div 64) :: u32)" by auto
  let ?light = "\<lparr>cache = nodes, cache_size = c, block_number = b\<rparr> :: ethash_light"
  have new: "ethash_light_new b True = Some ?light" "ethash_light_new b False = None"
    using seed c n by (simp_all add: ethash_light_new_def ethash_light_new_internal_def)
  have ok: "light_ok ?light" using n u by (simp add: light_ok_def)
  from seed new ok show ?thesis by (intro exI [of _ ?light] exI [of _ seed]) simp
qed

section \<open>The properties of the tables\<close>

text \<open>C32: For every block of the 2048 tabulated epochs a light client can be built, given memory: the tabulated sizes never
  make the cache fail. Its hash of a header and a nonce reads \<open>tmp_node\<close> after the end of its block, so that by the
  standard it is undefined for all of them. That is the only obstacle: where the compiler leaves the storage as it is,
  every hash succeeds, with no access outside the cache and a result that the quick hash recomputes. Without memory the
  program writes through a null pointer; beyond the tables the assertion fails.\<close>

theorem light_client_correct:
  assumes "length header = 32"
  shows "if unat b div 30000 < 2048 then
      ethash_light_new b False = None \<and>
      (\<exists>light ret. ethash_light_new b True = Some light \<and> light_ok light \<and>
        ethash_light_compute standard_c light header nonce = None \<and>
        ethash_light_compute storage_kept light header nonce = Some ret \<and> success ret \<and>
        ethash_quick_hash header nonce (mix_hash ret) = Some (result ret))
    else ethash_light_new b memory = None"
proof (cases "unat b div 30000 < 2048")
  case True
  obtain s where s: "ethash_get_datasize b = Some s" "dag_size_ok s" using datasize_ok [OF True] by blast
  obtain light where new: "ethash_light_new b True = Some light" "ethash_light_new b False = None"
    and ok: "light_ok light" and bn: "block_number light = b" using light_new_ok [OF True] by blast
  note size = dag_size_facts [OF s(2)]
  obtain r m where "ethash_hash_with (dag_node storage_kept None light) s header nonce = Some (True, r, m)" "ethash_quick_hash header nonce m = Some r"
    using light_source.hash_value [OF ok size(2,3) assms, of nonce] by blast
  then have "ethash_light_compute storage_kept light header nonce = Some \<lparr>result = r, mix_hash = m, success = True\<rparr>"
    "ethash_quick_hash header nonce m = Some r"
    using s(1) bn by (simp_all add: ethash_light_compute_def ethash_light_compute_internal_def ethash_hash_def)
  moreover have "ethash_light_compute standard_c light header nonce = None"
    using light_hash_undefined [OF size(2)] s(1) bn by (simp add: ethash_light_compute_def)
  ultimately show ?thesis using True new ok by auto
next
  case False
  then show ?thesis by (simp add: ethash_light_new_def ethash_get_cachesize_def epoch_test)
qed

theorem light_client_correct_witness:
  "\<exists>light ret. ethash_light_new 4000000 True = Some light \<and> light_ok light \<and>
    ethash_light_compute standard_c light (replicate 32 9) 5 = None \<and>
    ethash_light_compute storage_kept light (replicate 32 9) 5 = Some ret \<and> success ret"
proof -
  have "unat (4000000 :: u64) div 30000 < 2048" "length (replicate 32 (9 :: u8)) = 32" by simp_all
  with light_client_correct [of "replicate 32 9" 4000000 5 True] show ?thesis by auto
qed

end
