(* ===== verification/Ethash_Io.thy ===== *)
theory Ethash_Io
  imports Ethash_Sizes "HOL-Library.State_Monad"
begin

text \<open>
  The files of the DAG: io.c, io_posix.c and the part of internal.c that creates, loads, finishes and deletes a DAG.
  The calls of the system are operations on a state that holds the contents of the files, the counts of open streams,
  allocated blocks and mappings, the contents that every file has had (those a process that is killed can leave
  behind), and the answers of the system still to come: any call may fail, and a stream may send any part of what was
  written to it at any time.
\<close>

section \<open>The system\<close>

datatype answer = Done | Fails | Exists | Sent nat | Cut nat

record os =
  files :: "string \<Rightarrow> u8 list option"
  answers :: "answer list"
  streams :: nat
  blocks :: nat
  maps :: nat
  trace :: "(string \<times> u8 list) list"

type_synonym 'a io = "(os, 'a) state"

record stream =
  st_path :: string
  st_pos :: nat
  st_pending :: "u8 list"

definition ask :: "answer io" where
  "ask = State (\<lambda>s. case answers s of [] \<Rightarrow> (Done, s) | a # as \<Rightarrow> (a, s\<lparr>answers := as\<rparr>))"

definition succeeds :: "bool io" where
  "succeeds = do { a \<leftarrow> ask; State_Monad.return (a \<noteq> Fails) }"

definition content :: "string \<Rightarrow> os \<Rightarrow> u8 list" where
  "content p s = (case files s p of Some c \<Rightarrow> c | None \<Rightarrow> [])"

definition store :: "string \<Rightarrow> u8 list \<Rightarrow> os \<Rightarrow> os" where
  "store p c s = s\<lparr>files := (files s)(p \<mapsto> c), trace := (p, c) # trace s\<rparr>"

text \<open>Bytes written at a position; a gap before them is filled with zeros.\<close>

definition overlay :: "nat \<Rightarrow> u8 list \<Rightarrow> u8 list \<Rightarrow> u8 list" where
  "overlay pos bs c =
     (if bs = [] then c else take pos (c @ replicate (pos - length c) 0) @ bs @ drop (pos + length bs) c)"

fun write_out :: "string \<Rightarrow> nat \<Rightarrow> u8 list \<Rightarrow> os \<Rightarrow> os" where
  "write_out p pos [] s = s"
| "write_out p pos (b # bs) s = write_out p (Suc pos) bs (store p (overlay pos [b] (content p s)) s)"

section \<open>Streams\<close>

text \<open>A stream sends the first \<open>k\<close> of its pending bytes.\<close>

definition push :: "nat \<Rightarrow> stream \<Rightarrow> stream io" where
  "push k f = do {
     State_Monad.update (write_out (st_path f) (st_pos f) (take k (st_pending f)));
     State_Monad.return (f\<lparr>st_pos := st_pos f + length (take k (st_pending f)), st_pending := drop k (st_pending f)\<rparr>) }"

definition drop_pending :: "stream \<Rightarrow> stream" where
  "drop_pending f = f\<lparr>st_pending := []\<rparr>"

definition fwrite :: "u8 list \<Rightarrow> stream \<Rightarrow> (bool \<times> stream) io" where
  "fwrite bs f = do {
     let f = f\<lparr>st_pending := st_pending f @ bs\<rparr>;
     a \<leftarrow> ask;
     case a of
       Fails \<Rightarrow> State_Monad.return (False, drop_pending f)
     | Cut k \<Rightarrow> do { f \<leftarrow> push k f; State_Monad.return (False, drop_pending f) }
     | Sent k \<Rightarrow> do { f \<leftarrow> push k f; State_Monad.return (True, f) }
     | _ \<Rightarrow> State_Monad.return (True, f) }"

definition fflush :: "stream \<Rightarrow> (bool \<times> stream) io" where
  "fflush f = do {
     a \<leftarrow> ask;
     case a of
       Fails \<Rightarrow> State_Monad.return (False, drop_pending f)
     | Cut k \<Rightarrow> do { f \<leftarrow> push k f; State_Monad.return (False, drop_pending f) }
     | _ \<Rightarrow> do { f \<leftarrow> push (length (st_pending f)) f; State_Monad.return (True, f) } }"

text \<open>\<open>fseek(f, offset, SEEK_SET)\<close>: it sends what is pending and fails for a negative offset.\<close>

definition fseek :: "int \<Rightarrow> stream \<Rightarrow> (bool \<times> stream) io" where
  "fseek offset f = do {
     (ok, f) \<leftarrow> fflush f;
     State_Monad.return (if ok \<and> 0 \<le> offset then (True, f\<lparr>st_pos := nat offset\<rparr>) else (False, f)) }"

definition fclose :: "stream \<Rightarrow> unit io" where
  "fclose f = do {
     _ \<leftarrow> fflush f;
     State_Monad.update (\<lambda>s. s\<lparr>streams := streams s - 1\<rparr>) }"

text \<open>\<open>fread\<close> of one element of \<open>n\<close> bytes; \<open>None\<close> where it does not return 1.\<close>

definition fread :: "nat \<Rightarrow> stream \<Rightarrow> (u8 list option \<times> stream) io" where
  "fread n f = do {
     ok \<leftarrow> succeeds;
     s \<leftarrow> State_Monad.get;
     let bs = take n (drop (st_pos f) (content (st_path f) s));
     State_Monad.return (if ok \<and> 0 < n \<and> length bs = n then Some bs else None, f\<lparr>st_pos := st_pos f + length bs\<rparr>) }"

definition malloc :: "bool io" where
  "malloc = do {
     ok \<leftarrow> succeeds;
     _ \<leftarrow> (if ok then State_Monad.update (\<lambda>s. s\<lparr>blocks := blocks s + 1\<rparr>) else State_Monad.return ());
     State_Monad.return ok }"

definition free :: "unit io" where
  "free = State_Monad.update (\<lambda>s. s\<lparr>blocks := blocks s - 1\<rparr>)"

definition mmap :: "bool io" where
  "mmap = do {
     ok \<leftarrow> succeeds;
     _ \<leftarrow> (if ok then State_Monad.update (\<lambda>s. s\<lparr>maps := maps s + 1\<rparr>) else State_Monad.return ());
     State_Monad.return ok }"

text \<open>\<open>munmap\<close> of an address \<open>offset\<close> bytes after the start of a page: \<open>EINVAL\<close>, and no effect, unless it is 0.\<close>

definition munmap :: "nat \<Rightarrow> unit io" where
  "munmap offset = State_Monad.update (\<lambda>s. if offset mod 4096 = 0 then s\<lparr>maps := maps s - 1\<rparr> else s)"

section \<open>io\_posix.c\<close>

definition ethash_fopen_rb :: "string \<Rightarrow> stream option io" where
  "ethash_fopen_rb p = do {
     ok \<leftarrow> succeeds;
     s \<leftarrow> State_Monad.get;
     if ok \<and> files s p \<noteq> None then do {
       State_Monad.update (\<lambda>s. s\<lparr>streams := streams s + 1\<rparr>);
       State_Monad.return (Some \<lparr>st_path = p, st_pos = 0, st_pending = []\<rparr>) }
     else State_Monad.return None }"

definition ethash_fopen_wb :: "string \<Rightarrow> stream option io" where
  "ethash_fopen_wb p = do {
     ok \<leftarrow> succeeds;
     if ok then do {
       State_Monad.update (\<lambda>s. (store p [] s)\<lparr>streams := streams s + 1\<rparr>);
       State_Monad.return (Some \<lparr>st_path = p, st_pos = 0, st_pending = []\<rparr>) }
     else State_Monad.return None }"

definition ethash_mkdir :: "bool io" where
  "ethash_mkdir = do {
     a \<leftarrow> ask;
     let rc = (if a = Fails \<or> a = Exists then - 1 else 0 :: int);
     State_Monad.return (rc \<noteq> - 1 \<or> a = Exists) }"

definition ethash_fileno :: "bool io" where
  "ethash_fileno = succeeds"

definition ethash_file_size :: "stream \<Rightarrow> u64 option io" where
  "ethash_file_size f = do {
     ok \<leftarrow> succeeds;
     s \<leftarrow> State_Monad.get;
     State_Monad.return (if ok then Some (of_nat (length (content (st_path f) s))) else None) }"

text \<open>Strings without their terminators; the character at the length is the terminator.\<close>

definition c_char :: "string \<Rightarrow> nat \<Rightarrow> char" where
  "c_char s i = (if i < length s then s ! i else CHR 0x00)"

definition ethash_strncat :: "string \<Rightarrow> nat \<Rightarrow> string \<Rightarrow> nat \<Rightarrow> string option" where
  "ethash_strncat dest dest_size src count =
     (if length dest + count + 1 \<le> dest_size then Some (dest @ take count src) else None)"

text \<open>A concatenation whose result is not looked at.\<close>

definition strncat_to :: "nat \<Rightarrow> string \<Rightarrow> nat \<Rightarrow> string \<Rightarrow> string" where
  "strncat_to dest_size src count dest =
     (case ethash_strncat dest dest_size src count of Some d \<Rightarrow> d | None \<Rightarrow> dest)"

definition filename :: "string \<Rightarrow> string \<Rightarrow> string" where
  "filename dirname name =
     (let dirlen = length dirname;
          dest_size = dirlen + length name + 1 + (if c_char dirname dirlen \<noteq> CHR ''/'' then 1 else 0);
          s = strncat_to dest_size dirname dirlen [];
          s = (if c_char dirname dirlen \<noteq> CHR ''/'' then strncat_to dest_size ''/'' 1 s else s)
      in strncat_to dest_size name (length name) s)"

definition ethash_io_create_filename :: "string \<Rightarrow> string \<Rightarrow> string option io" where
  "ethash_io_create_filename dirname name = do {
     ok \<leftarrow> malloc;
     State_Monad.return (if ok then Some (filename dirname name) else None) }"

text \<open>The default directory, from \<open>HOME\<close> and the directory in the password file; \<open>None\<close> where \<open>strlen(NULL)\<close> is called,
  \<open>Some None\<close> where the name does not fit.\<close>

definition ethash_get_default_dirname :: "string option \<Rightarrow> string option \<Rightarrow> nat \<Rightarrow> string option option" where
  "ethash_get_default_dirname home pwd buffsize =
     (let home_dir = (if home = None \<or> home = Some [] then (if pwd \<noteq> None then pwd else home) else home)
      in case home_dir of
           None \<Rightarrow> None
         | Some d \<Rightarrow>
             (let len = length d
              in Some (Option.bind (ethash_strncat [] buffsize d len) (\<lambda>s.
                   Option.bind (if c_char d len \<noteq> CHR ''/'' then ethash_strncat s buffsize ''/'' 1 else Some s) (\<lambda>s.
                     ethash_strncat s buffsize ''.ethash/'' 9)))))"

section \<open>The name of the DAG file\<close>

definition ethash_swap_u64 :: "u64 \<Rightarrow> u64" where
  "ethash_swap_u64 x = word_of_int (le_val (rev (le_bytes 8 (uint x))))"

definition digit :: "nat \<Rightarrow> char" where
  "digit n = ''0123456789abcdef'' ! n"

fun decimal :: "nat \<Rightarrow> string" where
  "decimal n = (if n < 10 then [digit n] else decimal (n div 10) @ [digit (n mod 10)])"

declare decimal.simps [simp del]

text \<open>\<open>%016lx\<close>\<close>

definition hex16 :: "u64 \<Rightarrow> string" where
  "hex16 w = map (\<lambda>i. digit (unat w div 16 ^ (15 - i) mod 16)) [0..<16]"

definition DAG_MUTABLE_NAME_MAX_SIZE :: nat where
  "DAG_MUTABLE_NAME_MAX_SIZE = 6 + 10 + 1 + 16 + 1"

definition ETHASH_REVISION :: u32 where
  "ETHASH_REVISION = 23"

definition ethash_io_mutable_name :: "u32 \<Rightarrow> u8 list \<Rightarrow> string" where
  "ethash_io_mutable_name revision seed_hash =
     (let hash = ethash_swap_u64 (word_of_int (le_val (take 8 seed_hash)))
      in take (DAG_MUTABLE_NAME_MAX_SIZE - 1) (''full-R'' @ decimal (unat revision) @ ''-'' @ hex16 hash))"

section \<open>io.c\<close>

datatype io_rc = ETHASH_IO_FAIL | ETHASH_IO_MEMO_SIZE_MISMATCH | ETHASH_IO_MEMO_MISMATCH | ETHASH_IO_MEMO_MATCH

definition ETHASH_DAG_MAGIC_NUM :: u64 where
  "ETHASH_DAG_MAGIC_NUM = 0xFEE1DEADBADDCAFE"

text \<open>The stream is closed and a code returned.\<close>

definition close_with :: "stream \<Rightarrow> io_rc \<Rightarrow> (io_rc \<times> stream option) io" where
  "close_with f rc = do { _ \<leftarrow> fclose f; State_Monad.return (rc, None) }"

text \<open>A file of the name exists.\<close>

definition io_check :: "u64 \<Rightarrow> stream \<Rightarrow> (io_rc \<times> stream option) io" where
  "io_check fsize f = do {
     found \<leftarrow> ethash_file_size f;
     case found of
       None \<Rightarrow> close_with f ETHASH_IO_FAIL
     | Some found_size \<Rightarrow>
         if fsize \<noteq> found_size - 8 then close_with f ETHASH_IO_MEMO_SIZE_MISMATCH
         else do {
           (magic_num, f) \<leftarrow> fread 8 f;
           case magic_num of
             None \<Rightarrow> close_with f ETHASH_IO_MEMO_SIZE_MISMATCH
           | Some bs \<Rightarrow>
               if word_of_int (le_val bs) \<noteq> ETHASH_DAG_MAGIC_NUM then close_with f ETHASH_IO_MEMO_SIZE_MISMATCH
               else State_Monad.return (ETHASH_IO_MEMO_MATCH, Some f) } }"

text \<open>A new file of the name.\<close>

definition io_create :: "u64 \<Rightarrow> string \<Rightarrow> (io_rc \<times> stream option) io" where
  "io_create fsize tmpfile = do {
     f \<leftarrow> ethash_fopen_wb tmpfile;
     case f of
       None \<Rightarrow> State_Monad.return (ETHASH_IO_FAIL, None)
     | Some f \<Rightarrow> do {
         (ok, f) \<leftarrow> fseek (sint (fsize + 8 - 1)) f;
         if \<not> ok then close_with f ETHASH_IO_FAIL
         else do {
           (ok, f) \<leftarrow> fwrite [10] f;
           if \<not> ok then close_with f ETHASH_IO_FAIL
           else do {
             (ok, f) \<leftarrow> fflush f;
             if \<not> ok then close_with f ETHASH_IO_FAIL
             else State_Monad.return (ETHASH_IO_MEMO_MISMATCH, Some f) } } } }"

definition ethash_io_prepare :: "string \<Rightarrow> u8 list \<Rightarrow> u64 \<Rightarrow> bool \<Rightarrow> (io_rc \<times> stream option) io" where
  "ethash_io_prepare dirname seedhash fsize force_create = do {
     ok \<leftarrow> ethash_mkdir;
     if \<not> ok then State_Monad.return (ETHASH_IO_FAIL, None)
     else do {
       name \<leftarrow> ethash_io_create_filename dirname (ethash_io_mutable_name ETHASH_REVISION seedhash);
       case name of
         None \<Rightarrow> State_Monad.return (ETHASH_IO_FAIL, None)
       | Some tmpfile \<Rightarrow> do {
           f \<leftarrow> (if \<not> force_create then ethash_fopen_rb tmpfile else State_Monad.return None);
           r \<leftarrow> (case f of Some f \<Rightarrow> io_check fsize f | None \<Rightarrow> io_create fsize tmpfile);
           _ \<leftarrow> free;
           State_Monad.return r } } }"

section \<open>The DAG in memory (internal.c)\<close>

datatype dag_file_error = dfeNoError | dfeInvalidFileNo | dfeNoMemory | dfeReadError

text \<open>The DAG is the mapped file after its first 8 bytes, or a block of memory.\<close>

datatype dag_data = Mapped | Heap "u8 list"

record full_handle =
  h_file :: stream
  h_file_size :: u64
  h_data :: dag_data

text \<open>The end of the process by an undefined operation, \<open>NULL\<close>, or a handle.\<close>

datatype new_result = Aborted | Null | Full full_handle

definition ethash_mmap :: "bool io" where
  "ethash_mmap = do {
     fd \<leftarrow> ethash_fileno;
     if \<not> fd then State_Monad.return False else mmap }"

definition ethash_full_read :: "u64 \<Rightarrow> stream \<Rightarrow> (dag_file_error \<times> dag_data option \<times> stream) io" where
  "ethash_full_read fsize f = do {
     fd \<leftarrow> ethash_fileno;
     if \<not> fd then State_Monad.return (dfeInvalidFileNo, None, f)
     else do {
       (_, f) \<leftarrow> fseek 8 f;
       memory \<leftarrow> malloc;
       if \<not> memory then State_Monad.return (dfeNoMemory, None, f)
       else do {
         (bs, f) \<leftarrow> fread (unat fsize) f;
         case bs of
           None \<Rightarrow> State_Monad.return (dfeReadError, None, f)
         | Some bs \<Rightarrow> State_Monad.return (dfeNoError, Some (Heap bs), f) } } }"

text \<open>\<open>ethash_full_new_internal\<close>: the data, of either kind.\<close>

definition full_load :: "bool \<Rightarrow> u64 \<Rightarrow> stream \<Rightarrow> (dag_file_error \<times> dag_data option \<times> stream) io" where
  "full_load dagInMemory fsize f =
     (if dagInMemory then ethash_full_read fsize f
      else do {
        ok \<leftarrow> ethash_mmap;
        State_Monad.return (dfeNoError, if ok then Some Mapped else None, f) })"

text \<open>The labels \<open>fail_free_full\<close>, \<open>fail_close_file\<close> and \<open>fail_free_full_data\<close>.\<close>

definition fail_free_full :: "dag_file_error \<Rightarrow> (new_result \<times> dag_file_error option) io" where
  "fail_free_full e = do { _ \<leftarrow> free; State_Monad.return (Null, Some e) }"

definition fail_close_file :: "stream \<Rightarrow> dag_file_error \<Rightarrow> (new_result \<times> dag_file_error option) io" where
  "fail_close_file f e = do { _ \<leftarrow> fclose f; fail_free_full e }"

definition fail_free_full_data :: "bool \<Rightarrow> stream \<Rightarrow> (new_result \<times> dag_file_error option) io" where
  "fail_free_full_data dagInMemory f = do {
     _ \<leftarrow> (if dagInMemory then free else munmap 8);
     fail_close_file f dfeNoError }"

text \<open>The nodes as \<open>ethash_compute_full_data\<close> stores them: in a mapping they are in the file, where every node first
  takes values \<open>torn\<close> that its computation in place has on the way.\<close>

fun fill_mapping :: "string \<Rightarrow> (nat \<Rightarrow> u8 list) \<Rightarrow> nat \<Rightarrow> node list \<Rightarrow> os \<Rightarrow> os" where
  "fill_mapping p torn i [] s = s"
| "fill_mapping p torn i (n # ns) s =
     (let s = store p (overlay (8 + 64 * i) (take 64 (torn i)) (content p s)) s
      in fill_mapping p torn (Suc i) ns (store p (overlay (8 + 64 * i) (node_bytes n) (content p s)) s))"

definition fill :: "(nat \<Rightarrow> u8 list) \<Rightarrow> stream \<Rightarrow> node list \<Rightarrow> dag_data \<Rightarrow> dag_data io" where
  "fill torn f nodes d =
     (case d of
        Mapped \<Rightarrow> do { _ \<leftarrow> State_Monad.update (fill_mapping (st_path f) torn 0 nodes); State_Monad.return Mapped }
      | Heap bs \<Rightarrow> State_Monad.return (Heap (overlay 0 (concat (map node_bytes nodes)) bs)))"

text \<open>The magic number, the data where they are in memory, and the end of the output.\<close>

definition write_data :: "dag_data \<Rightarrow> u64 \<Rightarrow> stream \<Rightarrow> (bool \<times> stream) io" where
  "write_data d fsize f =
     (case d of Mapped \<Rightarrow> State_Monad.return (True, f) | Heap bs \<Rightarrow> fwrite (take (unat fsize) bs) f)"

definition full_finish :: "bool \<Rightarrow> u64 \<Rightarrow> dag_data \<Rightarrow> stream \<Rightarrow> (new_result \<times> dag_file_error option) io" where
  "full_finish dagInMemory fsize d f = do {
     (ok, f) \<leftarrow> fseek 0 f;
     if \<not> ok then fail_free_full_data dagInMemory f
     else do {
       (ok, f) \<leftarrow> fwrite (le_bytes 8 (uint ETHASH_DAG_MAGIC_NUM)) f;
       if \<not> ok then fail_free_full_data dagInMemory f
       else do {
         (ok, f) \<leftarrow> write_data d fsize f;
         if \<not> ok then fail_free_full_data dagInMemory f
         else do {
           (ok, f) \<leftarrow> fflush f;
           if \<not> ok then fail_free_full_data dagInMemory f
           else State_Monad.return (Full \<lparr>h_file = f, h_file_size = fsize, h_data = d\<rparr>, Some dfeNoError) } } } }"

text \<open>The case \<open>ETHASH_IO_MEMO_MISMATCH\<close> and what follows it.\<close>

definition full_create :: "bool \<Rightarrow> u64 \<Rightarrow> ethash_light \<Rightarrow> (u32 \<Rightarrow> bool) option \<Rightarrow> (nat \<Rightarrow> u8 list) \<Rightarrow> stream \<Rightarrow>
    (new_result \<times> dag_file_error option) io" where
  "full_create dagInMemory fsize light callback torn f = do {
     (e, d, f) \<leftarrow> full_load dagInMemory fsize f;
     case d of
       None \<Rightarrow> fail_close_file f e
     | Some d \<Rightarrow>
         (case ethash_compute_full_data fsize light callback of
            None \<Rightarrow> State_Monad.return (Aborted, Some dfeNoError)
          | Some (ok, nodes) \<Rightarrow> do {
              d \<leftarrow> fill torn f nodes d;
              if \<not> ok then fail_free_full_data dagInMemory f
              else full_finish dagInMemory fsize d f }) }"

text \<open>The case \<open>ETHASH_IO_MEMO_MATCH\<close>.\<close>

definition full_match :: "bool \<Rightarrow> u64 \<Rightarrow> stream \<Rightarrow> (new_result \<times> dag_file_error option) io" where
  "full_match dagInMemory fsize f = do {
     (e, d, f) \<leftarrow> full_load dagInMemory fsize f;
     case d of
       None \<Rightarrow> fail_close_file f e
     | Some d \<Rightarrow> State_Monad.return (Full \<lparr>h_file = f, h_file_size = fsize, h_data = d\<rparr>, Some dfeNoError) }"

definition ethash_full_new_internal ::
  "string \<Rightarrow> u8 list \<Rightarrow> u64 \<Rightarrow> ethash_light \<Rightarrow> (u32 \<Rightarrow> bool) option \<Rightarrow> bool \<Rightarrow> (nat \<Rightarrow> u8 list) \<Rightarrow>
    (new_result \<times> dag_file_error option) io" where
  "ethash_full_new_internal dirname seed_hash full_size light callback dagInMemory torn = do {
     memory \<leftarrow> malloc;
     if \<not> memory then State_Monad.return (Null, None)
     else do {
       r \<leftarrow> ethash_io_prepare dirname seed_hash full_size False;
       case r of
         (ETHASH_IO_MEMO_MATCH, Some f) \<Rightarrow> full_match dagInMemory full_size f
       | (ETHASH_IO_MEMO_SIZE_MISMATCH, _) \<Rightarrow> do {
           r \<leftarrow> ethash_io_prepare dirname seed_hash full_size True;
           case r of
             (ETHASH_IO_MEMO_MISMATCH, Some f) \<Rightarrow> full_create dagInMemory full_size light callback torn f
           | _ \<Rightarrow> fail_free_full dfeNoError }
       | (ETHASH_IO_MEMO_MISMATCH, Some f) \<Rightarrow> full_create dagInMemory full_size light callback torn f
       | _ \<Rightarrow> fail_free_full dfeNoError } }"

text \<open>\<open>ethash_full_new\<close>: a name of 256 characters or more overruns the buffer, and the process ends.\<close>

definition ethash_full_new ::
  "ethash_light \<Rightarrow> string \<Rightarrow> string option \<Rightarrow> string option \<Rightarrow> (u32 \<Rightarrow> bool) option \<Rightarrow> bool \<Rightarrow> (nat \<Rightarrow> u8 list) \<Rightarrow>
    (new_result \<times> dag_file_error option) io" where
  "ethash_full_new light custom_dir_name home pwd callback dag_in_memory torn =
     (case (if custom_dir_name \<noteq> [] then if length custom_dir_name < 256 then Some (Some custom_dir_name) else None
            else ethash_get_default_dirname home pwd 256) of
        None \<Rightarrow> State_Monad.return (Aborted, None)
      | Some None \<Rightarrow> State_Monad.return (Null, None)
      | Some (Some strbuf) \<Rightarrow>
          (case (ethash_get_datasize (block_number light), ethash_get_seedhash (block_number light)) of
             (Some full_size, Some seedhash) \<Rightarrow> ethash_full_new_internal strbuf seedhash full_size light callback dag_in_memory torn
           | _ \<Rightarrow> State_Monad.return (Aborted, None)))"

text \<open>\<open>ethash_full_delete\<close>: what is unmapped starts 8 bytes into the mapping, or inside a block that \<open>malloc\<close> places
  16 bytes after the start of a page.\<close>

definition ethash_full_delete :: "full_handle \<Rightarrow> unit io" where
  "ethash_full_delete full = do {
     _ \<leftarrow> munmap (case h_data full of Mapped \<Rightarrow> 8 | Heap _ \<Rightarrow> 16);
     _ \<leftarrow> fclose (h_file full);
     free }"

text \<open>What \<open>ethash_full_compute\<close> finds behind a handle.\<close>

definition nodes_of :: "u8 list \<Rightarrow> node list" where
  "nodes_of bs = map (\<lambda>i. node_words (take 64 (drop (64 * i) bs))) [0..<length bs div 64]"

definition handle_bytes :: "full_handle \<Rightarrow> os \<Rightarrow> u8 list" where
  "handle_bytes h s = (case h_data h of Mapped \<Rightarrow> take (unat (h_file_size h)) (drop 8 (content (st_path (h_file h)) s)) | Heap bs \<Rightarrow> bs)"

definition full_of :: "full_handle \<Rightarrow> os \<Rightarrow> ethash_full" where
  "full_of h s = \<lparr>file_size = h_file_size h, data = nodes_of (handle_bytes h s)\<rparr>"

end
