(* ===== verification/Ethash_Io_Rules.thy ===== *)
theory Ethash_Io_Rules
  imports Ethash_Io Ethash_Proofs
begin

text \<open>
  Weakest preconditions for the operations of Ethash\_Io, from the single calls of the system up to the loading,
  filling and finishing of a DAG: what each does to the contents of the file, to the contents it had on the way, and
  to the streams, blocks and mappings that the process holds.
\<close>

section \<open>Reasoning about the operations\<close>

text \<open>The weakest precondition of an operation.\<close>

definition wp :: "'a io \<Rightarrow> ('a \<Rightarrow> os \<Rightarrow> bool) \<Rightarrow> os \<Rightarrow> bool" where
  "wp m Q s = (case run_state m s of (x, s') \<Rightarrow> Q x s')"

named_theorems wp_simps "weakest preconditions of the combinators"

lemma wp_return [wp_simps]: "wp (State_Monad.return x) Q = Q x"
  by (rule ext) (simp add: wp_def)

lemma wp_bind [wp_simps]: "wp (State_Monad.bind m f) Q = wp m (\<lambda>x. wp (f x) Q)"
  by (rule ext) (simp add: wp_def split: prod.splits)

lemma wp_update [wp_simps]: "wp (State_Monad.update f) Q = (\<lambda>s. Q () (f s))"
  by (rule ext) (simp add: wp_def State_Monad.update_def)

lemma wp_get [wp_simps]: "wp State_Monad.get Q = (\<lambda>s. Q s s)"
  by (rule ext) (simp add: wp_def)

lemma wp_if [wp_simps]: "wp (if b then m else n) Q = (if b then wp m Q else wp n Q)"
  by simp

lemma wp_mono: "wp m Q s \<Longrightarrow> (\<And>x s'. Q x s' \<Longrightarrow> R x s') \<Longrightarrow> wp m R s"
  by (simp add: wp_def split: prod.splits)

text \<open>The contents of the files with their history, and what the process holds.\<close>

definition disk :: "os \<Rightarrow> (string \<Rightarrow> u8 list option) \<times> (string \<times> u8 list) list" where
  "disk s = (files s, trace s)"

definition held :: "os \<Rightarrow> nat \<times> nat \<times> nat" where
  "held s = (streams s, blocks s, maps s)"

lemma wp_ask: "(\<And>a s'. disk s' = disk s \<Longrightarrow> held s' = held s \<Longrightarrow> Q a s') \<Longrightarrow> wp ask Q s"
  by (auto simp: wp_def ask_def disk_def held_def split: list.splits)

lemma wp_succeeds: "(\<And>a s'. disk s' = disk s \<Longrightarrow> held s' = held s \<Longrightarrow> Q a s') \<Longrightarrow> wp succeeds Q s"
  by (auto simp: succeeds_def wp_simps intro!: wp_ask)

lemma wp_malloc:
  assumes "\<And>s'. disk s' = disk s \<Longrightarrow> held s' = held s \<Longrightarrow> Q False s'"
    "\<And>s'. disk s' = disk s \<Longrightarrow> held s' = (streams s, blocks s + 1, maps s) \<Longrightarrow> Q True s'"
  shows "wp malloc Q s"
  unfolding malloc_def wp_simps
  by (rule wp_succeeds) (use assms in \<open>auto simp: wp_simps disk_def held_def\<close>)

lemma wp_mmap:
  assumes "\<And>s'. disk s' = disk s \<Longrightarrow> held s' = held s \<Longrightarrow> Q False s'"
    "\<And>s'. disk s' = disk s \<Longrightarrow> held s' = (streams s, blocks s, maps s + 1) \<Longrightarrow> Q True s'"
  shows "wp mmap Q s"
  unfolding mmap_def wp_simps
  by (rule wp_succeeds) (use assms in \<open>auto simp: wp_simps disk_def held_def\<close>)

lemma wp_free:
  "(\<And>s'. disk s' = disk s \<Longrightarrow> held s' = (streams s, blocks s - 1, maps s) \<Longrightarrow> Q () s') \<Longrightarrow> wp free Q s"
  by (simp add: free_def wp_simps disk_def held_def)

lemma wp_fread:
  assumes "\<And>s'. disk s' = disk s \<Longrightarrow> held s' = held s \<Longrightarrow> Q (None, f\<lparr>st_pos := st_pos f + length (take n (drop (st_pos f) (content (st_path f) s)))\<rparr>) s'"
    "\<And>s'. disk s' = disk s \<Longrightarrow> held s' = held s \<Longrightarrow> 0 < n \<Longrightarrow> st_pos f + n \<le> length (content (st_path f) s) \<Longrightarrow>
      Q (Some (take n (drop (st_pos f) (content (st_path f) s))), f\<lparr>st_pos := st_pos f + n\<rparr>) s'"
  shows "wp (fread n f) Q s"
  unfolding fread_def wp_simps Let_def
  by (rule wp_succeeds) (use assms in \<open>auto simp: wp_simps disk_def content_def min_def\<close>)

lemma wp_file_size:
  assumes "\<And>s'. disk s' = disk s \<Longrightarrow> held s' = held s \<Longrightarrow> Q None s'"
    "\<And>s'. disk s' = disk s \<Longrightarrow> held s' = held s \<Longrightarrow> Q (Some (of_nat (length (content (st_path f) s)))) s'"
  shows "wp (ethash_file_size f) Q s"
  unfolding ethash_file_size_def wp_simps
  by (rule wp_succeeds) (use assms in \<open>auto simp: wp_simps disk_def content_def\<close>)

lemma wp_fopen_rb:
  assumes "\<And>s'. disk s' = disk s \<Longrightarrow> held s' = held s \<Longrightarrow> Q None s'"
    "\<And>s' c. disk s' = disk s \<Longrightarrow> held s' = (streams s + 1, blocks s, maps s) \<Longrightarrow> files s p = Some c \<Longrightarrow>
      Q (Some \<lparr>st_path = p, st_pos = 0, st_pending = []\<rparr>) s'"
  shows "wp (ethash_fopen_rb p) Q s"
  unfolding ethash_fopen_rb_def wp_simps
  by (rule wp_succeeds) (use assms in \<open>auto simp: wp_simps disk_def held_def\<close>)

lemma wp_fopen_wb:
  assumes "\<And>s'. disk s' = disk s \<Longrightarrow> held s' = held s \<Longrightarrow> Q None s'"
    "\<And>s'. disk s' = disk (store p [] s) \<Longrightarrow> held s' = (streams s + 1, blocks s, maps s) \<Longrightarrow>
      Q (Some \<lparr>st_path = p, st_pos = 0, st_pending = []\<rparr>) s'"
  shows "wp (ethash_fopen_wb p) Q s"
  unfolding ethash_fopen_wb_def wp_simps
  by (rule wp_succeeds) (use assms in \<open>auto simp: wp_simps disk_def held_def store_def\<close>)

lemma wp_mkdir: "(\<And>a s'. disk s' = disk s \<Longrightarrow> held s' = held s \<Longrightarrow> Q a s') \<Longrightarrow> wp ethash_mkdir Q s"
  by (auto simp: ethash_mkdir_def wp_simps Let_def intro!: wp_ask)

lemma wp_create_filename:
  assumes "\<And>s'. disk s' = disk s \<Longrightarrow> held s' = held s \<Longrightarrow> Q None s'"
    "\<And>s'. disk s' = disk s \<Longrightarrow> held s' = (streams s, blocks s + 1, maps s) \<Longrightarrow> Q (Some (filename d n)) s'"
  shows "wp (ethash_io_create_filename d n) Q s"
  unfolding ethash_io_create_filename_def wp_simps
  by (rule wp_malloc) (use assms in auto)

section \<open>Streams and the contents of files\<close>

lemma overlay_overlay: "overlay (b + length xs) ys (overlay b xs c) = overlay b (xs @ ys) c"
proof (cases "xs = [] \<or> ys = []")
  case False
  let ?t = "take b (c @ replicate (b - length c) 0)" and ?d = "drop (b + length xs) c"
  have t: "length ?t = b" by simp
  have "length (?t @ xs @ ?d) \<ge> b + length xs" using t by simp
  then have "overlay (b + length xs) ys (?t @ xs @ ?d) =
      take (b + length xs) (?t @ xs @ ?d) @ ys @ drop (b + length xs + length ys) (?t @ xs @ ?d)"
    using False by (simp add: overlay_def)
  also have "take (b + length xs) (?t @ xs @ ?d) = ?t @ xs" using t by simp
  also have "drop (b + length xs + length ys) (?t @ xs @ ?d) = drop (b + length (xs @ ys)) c"
    using t by (simp add: ac_simps)
  finally show ?thesis using False by (simp add: overlay_def)
qed (auto simp: overlay_def)

text \<open>Every content that a file has had is one of the file \<open>p\<close> and satisfies \<open>T\<close>.\<close>

definition traced :: "string \<Rightarrow> (u8 list \<Rightarrow> bool) \<Rightarrow> os \<Rightarrow> bool" where
  "traced p T s \<longleftrightarrow> (\<forall>(q, c)\<in>set (trace s). q = p \<and> T c)"

definition holds :: "string \<Rightarrow> (u8 list \<Rightarrow> bool) \<Rightarrow> u8 list \<Rightarrow> os \<Rightarrow> bool" where
  "holds p T c s \<longleftrightarrow> files s p = Some c \<and> traced p T s"

lemma disk_cong:
  "disk s' = disk s \<Longrightarrow> holds p T c s' = holds p T c s" "disk s' = disk s \<Longrightarrow> traced p T s' = traced p T s"
  "disk s' = disk s \<Longrightarrow> files s' = files s" "disk s' = disk s \<Longrightarrow> content p s' = content p s"
  by (simp_all add: disk_def holds_def traced_def content_def)

lemma disk_holds: "disk s' = disk s \<Longrightarrow> holds p T c s \<Longrightarrow> holds p T c s'"
  by (simp only: disk_cong(1) [of s' s])

lemma disk_traced: "disk s' = disk s \<Longrightarrow> traced p T s \<Longrightarrow> traced p T s'"
  by (simp only: disk_cong(2) [of s' s])

lemma holds_traced: "holds p T c s \<Longrightarrow> traced p T s"
  by (simp add: holds_def)

lemma holds_content: "holds p T c s \<Longrightarrow> content p s = c"
  by (simp add: holds_def content_def)

lemma holds_store: "traced p T s \<Longrightarrow> T c \<Longrightarrow> holds p T c (store p c s)"
  by (simp add: holds_def traced_def store_def)

lemma held_store [simp]: "held (store p c s) = held s"
  by (simp add: held_def store_def)

lemma held_write_out [simp]: "held (write_out p b bs s) = held s"
  by (induction p b bs s rule: write_out.induct) simp_all

lemma holds_write_out:
  assumes "holds p T c s" "\<And>j. j \<le> length bs \<Longrightarrow> T (overlay b (take j bs) c)"
  shows "holds p T (overlay b bs c) (write_out p b bs s)"
  using assms
proof (induction p b bs s arbitrary: c rule: write_out.induct)
  case (1 p pos s)
  then show ?case by (simp add: overlay_def)
next
  case (2 p pos b bs s)
  have step: "overlay (Suc pos) ys (overlay pos [b] c) = overlay pos (b # ys) c" for ys
    using overlay_overlay [of pos "[b]" ys c] by simp
  have "holds p T (overlay pos [b] c) (store p (overlay pos [b] (content p s)) s)"
    unfolding holds_content [OF 2(2)] using 2(2) 2(3) [of 1] by (intro holds_store) (simp_all add: holds_def)
  moreover have "T (overlay (Suc pos) (take j bs) (overlay pos [b] c))" if "j \<le> length bs" for j
    using 2(3) [of "Suc j"] that by (simp add: step)
  ultimately have "holds p T (overlay (Suc pos) bs (overlay pos [b] c))
      (write_out p (Suc pos) bs (store p (overlay pos [b] (content p s)) s))" by (rule 2(1))
  then show ?case by (simp add: step)
qed

text \<open>Of the bytes \<open>W\<close> written to the stream since its position was \<open>b\<close>, the first are in the file and the others pending.\<close>

definition sent :: "string \<Rightarrow> (u8 list \<Rightarrow> bool) \<Rightarrow> nat \<Rightarrow> u8 list \<Rightarrow> u8 list \<Rightarrow> stream \<Rightarrow> os \<Rightarrow> bool" where
  "sent p T b c W f s \<longleftrightarrow>
     st_path f = p \<and> (\<exists>j\<le>length W. st_pos f = b + j \<and> st_pending f = drop j W \<and> holds p T (overlay b (take j W) c) s)"

lemma sent_start: "holds p T c s \<Longrightarrow> sent p T b c [] \<lparr>st_path = p, st_pos = b, st_pending = []\<rparr> s"
  by (simp add: sent_def overlay_def)

lemma wp_push:
  assumes "sent p T b c W f s" "\<And>j. j \<le> length W \<Longrightarrow> T (overlay b (take j W) c)"
    "\<And>g s'. sent p T b c W g s' \<Longrightarrow> held s' = held s \<Longrightarrow> (length (st_pending f) \<le> k \<Longrightarrow> st_pending g = []) \<Longrightarrow> Q g s'"
  shows "wp (push k f) Q s"
proof -
  obtain j where j: "j \<le> length W" "holds p T (overlay b (take j W) c) s"
    and f: "st_path f = p" "st_pos f = b + j" "st_pending f = drop j W" using assms(1) by (auto simp: sent_def)
  let ?xs = "take k (drop j W)" and ?s = "write_out p (b + j) (take k (drop j W)) s"
  have o: "overlay (b + j) (take i (drop j W)) (overlay b (take j W) c) = overlay b (take (j + i) W) c" for i
    using overlay_overlay [of b "take j W" "take i (drop j W)" c] j(1) by (simp add: take_add)
  have l: "j + length ?xs = min (j + k) (length W)" using j(1) by auto
  have t: "take (j + k) W = take (min (j + k) (length W)) W" by (simp add: min_def)
  have "holds p T (overlay (b + j) ?xs (overlay b (take j W) c)) ?s"
  proof (rule holds_write_out [OF j(2)])
    fix i assume "i \<le> length ?xs"
    then show "T (overlay (b + j) (take i ?xs) (overlay b (take j W) c))"
      using assms(2) [of "j + i"] o [of i] j(1) by (auto simp: min_absorb1)
  qed
  then have "sent p T b c W (f\<lparr>st_pos := st_pos f + length ?xs, st_pending := drop k (st_pending f)\<rparr>) ?s"
    unfolding sent_def o using j l t f
    by (intro conjI exI [of _ "j + length ?xs"]) (auto simp: min_def add.commute)
  then show ?thesis
    using assms(3) f by (simp add: push_def wp_simps)
qed

lemma sent_append:
  assumes "sent p T b c W f s"
  shows "sent p T b c (W @ bs) (f\<lparr>st_pending := st_pending f @ bs\<rparr>) s"
proof -
  obtain j where "j \<le> length W" "holds p T (overlay b (take j W) c) s"
    "st_path f = p" "st_pos f = b + j" "st_pending f = drop j W" using assms by (auto simp: sent_def)
  then show ?thesis by (auto simp: sent_def intro!: exI [of _ j])
qed

lemma sent_disk: "disk s' = disk s \<Longrightarrow> sent p T b c W f s' = sent p T b c W f s"
  unfolding sent_def by (simp only: disk_cong(1) [of s' s])

text \<open>A stream of \<open>p\<close> with nothing pending, and the contents of the file some or other.\<close>

definition idle :: "string \<Rightarrow> stream \<Rightarrow> bool" where
  "idle p f \<longleftrightarrow> st_path f = p \<and> st_pending f = []"

lemma sent_dropped: "sent p T b c W f s \<Longrightarrow> idle p (drop_pending f) \<and> (\<exists>c'. holds p T c' s)"
  by (auto simp: sent_def idle_def drop_pending_def)

lemma sent_idle: "sent p T b c W f s \<Longrightarrow> idle p f \<Longrightarrow> f = \<lparr>st_path = p, st_pos = b + length W, st_pending = []\<rparr> \<and> holds p T (overlay b W c) s"
  by (cases f) (auto simp: sent_def idle_def)

lemma wp_fwrite:
  assumes "sent p T b c W f s" "\<And>j. j \<le> length (W @ bs) \<Longrightarrow> T (overlay b (take j (W @ bs)) c)"
    "\<And>g s'. sent p T b c (W @ bs) g s' \<Longrightarrow> held s' = held s \<Longrightarrow> Q (True, g) s'"
    "\<And>g s' c'. idle p g \<Longrightarrow> holds p T c' s' \<Longrightarrow> held s' = held s \<Longrightarrow> Q (False, g) s'"
  shows "wp (fwrite bs f) Q s"
  unfolding fwrite_def wp_simps Let_def
proof (rule wp_ask)
  fix a s' assume s': "disk s' = disk s" "held s' = held s"
  let ?f = "f\<lparr>st_pending := st_pending f @ bs\<rparr>"
  have f: "sent p T b c (W @ bs) ?f s'" using sent_append [OF assms(1)] unfolding sent_disk [OF s'(1)] .
  have fails: "Q (False, drop_pending g) t" if "sent p T b c (W @ bs) g t" "held t = held s" for g t
    using sent_dropped [OF that(1)] assms(4) [OF _ _ that(2)] by (elim conjE exE)
  have sends: "wp (push k ?f) (\<lambda>g. R g) s'"
    if "\<And>g t. sent p T b c (W @ bs) g t \<Longrightarrow> held t = held s \<Longrightarrow> R g t" for k R
    by (rule wp_push [OF f assms(2)]) (use that s' in auto)
  show "wp (case a of Done \<Rightarrow> State_Monad.return (True, ?f) | Fails \<Rightarrow> State_Monad.return (False, drop_pending ?f)
      | Exists \<Rightarrow> State_Monad.return (True, ?f)
      | Sent k \<Rightarrow> push k ?f \<bind> (\<lambda>f. State_Monad.return (True, f))
      | Cut k \<Rightarrow> push k ?f \<bind> (\<lambda>f. State_Monad.return (False, drop_pending f))) Q s'"
  proof (cases a)
    case (Sent k)
    show ?thesis unfolding Sent answer.case wp_simps by (rule sends [OF assms(3)])
  next
    case (Cut k)
    show ?thesis unfolding Cut answer.case wp_simps by (rule sends [OF fails])
  qed (simp_all add: wp_simps fails [OF f s'(2)] assms(3) [OF f s'(2)])
qed

lemma wp_fflush:
  assumes "sent p T b c W f s" "\<And>j. j \<le> length W \<Longrightarrow> T (overlay b (take j W) c)"
    "\<And>s'. holds p T (overlay b W c) s' \<Longrightarrow> held s' = held s \<Longrightarrow>
      Q (True, \<lparr>st_path = p, st_pos = b + length W, st_pending = []\<rparr>) s'"
    "\<And>g s' c'. idle p g \<Longrightarrow> holds p T c' s' \<Longrightarrow> held s' = held s \<Longrightarrow> Q (False, g) s'"
  shows "wp (fflush f) Q s"
  unfolding fflush_def wp_simps
proof (rule wp_ask)
  fix a s' assume s': "disk s' = disk s" "held s' = held s"
  have f: "sent p T b c W f s'" using assms(1) unfolding sent_disk [OF s'(1)] .
  have fails: "Q (False, drop_pending g) t" if "sent p T b c W g t" "held t = held s" for g t
    using sent_dropped [OF that(1)] assms(4) [OF _ _ that(2)] by (elim conjE exE)
  have cut: "wp (push k f) (\<lambda>g. Q (False, drop_pending g)) s'" for k
    by (rule wp_push [OF f assms(2)]) (use fails s' in auto)
  have all: "wp (push (length (st_pending f)) f) (\<lambda>g. Q (True, g)) s'"
  proof (rule wp_push [OF f assms(2)])
    fix g t assume g: "sent p T b c W g t" "held t = held s'" "length (st_pending f) \<le> length (st_pending f) \<Longrightarrow> st_pending g = []"
    then have "idle p g" by (auto simp: idle_def sent_def)
    with sent_idle [OF g(1)] g(2) s'(2) assms(3) show "Q (True, g) t" by simp
  qed
  show "wp (case a of Fails \<Rightarrow> State_Monad.return (False, drop_pending f)
      | Cut k \<Rightarrow> push k f \<bind> (\<lambda>f. State_Monad.return (False, drop_pending f))
      | _ \<Rightarrow> push (length (st_pending f)) f \<bind> (\<lambda>f. State_Monad.return (True, f))) Q s'"
    using cut all fails [OF f s'(2)] by (cases a) (simp_all add: wp_simps)
qed

lemma no_pending: "st_pending f = [] \<Longrightarrow> f\<lparr>st_pending := []\<rparr> = f"
  by (cases f) simp

lemma wp_fflush_idle:
  assumes "st_pending f = []" "\<And>ok s'. disk s' = disk s \<Longrightarrow> held s' = held s \<Longrightarrow> Q (ok, f) s'"
  shows "wp (fflush f) Q s"
  unfolding fflush_def wp_simps
  by (rule wp_ask) (use assms in \<open>auto simp: wp_simps push_def drop_pending_def no_pending split: answer.splits\<close>)

lemma wp_fseek_idle:
  assumes "st_pending f = []" "\<And>s'. disk s' = disk s \<Longrightarrow> held s' = held s \<Longrightarrow> Q (False, f) s'"
    "\<And>s'. disk s' = disk s \<Longrightarrow> held s' = held s \<Longrightarrow> 0 \<le> offset \<Longrightarrow> Q (True, f\<lparr>st_pos := nat offset\<rparr>) s'"
  shows "wp (fseek offset f) Q s"
  unfolding fseek_def wp_simps
  by (rule wp_fflush_idle [OF assms(1)]) (use assms(2,3) in \<open>auto simp: wp_simps\<close>)

lemma wp_fclose_idle:
  assumes "st_pending f = []" "\<And>s'. disk s' = disk s \<Longrightarrow> held s' = (streams s - 1, blocks s, maps s) \<Longrightarrow> Q () s'"
  shows "wp (fclose f) Q s"
  unfolding fclose_def wp_simps
  by (rule wp_fflush_idle [OF assms(1)]) (auto simp: disk_def held_def intro!: assms(2))

section \<open>The file prepared by \<open>ethash_io_prepare\<close>\<close>

text \<open>What is taken for a complete DAG.\<close>

definition accepted :: "u64 \<Rightarrow> u8 list \<Rightarrow> bool" where
  "accepted fsize c \<longleftrightarrow> of_nat (length c) - 8 = fsize \<and> 8 \<le> length c \<and> word_of_int (le_val (take 8 c)) = ETHASH_DAG_MAGIC_NUM"

lemma held_eq: "held s = (streams s, blocks s, maps s)"
  by (simp add: held_def)

lemma wp_close_with:
  assumes "st_pending f = []" "\<And>s'. disk s' = disk s \<Longrightarrow> held s' = (streams s - 1, blocks s, maps s) \<Longrightarrow> Q (rc, None) s'"
  shows "wp (close_with f rc) Q s"
  unfolding close_with_def wp_simps by (rule wp_fclose_idle [OF assms(1)]) (rule assms(2))

lemma wp_io_check:
  assumes "f = \<lparr>st_path = p, st_pos = 0, st_pending = []\<rparr>"
    "\<And>s'. disk s' = disk s \<Longrightarrow> held s' = held s \<Longrightarrow> accepted fsize (content p s) \<Longrightarrow>
      Q (ETHASH_IO_MEMO_MATCH, Some \<lparr>st_path = p, st_pos = 8, st_pending = []\<rparr>) s'"
    "\<And>rc s'. disk s' = disk s \<Longrightarrow> held s' = (streams s - 1, blocks s, maps s) \<Longrightarrow>
      rc = ETHASH_IO_FAIL \<or> rc = ETHASH_IO_MEMO_SIZE_MISMATCH \<Longrightarrow> Q (rc, None) s'"
  shows "wp (io_check fsize f) Q s"
proof -
  have closes: "wp (close_with g rc) Q t"
    if "disk t = disk s" "held t = held s" "st_pending g = []" "rc = ETHASH_IO_FAIL \<or> rc = ETHASH_IO_MEMO_SIZE_MISMATCH" for g t rc
    using that(1,2) by (intro wp_close_with [OF that(3)] assms(3)) (use that(4) in \<open>auto simp: held_def\<close>)
  show ?thesis
    unfolding io_check_def wp_simps
  proof (rule wp_file_size; simp only: option.case)
    fix t assume t: "disk t = disk s" "held t = held s"
    show "wp (close_with f ETHASH_IO_FAIL) Q t" by (rule closes [OF t]) (simp_all add: assms(1))
    have "wp (fread 8 f) (\<lambda>(r, g). wp (case r of None \<Rightarrow> close_with g ETHASH_IO_MEMO_SIZE_MISMATCH
          | Some bs \<Rightarrow> if word_of_int (le_val bs) \<noteq> ETHASH_DAG_MAGIC_NUM then close_with g ETHASH_IO_MEMO_SIZE_MISMATCH
            else State_Monad.return (ETHASH_IO_MEMO_MATCH, Some g)) Q) t"
      if sz: "fsize = of_nat (length (content p s)) - 8"
    proof (rule wp_fread; simp only: prod.case option.case)
      fix u assume u: "disk u = disk t" "held u = held t"
      show "wp (close_with (f\<lparr>st_pos := st_pos f + length (take 8 (drop (st_pos f) (content (st_path f) t)))\<rparr>)
          ETHASH_IO_MEMO_SIZE_MISMATCH) Q u"
        by (rule closes) (simp_all add: assms(1) u t)
      assume le: "st_pos f + 8 \<le> length (content (st_path f) t)"
      then have "8 \<le> length (content p s)" using t(1) by (simp add: assms(1) disk_def content_def)
      then show "wp (if word_of_int (le_val (take 8 (drop (st_pos f) (content (st_path f) t)))) \<noteq> ETHASH_DAG_MAGIC_NUM
          then close_with (f\<lparr>st_pos := st_pos f + 8\<rparr>) ETHASH_IO_MEMO_SIZE_MISMATCH
          else State_Monad.return (ETHASH_IO_MEMO_MATCH, Some (f\<lparr>st_pos := st_pos f + 8\<rparr>))) Q u"
        using closes [of u "f\<lparr>st_pos := st_pos f + 8\<rparr>" ETHASH_IO_MEMO_SIZE_MISMATCH] assms(2) [of u] u t sz disk_cong(4) [OF t(1), of p]
        by (simp add: wp_simps assms(1) accepted_def)
    qed
    then show "wp (if fsize \<noteq> of_nat (length (content (st_path f) s)) - 8 then close_with f ETHASH_IO_MEMO_SIZE_MISMATCH
        else fread 8 f \<bind> (\<lambda>(magic_num, f). case magic_num of None \<Rightarrow> close_with f ETHASH_IO_MEMO_SIZE_MISMATCH
          | Some bs \<Rightarrow> if word_of_int (le_val bs) \<noteq> ETHASH_DAG_MAGIC_NUM then close_with f ETHASH_IO_MEMO_SIZE_MISMATCH
            else State_Monad.return (ETHASH_IO_MEMO_MATCH, Some f))) Q t"
      using closes [OF t, of f ETHASH_IO_MEMO_SIZE_MISMATCH] by (auto simp: wp_simps assms(1) case_prod_beta')
  qed
qed

text \<open>A new file: zeros with a newline at the end.\<close>

definition new_content :: "u64 \<Rightarrow> u8 list" where
  "new_content fsize = replicate (unat fsize + 7) 0 @ [10]"

lemma file_end: "fsize < 2 ^ 38 \<Longrightarrow> 0 \<le> sint (fsize + 8 - 1 :: u64) \<and> nat (sint (fsize + 8 - 1)) = unat fsize + 7"
proof -
  assume a: "fsize < 2 ^ 38"
  then have "unat fsize < 2 ^ 38" by (simp add: word_less_nat_alt)
  then have u: "unat (fsize + 8 - 1) = unat fsize + 7" by (simp add: unat_word_ariths)
  have v: "uint (fsize + 8 - 1) = int (unat fsize + 7)" by (simp only: uint_nat u)
  have b: "int (unat fsize + 7) < 2 ^ 63"
  proof -
    have "unat fsize + 7 < 2 ^ 63" using \<open>unat fsize < 2 ^ 38\<close> by simp
    then have "int (unat fsize + 7) < int (2 ^ 63)" unfolding of_nat_less_iff .
    then show ?thesis by simp
  qed
  have "signed_take_bit 63 (int (unat fsize + 7)) = int (unat fsize + 7)"
    by (rule signed_take_bit_int_eq_self [OF _ b], rule order_trans [of _ 0]) simp_all
  then have "sint (fsize + 8 - 1) = int (unat fsize + 7)" unfolding sint_uint v by simp
  then show ?thesis by (simp only: of_nat_0_le_iff nat_int simp_thms)
qed

lemma overlay_new: "overlay (unat fsize + 7) [10] [] = new_content fsize"
  by (simp add: overlay_def new_content_def)

lemma wp_io_create:
  assumes "traced p T s" "T []" "T (new_content fsize)" "fsize < 2 ^ 38"
    "\<And>s'. holds p T (new_content fsize) s' \<Longrightarrow> held s' = (streams s + 1, blocks s, maps s) \<Longrightarrow>
      Q (ETHASH_IO_MEMO_MISMATCH, Some \<lparr>st_path = p, st_pos = unat fsize + 8, st_pending = []\<rparr>) s'"
    "\<And>s'. traced p T s' \<Longrightarrow> held s' = held s \<Longrightarrow> Q (ETHASH_IO_FAIL, None) s'"
  shows "wp (io_create fsize p) Q s"
proof -
  have W: "T (overlay (unat fsize + 7) (take j [10]) [])" if "j \<le> length [10::u8]" for j
    using that assms(2,3) by (cases j) (simp_all add: overlay_new, simp add: overlay_def)
  have closes: "wp (close_with g ETHASH_IO_FAIL) Q t"
    if "traced p T t" "held t = (streams s + 1, blocks s, maps s)" "st_pending g = []" for g t
    by (rule wp_close_with [OF that(3)], rule assms(6)) (use that in \<open>auto simp: held_def elim: disk_traced\<close>)
  show ?thesis
    unfolding io_create_def wp_simps
  proof (rule wp_fopen_wb; simp only: option.case)
    fix t assume "disk t = disk s" "held t = held s"
    then show "wp (State_Monad.return (ETHASH_IO_FAIL, None)) Q t"
      using assms(1,6) by (simp add: wp_simps traced_def disk_def)
  next
    fix t assume t: "disk t = disk (store p [] s)" "held t = (streams s + 1, blocks s, maps s)"
    let ?f = "\<lparr>st_path = p, st_pos = 0, st_pending = []\<rparr>" and ?g = "\<lparr>st_path = p, st_pos = unat fsize + 7, st_pending = []\<rparr>"
    have h: "holds p T [] t" by (rule disk_holds [OF t(1) holds_store [OF assms(1,2)]])
    have finish: "wp (fwrite [10] ?g) (\<lambda>x. wp (case x of (ok, f) \<Rightarrow> if \<not> ok then close_with f ETHASH_IO_FAIL else
        fflush f \<bind> (\<lambda>(ok, f). if \<not> ok then close_with f ETHASH_IO_FAIL
          else State_Monad.return (ETHASH_IO_MEMO_MISMATCH, Some f))) Q) u"
      if u: "disk u = disk t" "held u = held t" for u
    proof (rule wp_fwrite [OF sent_start [OF disk_holds [OF u(1) h]]], goal_cases)
      case (1 j)
      then show ?case using W by simp
    next
      case (2 g v)
      then have v: "sent p T (unat fsize + 7) [] [10] g v" "held v = held u" by simp_all
      have "wp (fflush g) (\<lambda>x. wp (case x of (ok, f) \<Rightarrow> if \<not> ok then close_with f ETHASH_IO_FAIL
          else State_Monad.return (ETHASH_IO_MEMO_MISMATCH, Some f)) Q) v"
      proof (rule wp_fflush [OF v(1)], goal_cases)
        case (2 s')
        then have "holds p T (new_content fsize) s'" "held s' = (streams s + 1, blocks s, maps s)"
          using v(2) u(2) t(2) by (simp_all only: overlay_new)
        then show ?case using assms(5) [of s'] by (simp add: wp_simps add.commute)
      next
        case (3 g s' c')
        then show ?case using closes [of s' g] v(2) u(2) t(2) by (simp add: wp_simps idle_def holds_traced)
      qed (rule W)
      then show ?case by (simp add: wp_simps)
    next
      case (3 g v c')
      then show ?case using closes [of v g] u(2) t(2) by (simp add: wp_simps idle_def holds_traced)
    qed
    show "wp (fseek (sint (fsize + 8 - 1)) ?f \<bind> (\<lambda>(ok, f). if \<not> ok then close_with f ETHASH_IO_FAIL else
        fwrite [10] f \<bind> (\<lambda>(ok, f). if \<not> ok then close_with f ETHASH_IO_FAIL else
        fflush f \<bind> (\<lambda>(ok, f). if \<not> ok then close_with f ETHASH_IO_FAIL
          else State_Monad.return (ETHASH_IO_MEMO_MISMATCH, Some f))))) Q t"
      unfolding wp_simps
    proof (rule wp_fseek_idle, goal_cases)
      case (2 u)
      then show ?case
        using t(2) closes [OF disk_traced [OF _ holds_traced [OF h]], of u ?f] by (simp add: wp_simps)
    next
      case (3 u)
      have "?f\<lparr>st_pos := nat (sint (fsize + 8 - 1))\<rparr> = ?g" using file_end [OF assms(4)] by simp
      with finish [OF 3(1,2)] show ?case by (simp only: prod.case not_True_eq_False if_False wp_simps)
    qed simp
  qed
qed

definition dag_path :: "string \<Rightarrow> u8 list \<Rightarrow> string" where
  "dag_path dirname seed = filename dirname (ethash_io_mutable_name ETHASH_REVISION seed)"

text \<open>What \<open>ethash_io_prepare\<close> promises of its code, its stream and the state.\<close>

definition prepared :: "string \<Rightarrow> (u8 list \<Rightarrow> bool) \<Rightarrow> u64 \<Rightarrow> bool \<Rightarrow> os \<Rightarrow> io_rc \<times> stream option \<Rightarrow> os \<Rightarrow> bool" where
  "prepared p T fsize force s r s' =
     (case r of
        (ETHASH_IO_MEMO_MATCH, Some f) \<Rightarrow>
          \<not> force \<and> f = \<lparr>st_path = p, st_pos = 8, st_pending = []\<rparr> \<and> holds p T (content p s) s' \<and> files s p \<noteq> None \<and>
          accepted fsize (content p s) \<and> held s' = (streams s + 1, blocks s, maps s)
      | (ETHASH_IO_MEMO_MISMATCH, Some f) \<Rightarrow>
          f = \<lparr>st_path = p, st_pos = unat fsize + 8, st_pending = []\<rparr> \<and> holds p T (new_content fsize) s' \<and>
          held s' = (streams s + 1, blocks s, maps s)
      | (ETHASH_IO_MEMO_SIZE_MISMATCH, None) \<Rightarrow> \<not> force \<and> traced p T s' \<and> held s' = held s
      | (ETHASH_IO_FAIL, None) \<Rightarrow> traced p T s' \<and> held s' = held s
      | _ \<Rightarrow> False)"

lemma wp_prepare:
  assumes "traced p T s" "T []" "T (new_content fsize)" "fsize < 2 ^ 38" "p = dag_path dirname seed"
  shows "wp (ethash_io_prepare dirname seed fsize force) (prepared p T fsize force s) s"
  unfolding ethash_io_prepare_def wp_simps
proof (rule wp_mkdir, goal_cases)
  case (1 ok t)
  have P: "filename dirname (ethash_io_mutable_name ETHASH_REVISION seed) = p" by (simp add: assms(5) dag_path_def)
  have t: "traced p T t" "content p t = content p s" "files t = files s"
    using disk_traced [OF 1(1) assms(1)] disk_cong [OF 1(1)] by simp_all
  have last: "wp (case f of None \<Rightarrow> io_create fsize p | Some f \<Rightarrow> io_check fsize f)
      (\<lambda>x. wp free (\<lambda>xa. prepared p T fsize force s x)) u"
    if u: "disk u = disk t" "f = None \<and> held u = (streams s, blocks s + 1, maps s) \<or>
      f = Some \<lparr>st_path = p, st_pos = 0, st_pending = []\<rparr> \<and> \<not> force \<and> files s p \<noteq> None \<and> held u = (streams s + 1, blocks s + 1, maps s)" for f u
  proof (cases f)
    case None
    then have h: "held u = (streams s, blocks s + 1, maps s)" using u(2) by simp
    show ?thesis
      unfolding None option.case
    proof (rule wp_io_create [OF disk_traced [OF u(1) t(1)] assms(2-4)], goal_cases)
      case (1 s')
      then show ?case using h disk_holds [of _ s' p T]
        by (intro wp_free) (auto simp: prepared_def held_def)
    next
      case (2 s')
      then show ?case using h disk_traced [of _ s' p T]
        by (intro wp_free) (auto simp: prepared_def held_def)
    qed
  next
    case (Some g)
    then have g: "g = \<lparr>st_path = p, st_pos = 0, st_pending = []\<rparr>" "\<not> force" "files s p \<noteq> None"
      and h: "held u = (streams s + 1, blocks s + 1, maps s)" using u(2) by auto
    have c: "content p u = content p s" using disk_cong(4) [OF u(1), of p] t(2) by simp
    have H: "holds p T (content p s) u"
      using g(3) disk_traced [OF u(1) t(1)] disk_cong(3) [OF u(1)] t(3) by (auto simp: holds_def content_def)
    show ?thesis
      unfolding Some option.case
    proof (rule wp_io_check [OF g(1)], goal_cases)
      case (1 s')
      have "holds p T (content p s) s''" if "disk s'' = disk s'" for s''
        by (rule disk_holds [OF that disk_holds [OF 1(1) H]])
      then show ?case using g h 1 unfolding c
        by (intro wp_free) (auto simp: prepared_def held_def)
    next
      case (2 rc s')
      have "traced p T s''" if "disk s'' = disk s'" for s''
        by (rule disk_traced [OF that disk_traced [OF 2(1) holds_traced [OF H]]])
      then show ?case using g h 2
        by (intro wp_free) (auto simp: prepared_def held_def)
    qed
  qed
  show ?case
  proof (cases ok)
    case False
    then show ?thesis using t(1) 1(2) by (simp add: wp_simps prepared_def)
  next
    case True
    then have ok: "(\<not> ok) = False" by simp
    show ?thesis
      unfolding wp_simps ok if_False
    proof (rule wp_create_filename, goal_cases)
      case (1 s')
      then show ?case using disk_traced [OF _ t(1), of s'] \<open>held t = held s\<close> by (simp add: wp_simps prepared_def)
    next
      case (2 v)
      then have v: "disk v = disk t" "held v = (streams s, blocks s + 1, maps s)"
        using \<open>held t = held s\<close> by (auto simp: held_def)
      show ?case
      proof (cases force)
        case True
        then show ?thesis using last [OF v(1), of None] v(2) by (simp add: wp_simps P)
      next
        case False
        have "wp (ethash_fopen_rb p) (\<lambda>x. wp (case x of None \<Rightarrow> io_create fsize p | Some f \<Rightarrow> io_check fsize f)
            (\<lambda>x. wp free (\<lambda>xa. prepared p T fsize force s x))) v"
        proof (rule wp_fopen_rb, goal_cases)
          case (1 s')
          then show ?case using last [of s' None] v by simp
        next
          case (2 s' c)
          then have "files s p = Some c" using disk_cong(3) [OF v(1)] t(3) by simp
          with 2 False v show ?case by (intro last) (auto simp: held_def)
        qed
        with False show ?thesis by (simp add: wp_simps P)
      qed
    qed
  qed
qed

section \<open>Loading, filling and finishing a DAG\<close>

definition loaded :: "bool \<Rightarrow> string \<Rightarrow> (u8 list \<Rightarrow> bool) \<Rightarrow> u64 \<Rightarrow> nat \<Rightarrow> u8 list \<Rightarrow> os \<Rightarrow>
    dag_file_error \<times> dag_data option \<times> stream \<Rightarrow> os \<Rightarrow> bool" where
  "loaded M p T fsize pos c s r s' =
     (case r of (e, d, g) \<Rightarrow> holds p T c s' \<and> idle p g \<and>
       (case d of
          None \<Rightarrow> held s' = (streams s, blocks s + (if e = dfeReadError then 1 else 0), maps s)
        | Some Mapped \<Rightarrow> \<not> M \<and> e = dfeNoError \<and> held s' = (streams s, blocks s, maps s + 1)
        | Some (Heap bs) \<Rightarrow> M \<and> e = dfeNoError \<and> held s' = (streams s, blocks s + 1, maps s) \<and>
            length bs = unat fsize \<and> (pos = 8 \<longrightarrow> bs = take (unat fsize) (drop 8 c))))"

lemma wp_full_read:
  assumes "holds p T c s" "idle p f"
  shows "wp (ethash_full_read fsize f) (loaded True p T fsize (st_pos f) c s) s"
  unfolding ethash_full_read_def ethash_fileno_def wp_simps
proof (rule wp_succeeds, goal_cases)
  case (1 fd t)
  have t: "holds p T c t" by (rule disk_holds [OF 1(1) assms(1)])
  have f: "st_pending f = []" "st_path f = p" using assms(2) by (simp_all add: idle_def)
  have rest: "wp malloc (\<lambda>m. wp (if \<not> m then State_Monad.return (dfeNoMemory, None, g)
        else fread (unat fsize) g \<bind> (\<lambda>(bs, f). case bs of None \<Rightarrow> State_Monad.return (dfeReadError, None, f)
          | Some bs \<Rightarrow> State_Monad.return (dfeNoError, Some (Heap bs), f))) (loaded True p T fsize (st_pos f) c s)) u"
    if u: "holds p T c u" "held u = held s" and g: "idle p g" "st_pos f = 8 \<longrightarrow> st_pos g = 8" for g u
  proof (rule wp_malloc, goal_cases)
    case (1 v)
    then show ?case using u g disk_holds [OF 1(1) u(1)] by (simp add: wp_simps loaded_def held_def)
  next
    case (2 v)
    have v: "holds p T c v" by (rule disk_holds [OF 2(1) u(1)])
    have c: "content (st_path g) v = c" using holds_content [OF v] g(1) by (simp add: idle_def)
    have "wp (fread (unat fsize) g) (\<lambda>x. wp (case x of (bs, f) \<Rightarrow> case bs of None \<Rightarrow> State_Monad.return (dfeReadError, None, f)
          | Some bs \<Rightarrow> State_Monad.return (dfeNoError, Some (Heap bs), f)) (loaded True p T fsize (st_pos f) c s)) v"
    proof (rule wp_fread, goal_cases)
      case (1 w)
      then show ?case using 2 u g disk_holds [OF 1(1) v] by (simp add: wp_simps loaded_def held_def idle_def)
    next
      case (2 w)
      then show ?case using \<open>held v = _\<close> u g disk_holds [OF 2(1) v]
        by (auto simp: wp_simps loaded_def held_def idle_def c min_def)
    qed
    then show ?case by (simp add: wp_simps)
  qed
  show ?case
  proof (cases fd)
    case False
    then show ?thesis using t 1 assms(2) by (simp add: wp_simps loaded_def held_def)
  next
    case True
    have "wp (fseek 8 f) (\<lambda>x. wp (case x of (b, f) \<Rightarrow> malloc \<bind> (\<lambda>m. if \<not> m then State_Monad.return (dfeNoMemory, None, f)
        else fread (unat fsize) f \<bind> (\<lambda>(bs, f). case bs of None \<Rightarrow> State_Monad.return (dfeReadError, None, f)
          | Some bs \<Rightarrow> State_Monad.return (dfeNoError, Some (Heap bs), f)))) (loaded True p T fsize (st_pos f) c s)) t"
    proof (rule wp_fseek_idle [OF f(1)], goal_cases)
      case (1 u)
      then show ?case using rest [OF disk_holds [OF 1(1) t], of f] \<open>held t = held s\<close> assms(2) by (simp add: wp_simps)
    next
      case (2 u)
      then show ?case using rest [OF disk_holds [OF 2(1) t], of "f\<lparr>st_pos := 8\<rparr>"] \<open>held t = held s\<close> assms(2)
        by (simp add: wp_simps idle_def)
    qed
    with True show ?thesis by (simp add: wp_simps)
  qed
qed

lemma wp_full_load:
  assumes "holds p T c s" "idle p f"
  shows "wp (full_load M fsize f) (loaded M p T fsize (st_pos f) c s) s"
proof (cases M)
  case True
  then show ?thesis using wp_full_read [OF assms] by (simp add: full_load_def)
next
  case False
  have ret: "loaded False p T fsize (st_pos f) c s (dfeNoError, None, f) t" if "disk t = disk s" "held t = held s" for t
    using disk_holds [OF that(1) assms(1)] that(2) assms(2) by (simp add: loaded_def held_def)
  have "wp ethash_mmap (\<lambda>ok. loaded False p T fsize (st_pos f) c s (dfeNoError, if ok then Some Mapped else None, f)) s"
    unfolding ethash_mmap_def ethash_fileno_def wp_simps
  proof (rule wp_succeeds, goal_cases)
    case (1 fd t)
    have "wp mmap (\<lambda>ok. loaded False p T fsize (st_pos f) c s (dfeNoError, if ok then Some Mapped else None, f)) t"
    proof (rule wp_mmap, goal_cases)
      case (2 u)
      have "disk u = disk s" using 1 2 by simp
      then show ?case using disk_holds [OF _ assms(1), of u] 1 2 assms(2) by (simp add: loaded_def held_def)
    qed (use ret 1 in simp)
    then show ?case using 1 ret [of t] by (simp add: wp_simps)
  qed
  with False show ?thesis by (simp add: full_load_def wp_simps)
qed

text \<open>A file whose first 8 bytes are 0 is not yet a DAG; filling it does not touch them.\<close>

definition blank :: "u8 list \<Rightarrow> bool" where
  "blank c \<longleftrightarrow> take 8 c = replicate 8 0"

lemma blank_length: "blank c \<Longrightarrow> 8 \<le> length c"
  by (metis blank_def length_replicate length_take min.cobounded1)

lemma blank_overlay: "blank c \<Longrightarrow> 8 \<le> pos \<Longrightarrow> blank (overlay pos bs c)"
  using blank_length [of c] by (simp add: blank_def overlay_def min_def)

lemma blank_new: "fsize \<noteq> 0 \<Longrightarrow> blank (new_content fsize)"
  using unat_gt_0 [of fsize] by (simp add: blank_def new_content_def min_def)

lemma overlay_same: "length xs \<le> length ys \<Longrightarrow> overlay b ys (overlay b xs c) = overlay b ys c"
proof (cases "xs = [] \<or> ys = []")
  case False
  assume l: "length xs \<le> length ys"
  let ?t = "take b (c @ replicate (b - length c) 0)"
  have t: "length ?t = b" by simp
  have "take b ((?t @ xs @ drop (b + length xs) c) @ replicate k 0) = ?t" for k using t by simp
  moreover have "drop (b + length ys) (?t @ xs @ drop (b + length xs) c) = drop (b + length ys) c"
    using t l by (simp add: drop_append ac_simps)
  ultimately show ?thesis using False by (simp add: overlay_def)
qed (auto simp: overlay_def)

lemma holds_fill_mapping:
  assumes "holds p T c s" "blank c" "\<And>c. blank c \<Longrightarrow> T c"
  shows "\<exists>c'. holds p T c' (fill_mapping p torn i nodes s) \<and> blank c' \<and> held (fill_mapping p torn i nodes s) = held s \<and>
    (nodes_ok nodes \<longrightarrow> c' = overlay (8 + 64 * i) (concat (map node_bytes nodes)) c)"
  using assms(1,2)
proof (induction nodes arbitrary: i c s)
  case Nil
  then show ?case by (auto simp: overlay_def)
next
  case (Cons n ns)
  let ?a = "overlay (8 + 64 * i) (take 64 (torn i)) c"
  let ?s = "store p (overlay (8 + 64 * i) (take 64 (torn i)) (content p s)) s"
  let ?b = "overlay (8 + 64 * i) (node_bytes n) ?a"
  have a: "blank ?a" using Cons.prems(2) by (rule blank_overlay) simp
  have s: "holds p T ?a ?s"
    unfolding holds_content [OF Cons.prems(1)] by (rule holds_store [OF holds_traced [OF Cons.prems(1)] assms(3) [OF a]])
  have b: "blank ?b" using a by (rule blank_overlay) simp
  have "holds p T ?b (store p (overlay (8 + 64 * i) (node_bytes n) (content p ?s)) ?s)"
    unfolding holds_content [OF s] by (rule holds_store [OF holds_traced [OF s] assms(3) [OF b]])
  from Cons.IH [OF this b, of "Suc i"] obtain c' where
    c': "holds p T c' (fill_mapping p torn i (n # ns) s)" "blank c'" "held (fill_mapping p torn i (n # ns) s) = held s"
    "nodes_ok ns \<longrightarrow> c' = overlay (8 + 64 * Suc i) (concat (map node_bytes ns)) ?b" by (auto simp: Let_def)
  have "c' = overlay (8 + 64 * i) (concat (map node_bytes (n # ns))) c" if "nodes_ok (n # ns)"
  proof -
    have n: "length (node_bytes n) = 64" "nodes_ok ns" using that by (simp_all add: nodes_ok_def)
    then have "?b = overlay (8 + 64 * i) (node_bytes n) c" by (intro overlay_same) simp
    then show ?thesis
      using c'(4) n overlay_overlay [of "8 + 64 * i" "node_bytes n" "concat (map node_bytes ns)" c]
      by (simp add: algebra_simps)
  qed
  with c' show ?case by blast
qed

text \<open>The bytes that finish a DAG.\<close>

definition magic :: "u8 list" where
  "magic = le_bytes 8 (uint ETHASH_DAG_MAGIC_NUM)"

definition final_bytes :: "u64 \<Rightarrow> dag_data \<Rightarrow> u8 list" where
  "final_bytes fsize d = magic @ (case d of Mapped \<Rightarrow> [] | Heap bs \<Rightarrow> take (unat fsize) bs)"

text \<open>The two ends of the work on a handle, from a state that holds the stream, the handle's block and the data.\<close>

definition ended :: "bool \<Rightarrow> string \<Rightarrow> (u8 list \<Rightarrow> bool) \<Rightarrow> os \<Rightarrow> new_result \<times> dag_file_error option \<Rightarrow> os \<Rightarrow> bool" where
  "ended M p T s r s' \<longleftrightarrow> r = (Null, Some dfeNoError) \<and> traced p T s' \<and>
     held s' = (streams s - 1, blocks s - (if M then 2 else 1), maps s)"

lemma wp_fail_close_file:
  assumes "idle p f" "\<And>s'. disk s' = disk s \<Longrightarrow> held s' = (streams s - 1, blocks s - 1, maps s) \<Longrightarrow> Q (Null, Some e) s'"
  shows "wp (fail_close_file f e) Q s"
  unfolding fail_close_file_def fail_free_full_def wp_simps
  by (rule wp_fclose_idle, use assms(1) in \<open>simp add: idle_def\<close>, rule wp_free, rule assms(2)) (auto simp: held_def)

lemma wp_fail_free_full_data:
  assumes "idle p f" "traced p T t" "held t = held s"
  shows "wp (fail_free_full_data M f) (ended M p T s) t"
proof -
  have "wp (fail_close_file f dfeNoError) (ended M p T s) u"
    if "disk u = disk t" "held u = (streams t, blocks t - (if M then 1 else 0), maps t)" for u
    using that assms(3)
    by (intro wp_fail_close_file [OF assms(1)]) (auto simp: ended_def held_def intro: disk_traced [OF _ assms(2)])
  then show ?thesis
    by (cases M) (auto simp: fail_free_full_data_def munmap_def wp_simps held_def intro!: wp_free)
qed

lemma wp_full_finish:
  assumes "holds p T c s" "idle p f" "M \<longleftrightarrow> d \<noteq> Mapped"
    "\<And>j. j \<le> length (final_bytes fsize d) \<Longrightarrow> T (overlay 0 (take j (final_bytes fsize d)) c)"
  shows "wp (full_finish M fsize d f) (\<lambda>r s'. ended M p T s r s' \<or>
    r = (Full \<lparr>h_file = \<lparr>st_path = p, st_pos = length (final_bytes fsize d), st_pending = []\<rparr>, h_file_size = fsize, h_data = d\<rparr>, Some dfeNoError) \<and>
    holds p T (overlay 0 (final_bytes fsize d) c) s' \<and> held s' = held s) s"
    (is "wp _ ?Q s")
proof -
  have fails: "wp (fail_free_full_data M g) ?Q t" if "idle p g" "traced p T t" "held t = held s" for g t
    by (rule wp_mono [OF wp_fail_free_full_data [OF that]]) simp
  have flush: "wp (fflush g) (\<lambda>x. wp (case x of (ok, f) \<Rightarrow> if \<not> ok then fail_free_full_data M f
      else State_Monad.return (Full \<lparr>h_file = f, h_file_size = fsize, h_data = d\<rparr>, Some dfeNoError)) ?Q) t"
    if t: "sent p T 0 c (final_bytes fsize d) g t" "held t = held s" for g t
  proof (rule wp_fflush [OF t(1) assms(4)], goal_cases)
    case (2 s')
    then show ?case using t(2) by (simp add: wp_simps)
  next
    case (3 g s' c')
    then show ?case using fails [of g s'] t(2) by (simp add: wp_simps holds_traced)
  qed
  have data: "wp (write_data d fsize g) (\<lambda>x. wp (case x of (ok, f) \<Rightarrow> if \<not> ok then fail_free_full_data M f
      else fflush f \<bind> (\<lambda>(ok, f). if \<not> ok then fail_free_full_data M f
      else State_Monad.return (Full \<lparr>h_file = f, h_file_size = fsize, h_data = d\<rparr>, Some dfeNoError))) ?Q) t"
    if t: "sent p T 0 c magic g t" "held t = held s" for g t
  proof (cases d)
    case Mapped
    then show ?thesis using flush [of g t] t by (simp add: write_data_def wp_simps final_bytes_def)
  next
    case (Heap bs)
    have W: "final_bytes fsize d = magic @ take (unat fsize) bs" by (simp add: final_bytes_def Heap)
    show ?thesis
      unfolding write_data_def Heap dag_data.case
    proof (rule wp_fwrite [OF t(1)], goal_cases)
      case (1 j)
      then show ?case using assms(4) [of j] unfolding W by simp
    next
      case (2 g s')
      then have "sent p T 0 c (final_bytes fsize d) g s'" "held s' = held s" using t(2) by (simp_all add: W)
      from flush [OF this] show ?case unfolding Heap by (simp add: wp_simps)
    next
      case (3 g s' c')
      then show ?case using fails [of g s'] t(2) by (simp add: wp_simps holds_traced Heap)
    qed
  qed
  have magic: "wp (fwrite magic g) (\<lambda>x. wp (case x of (ok, f) \<Rightarrow> if \<not> ok then fail_free_full_data M f
      else write_data d fsize f \<bind> (\<lambda>(ok, f). if \<not> ok then fail_free_full_data M f
      else fflush f \<bind> (\<lambda>(ok, f). if \<not> ok then fail_free_full_data M f
      else State_Monad.return (Full \<lparr>h_file = f, h_file_size = fsize, h_data = d\<rparr>, Some dfeNoError)))) ?Q) t"
    if t: "sent p T 0 c [] g t" "held t = held s" for g t
  proof (rule wp_fwrite [OF t(1)], goal_cases)
    case (1 j)
    then have "take j (final_bytes fsize d) = take j magic" "j \<le> length (final_bytes fsize d)" by (simp_all add: final_bytes_def)
    then show ?case using assms(4) [of j] by simp
  next
    case (2 g s')
    then show ?case using data [of g s'] t(2) by (simp add: wp_simps)
  next
    case (3 g s' c')
    then show ?case using fails [of g s'] t(2) by (simp add: wp_simps holds_traced)
  qed
  show ?thesis
    unfolding full_finish_def magic_def [symmetric] wp_simps
  proof (rule wp_fseek_idle, goal_cases)
    case 1
    then show ?case using assms(2) by (simp add: idle_def)
  next
    case (2 s')
    then show ?case using fails [of f s'] assms(2) disk_traced [OF 2(1) holds_traced [OF assms(1)]] by (simp add: wp_simps)
  next
    case (3 s')
    have "f\<lparr>st_pos := nat 0\<rparr> = \<lparr>st_path = p, st_pos = 0, st_pending = []\<rparr>"
      using assms(2) by (cases f) (simp add: idle_def)
    then show ?case using magic [OF sent_start [OF disk_holds [OF 3(1) assms(1)]] 3(2)] by (simp add: wp_simps)
  qed
qed

end
