(* ===== verification/Ethash_Io_Proofs.thy ===== *)
theory Ethash_Io_Proofs
  imports Ethash_Io_Rules Ethash_Sizes_Proofs
begin

text \<open>
  The DAG file through whole runs of \<open>ethash_full_new\<close>, for any answers of the system: a handle always gives the hash
  over the whole DAG; a process that maps the file leaves, wherever it ends, a file that the next start either rejects
  or that is complete; one that works in memory can leave a damaged file that the next start accepts; and what is
  held at each return.
\<close>

section \<open>A run of \<open>ethash_full_new_internal\<close>\<close>

definition dag_bytes :: "node list \<Rightarrow> u8 list" where
  "dag_bytes nodes = concat (map node_bytes nodes)"

lemma length_dag_bytes: "nodes_ok nodes \<Longrightarrow> length (dag_bytes nodes) = 64 * length nodes"
  by (induction nodes) (auto simp: dag_bytes_def nodes_ok_def)

lemma length_magic [simp]: "length magic = 8"
  by (simp add: magic_def)

lemma magic_nonempty: "magic \<noteq> []"
  by (metis length_magic list.size(3) zero_neq_numeral)

lemma overlay_dag: "length D = unat fsize \<Longrightarrow> 0 < unat fsize \<Longrightarrow> overlay 8 D (new_content fsize) = replicate 8 0 @ D"
  by (auto simp: overlay_def new_content_def min_def)

lemma overlay_all: "length c \<le> length bs \<Longrightarrow> bs \<noteq> [] \<Longrightarrow> overlay 0 bs c = bs"
  by (simp add: overlay_def)

lemma overlay_magic: "overlay 0 magic (replicate 8 0 @ D) = magic @ D"
  by (simp add: overlay_def magic_nonempty)

text \<open>What the process holds after a call that started with \<open>k\<close> streams, blocks and mappings: on \<open>NULL\<close> what it held
  before, but for the block that a failed \<open>fread\<close> leaves and for a mapping; with a handle one stream, the handle and
  the data.\<close>

definition null_held :: "bool \<Rightarrow> dag_file_error option \<Rightarrow> nat \<times> nat \<times> nat \<Rightarrow> nat \<times> nat \<times> nat \<Rightarrow> bool" where
  "null_held M e k k' \<longleftrightarrow>
     (case (k, k') of ((a, b, m), (a', b', m')) \<Rightarrow> a' = a \<and> b' = b + (if e = Some dfeReadError then 1 else 0) \<and>
        (m' = m \<or> \<not> M \<and> m' = m + 1))"

definition full_held :: "bool \<Rightarrow> nat \<times> nat \<times> nat \<Rightarrow> nat \<times> nat \<times> nat \<Rightarrow> bool" where
  "full_held M k k' \<longleftrightarrow>
     (case (k, k') of ((a, b, m), (a', b', m')) \<Rightarrow> a' = a + 1 \<and> b' = b + (if M then 2 else 1) \<and> m' = m + (if M then 0 else 1))"

text \<open>The outcome of a run: \<open>G\<close> is what is known of the contents of the file behind a handle, and of its data.\<close>

definition outcome :: "bool \<Rightarrow> string \<Rightarrow> (u8 list \<Rightarrow> bool) \<Rightarrow> u64 \<Rightarrow> bool \<Rightarrow> (u8 list \<Rightarrow> u8 list \<Rightarrow> bool) \<Rightarrow> nat \<times> nat \<times> nat \<Rightarrow>
    new_result \<times> dag_file_error option \<Rightarrow> os \<Rightarrow> bool" where
  "outcome M p T fsize aborts G k r s' =
     (case fst r of
        Aborted \<Rightarrow> aborts
      | Null \<Rightarrow> traced p T s' \<and> null_held M (snd r) k (held s')
      | Full h \<Rightarrow> snd r = Some dfeNoError \<and> idle p (h_file h) \<and> h_file_size h = fsize \<and> (h_data h = Mapped \<longleftrightarrow> \<not> M) \<and>
          (\<exists>c. holds p T c s' \<and> G c (handle_bytes h s')) \<and> full_held M k (held s'))"

lemma wp_full_match:
  assumes "holds p T c s" "idle p f" "st_pos f = 8" "held s = (a + 1, b + 1, m)"
    "G c (take (unat fsize) (drop 8 c))"
  shows "wp (full_match M fsize f) (outcome M p T fsize aborts G (a, b, m)) s"
  unfolding full_match_def wp_simps
proof (rule wp_mono [OF wp_full_load [OF assms(1,2)]], goal_cases)
  case (1 x s')
  obtain e d g where x: "x = (e, d, g)" by (cases x)
  have l: "holds p T c s'" "idle p g" using 1 by (auto simp: x loaded_def)
  have g: "st_path g = p" using l(2) by (simp add: idle_def)
  show ?case
  proof (cases d)
    case None
    then have h: "held s' = (a + 1, b + 1 + (if e = dfeReadError then 1 else 0), m)"
      using 1 assms(4) by (auto simp: x loaded_def held_def)
    have "wp (fail_close_file g e) (outcome M p T fsize aborts G (a, b, m)) s'"
      by (rule wp_fail_close_file [OF l(2)])
        (use h disk_traced [OF _ holds_traced [OF l(1)]] in \<open>auto simp: outcome_def null_held_def held_def\<close>)
    then show ?thesis by (simp add: x None)
  next
    case (Some dd)
    then show ?thesis using 1 l assms(3-5) holds_content [OF l(1)]
      by (cases dd) (auto simp: x loaded_def wp_simps outcome_def handle_bytes_def full_held_def held_def g)
  qed
qed

lemma wp_full_create:
  assumes "holds p T (new_content fsize) s" "f = \<lparr>st_path = p, st_pos = unat fsize + 8, st_pending = []\<rparr>"
    "held s = (a + 1, b + 1, m)" "fsize \<noteq> 0" "\<And>c. blank c \<Longrightarrow> T c" "M \<Longrightarrow> (\<And>c. T c)"
    "\<And>nodes j c. ethash_compute_full_data fsize light callback = Some (True, nodes) \<Longrightarrow> blank c \<Longrightarrow>
      (nodes_ok nodes \<Longrightarrow> c = overlay 8 (dag_bytes nodes) (new_content fsize)) \<Longrightarrow> T (overlay 0 (take j magic) c)"
    "\<And>nodes. ethash_compute_full_data fsize light callback = Some (True, nodes) \<Longrightarrow> nodes_ok nodes \<Longrightarrow>
      length (dag_bytes nodes) = unat fsize \<Longrightarrow> G (magic @ dag_bytes nodes) (dag_bytes nodes)"
    "\<And>nodes. ethash_compute_full_data fsize light callback = Some (True, nodes) \<Longrightarrow> nodes_ok nodes \<and> length (dag_bytes nodes) = unat fsize"
  shows "wp (full_create M fsize light callback torn f)
    (outcome M p T fsize (ethash_compute_full_data fsize light callback = None) G (a, b, m)) s"
    (is "wp _ ?Q s")
proof -
  have idle: "idle p f" by (simp add: assms(2) idle_def)
  have n: "0 < unat fsize" using assms(4) unat_gt_0 by blast
  have fails: "?Q x u" if "ended M p T t x u" "held t = (a + 1, b + 1 + (if M then 1 else 0), m + (if M then 0 else 1))" for x t u
    using that by (auto simp: ended_def outcome_def null_held_def held_def)
  show ?thesis
    unfolding full_create_def wp_simps
  proof (rule wp_mono [OF wp_full_load [OF assms(1) idle]], goal_cases)
    case (1 x s')
    obtain e d g where x: "x = (e, d, g)" by (cases x)
    have l: "holds p T (new_content fsize) s'" "idle p g" using 1 by (auto simp: x loaded_def)
    have g: "st_path g = p" using l(2) by (simp add: idle_def)
    show ?case
    proof (cases d)
      case None
      then have h: "held s' = (a + 1, b + 1 + (if e = dfeReadError then 1 else 0), m)"
        using 1 assms(3) by (auto simp: x loaded_def held_def)
      have "wp (fail_close_file g e) ?Q s'"
        by (rule wp_fail_close_file [OF l(2)])
          (use h disk_traced [OF _ holds_traced [OF l(1)]] in \<open>auto simp: outcome_def null_held_def held_def\<close>)
      then show ?thesis by (simp add: x None)
    next
      case (Some dd)
      have h: "held s' = (a + 1, b + 1 + (if M then 1 else 0), m + (if M then 0 else 1))" and M: "M \<longleftrightarrow> dd \<noteq> Mapped"
        using 1 assms(3) Some by (auto simp: x loaded_def held_def split: dag_data.splits)
      show ?thesis
      proof (cases "ethash_compute_full_data fsize light callback")
        case None
        then show ?thesis by (simp add: x Some wp_simps outcome_def)
      next
        case (Some r)
        obtain ok nodes where r: "r = (ok, nodes)" by (cases r)
        have fill: "wp (fill torn g nodes dd) R s'"
          if "\<And>c d' t. holds p T c t \<Longrightarrow> held t = held s' \<Longrightarrow> blank c \<Longrightarrow> (d' = Mapped \<longleftrightarrow> \<not> M) \<Longrightarrow>
            (nodes_ok nodes \<Longrightarrow> length (dag_bytes nodes) = unat fsize \<Longrightarrow>
              (case d' of Mapped \<Rightarrow> c = overlay 8 (dag_bytes nodes) (new_content fsize)
               | Heap bs \<Rightarrow> bs = dag_bytes nodes \<and> c = new_content fsize)) \<Longrightarrow> R d' t" for R
        proof (cases dd)
          case Mapped
          obtain c where c: "holds p T c (fill_mapping p torn 0 nodes s')" "blank c" "held (fill_mapping p torn 0 nodes s') = held s'"
            "nodes_ok nodes \<longrightarrow> c = overlay 8 (dag_bytes nodes) (new_content fsize)"
            using holds_fill_mapping [OF l(1) blank_new [OF assms(4)] assms(5), of torn 0 nodes] by (auto simp: dag_bytes_def)
          have "R Mapped (fill_mapping p torn 0 nodes s')"
            by (rule that [OF c(1,3,2)]) (use M Mapped c(4) in simp_all)
          then show ?thesis by (simp add: Mapped fill_def wp_simps g)
        next
          case (Heap bs)
          have "length bs = unat fsize" using 1 \<open>d = Some dd\<close> by (auto simp: x Heap loaded_def)
          moreover have "dag_bytes nodes \<noteq> []" if "length (dag_bytes nodes) = unat fsize" using that n by auto
          ultimately show ?thesis using M Heap l(1) blank_new [OF assms(4)]
            by (simp add: fill_def wp_simps) (rule that, auto simp: dag_bytes_def [symmetric] overlay_all)
        qed
        have step: "wp (if \<not> ok then fail_free_full_data M g else full_finish M fsize d' g) ?Q t"
          if t: "holds p T c t" "held t = held s'" "blank c" "d' = Mapped \<longleftrightarrow> \<not> M"
            and D: "nodes_ok nodes \<Longrightarrow> length (dag_bytes nodes) = unat fsize \<Longrightarrow>
              (case d' of Mapped \<Rightarrow> c = overlay 8 (dag_bytes nodes) (new_content fsize)
               | Heap bs \<Rightarrow> bs = dag_bytes nodes \<and> c = new_content fsize)" for c d' t
        proof (cases ok)
          case False
          have "wp (fail_free_full_data M g) ?Q t"
            by (rule wp_mono [OF wp_fail_free_full_data [OF l(2) holds_traced [OF t(1)] refl]]) (rule fails, assumption, simp add: t(2) h)
          with False show ?thesis by simp
        next
          case True
          then have comp: "ethash_compute_full_data fsize light callback = Some (True, nodes)" using Some r by simp
          note nodes = assms(9) [OF comp]
          have good: "G (overlay 0 (final_bytes fsize d') c) (handle_bytes \<lparr>h_file = \<lparr>st_path = p, st_pos = k, st_pending = []\<rparr>, h_file_size = fsize, h_data = d'\<rparr> u)"
            if u: "holds p T (overlay 0 (final_bytes fsize d') c) u" for k u
          proof (cases d')
            case Mapped
            then have "overlay 0 (final_bytes fsize d') c = magic @ dag_bytes nodes"
              using D nodes n by (simp add: final_bytes_def overlay_dag overlay_magic)
            then show ?thesis using assms(8) [OF comp] nodes holds_content [OF u] by (simp add: Mapped handle_bytes_def)
          next
            case (Heap bs)
            then have "bs = dag_bytes nodes" "c = new_content fsize" using D nodes by auto
            moreover have "overlay 0 (magic @ dag_bytes nodes) (new_content fsize) = magic @ dag_bytes nodes"
              using nodes n by (intro overlay_all) (auto simp: new_content_def)
            ultimately show ?thesis using assms(8) [OF comp] nodes by (simp add: Heap handle_bytes_def final_bytes_def)
          qed
          have T: "T (overlay 0 (take j (final_bytes fsize d')) c)" for j
          proof (cases M)
            case False
            then show ?thesis using assms(7) [OF comp t(3), of j] D nodes t(4) by (simp add: final_bytes_def)
          qed (rule assms(6))
          have "M \<longleftrightarrow> d' \<noteq> Mapped" using t(4) by blast
          then have "wp (full_finish M fsize d' g) ?Q t"
          proof (rule wp_mono [OF wp_full_finish [OF t(1) l(2) _ T]], goal_cases)
            case (1 x u)
            then show ?case
            proof (elim disjE conjE, goal_cases)
              case 1
              then show ?case using h t(2) by (intro fails [where t = t]) simp_all
            next
              case 2
              then show ?case
                using h t(2,4) good [of u "length (final_bytes fsize d')"] by (auto simp: outcome_def idle_def full_held_def)
            qed
          qed
          with True show ?thesis by simp
        qed
        have "wp (fill torn g nodes dd) (\<lambda>d. wp (if \<not> ok then fail_free_full_data M g else full_finish M fsize d g) ?Q) s'"
          by (rule fill) (rule step, assumption+)
        then show ?thesis
          by (simp only: x prod.case \<open>d = Some dd\<close> option.case Some r wp_bind)
      qed
    qed
  qed
qed

lemma wp_full_new_internal:
  assumes "traced p T s" "p = dag_path dirname seed" "fsize \<noteq> 0" "fsize < 2 ^ 38" "T []"
    "\<And>c. blank c \<Longrightarrow> T c" "M \<Longrightarrow> (\<And>c. T c)"
    "\<And>nodes j c. ethash_compute_full_data fsize light callback = Some (True, nodes) \<Longrightarrow> blank c \<Longrightarrow>
      (nodes_ok nodes \<Longrightarrow> c = overlay 8 (dag_bytes nodes) (new_content fsize)) \<Longrightarrow> T (overlay 0 (take j magic) c)"
    "\<And>nodes. ethash_compute_full_data fsize light callback = Some (True, nodes) \<Longrightarrow> nodes_ok nodes \<Longrightarrow>
      length (dag_bytes nodes) = unat fsize \<Longrightarrow> G (magic @ dag_bytes nodes) (dag_bytes nodes)"
    "\<And>nodes. ethash_compute_full_data fsize light callback = Some (True, nodes) \<Longrightarrow> nodes_ok nodes \<and> length (dag_bytes nodes) = unat fsize"
    "\<And>c. files s p = Some c \<Longrightarrow> accepted fsize c \<Longrightarrow> G c (take (unat fsize) (drop 8 c))"
  shows "wp (ethash_full_new_internal dirname seed fsize light callback M torn)
    (outcome M p T fsize (ethash_compute_full_data fsize light callback = None) G (held s)) s"
    (is "wp _ ?Q s")
proof -
  have new: "T (new_content fsize)" using assms(3,6) blank_new by blast
  have create: "wp (full_create M fsize light callback torn \<lparr>st_path = p, st_pos = unat fsize + 8, st_pending = []\<rparr>) ?Q t"
    if "holds p T (new_content fsize) t" "held t = (streams s + 1, blocks s + 1, maps s)" for t
    unfolding held_eq [of s]
  proof (rule wp_full_create [OF that(1) refl that(2) assms(3)], goal_cases)
    case (1 c) then show ?case by (rule assms(6))
  next
    case (2 c) then show ?case by (rule assms(7))
  next
    case (3 nodes j c) then show ?case by (rule assms(8))
  next
    case (4 nodes) then show ?case by (rule assms(9))
  next
    case (5 nodes) then show ?case by (rule assms(10))
  qed
  have none: "wp (fail_free_full dfeNoError) ?Q t" if "traced p T t" "held t = (streams s, blocks s + 1, maps s)" for t
    unfolding fail_free_full_def wp_simps using that
    by (intro wp_free) (auto simp: outcome_def null_held_def held_def intro: disk_traced [OF _ that(1)])
  show ?thesis
    unfolding ethash_full_new_internal_def wp_simps
  proof (rule wp_malloc, goal_cases)
    case (1 t)
    then show ?case using disk_traced [OF 1(1) assms(1)] by (simp add: wp_simps outcome_def null_held_def held_def)
  next
    case (2 t)
    note t = disk_traced [OF 2(1) assms(1)] and c = disk_cong(4) [OF 2(1), of p] and f = disk_cong(3) [OF 2(1)]
    have sm: "wp (ethash_io_prepare dirname seed fsize True) (\<lambda>r. wp (case r of
        (ETHASH_IO_MEMO_MISMATCH, Some f) \<Rightarrow> full_create M fsize light callback torn f
      | _ \<Rightarrow> fail_free_full dfeNoError) ?Q) u"
      if u: "traced p T u" "held u = (streams s, blocks s + 1, maps s)" for u
    proof (rule wp_mono [OF wp_prepare [OF u(1) assms(5) new assms(4,2)]], goal_cases)
      case (1 r v)
      then show ?case using create [of v] none [of v] u(2)
        by (auto simp: prepared_def held_def split: prod.splits io_rc.splits option.splits)
    qed
    have "wp (ethash_io_prepare dirname seed fsize False) (\<lambda>r. wp (case r of
        (ETHASH_IO_MEMO_MATCH, Some f) \<Rightarrow> full_match M fsize f
      | (ETHASH_IO_MEMO_SIZE_MISMATCH, _) \<Rightarrow> ethash_io_prepare dirname seed fsize True \<bind> (\<lambda>r. case r of
          (ETHASH_IO_MEMO_MISMATCH, Some f) \<Rightarrow> full_create M fsize light callback torn f
        | _ \<Rightarrow> fail_free_full dfeNoError)
      | (ETHASH_IO_MEMO_MISMATCH, Some f) \<Rightarrow> full_create M fsize light callback torn f
      | _ \<Rightarrow> fail_free_full dfeNoError) ?Q) t"
    proof (rule wp_mono [OF wp_prepare [OF t assms(5) new assms(4,2)]], goal_cases)
      case (1 r v)
      obtain rc g where r: "r = (rc, g)" by (cases r)
      have h: "held t = (streams s, blocks s + 1, maps s)" using 2 by simp
      show ?case
      proof (cases rc)
        case ETHASH_IO_FAIL
        then show ?thesis using 1 h none [of v] by (auto simp: r prepared_def split: option.splits)
      next
        case ETHASH_IO_MEMO_SIZE_MISMATCH
        then show ?thesis using 1 h sm [of v] by (auto simp: r prepared_def wp_bind split: option.splits)
      next
        case ETHASH_IO_MEMO_MISMATCH
        then show ?thesis using 1 h create [of v] by (auto simp: r prepared_def held_def split: option.splits)
      next
        case ETHASH_IO_MEMO_MATCH
        then have m: "g = Some \<lparr>st_path = p, st_pos = 8, st_pending = []\<rparr>" "holds p T (content p t) v" "files t p \<noteq> None"
          "accepted fsize (content p t)" "held v = (streams s + 1, blocks s + 1, maps s)"
          using 1 h by (auto simp: r prepared_def held_def split: option.splits)
        have "files s p = Some (content p t)" using m(3) f c by (auto simp: content_def)
        then have "wp (full_match M fsize \<lparr>st_path = p, st_pos = 8, st_pending = []\<rparr>) ?Q v"
          unfolding held_eq [of s] by (intro wp_full_match [OF m(2) _ _ m(5)] assms(11) m(4)) (simp_all add: idle_def)
        then show ?thesis by (simp add: r ETHASH_IO_MEMO_MATCH m(1))
      qed
    qed
    then show ?case by (simp add: wp_simps)
  qed
qed

section \<open>The DAG of a light client\<close>

definition dag_of :: "u64 \<Rightarrow> ethash_light \<Rightarrow> node list" where
  "dag_of fsize light = map (dag_item light) [0..<unat (ucast (fsize div 64) :: u32)]"

lemma full_data_loop_value:
  assumes "light_ok light" "full_data_loop light callback max_n k (of_nat n) acc = Some (True, nodes)"
  shows "nodes = acc @ map (dag_item light) [n..<n + k]"
  using assms(2)
proof (induction k arbitrary: n acc)
  case (Suc k)
  have "(of_nat n + 1 :: u32) = of_nat (Suc n)" by simp
  then have "full_data_loop light callback max_n k (of_nat (Suc n)) (acc @ [dag_item light n]) = Some (True, nodes)"
    using Suc.prems dag_item(1) [OF assms(1), of n] by (simp del: of_nat_Suc split: if_splits)
  from Suc.IH [OF this] show ?case by (simp add: upt_rec)
qed simp

lemma computed_dag:
  assumes "dag_size_ok fsize" "light_ok light" "ethash_compute_full_data fsize light callback = Some (True, nodes)"
  shows "nodes = dag_of fsize light \<and> nodes_ok nodes \<and> length (dag_bytes nodes) = unat fsize"
proof -
  have m: "nodes = dag_of fsize light"
    using assms(3) full_data_loop_value [OF assms(2), of callback "ucast (fsize div 64)" _ 0 "[]" nodes]
    by (simp add: ethash_compute_full_data_def dag_of_def Let_def split: if_splits)
  then have o: "nodes_ok nodes" using dag_item(2) [OF assms(2)] by (simp add: nodes_ok_def dag_of_def)
  have "unat fsize mod 64 = 0" using dag_size_facts(1) [OF assms(1)] by (simp add: word_unat_eq_iff unat_mod)
  moreover have "unat (ucast (fsize div 64) :: u32) = unat fsize div 64"
  proof -
    have "unat fsize < 2 ^ 38" using assms(1) by (simp add: dag_size_ok_def word_less_nat_alt)
    then have "unat fsize div 64 < 2 ^ 32" by simp
    then show ?thesis by (simp only: unsigned_ucast_eq unat_div) (simp add: take_bit_nat_eq_self)
  qed
  ultimately show ?thesis using m o length_dag_bytes [OF o] by (auto simp: dag_of_def)
qed

lemma node_words_bytes: "node_words (node_bytes ws) = ws"
proof (rule nth_equalityI)
  show "length (node_words (node_bytes ws)) = length ws" by simp
  fix i assume "i < length (node_words (node_bytes ws))"
  then have i: "i < length ws" by simp
  have "take 4 (drop (4 * i) (node_bytes ws)) = le_bytes 4 (uint (ws ! i))" using i
  proof (induction ws arbitrary: i)
    case (Cons w ws)
    then show ?case by (cases i) (simp_all add: node_bytes_def)
  qed simp
  moreover have "le_val (le_bytes 4 (uint (ws ! i))) = uint (ws ! i)"
    using uint_bounded [of "ws ! i"] by (simp add: le_val_le_bytes)
  ultimately show "node_words (node_bytes ws) ! i = ws ! i" using i by (simp add: node_words_def)
qed

lemma nodes_of_bytes: "nodes_ok nodes \<Longrightarrow> nodes_of (dag_bytes nodes) = nodes"
proof (rule nth_equalityI)
  assume o: "nodes_ok nodes"
  show l: "length (nodes_of (dag_bytes nodes)) = length nodes" using length_dag_bytes [OF o] by (simp add: nodes_of_def)
  fix i assume "i < length (nodes_of (dag_bytes nodes))"
  then have i: "i < length nodes" using l by simp
  have "take 64 (drop (64 * i) (dag_bytes nodes)) = node_bytes (nodes ! i)" using i o
  proof (induction nodes arbitrary: i)
    case (Cons n ns)
    then show ?case by (cases i) (simp_all add: dag_bytes_def nodes_ok_def)
  qed simp
  then show "nodes_of (dag_bytes nodes) ! i = nodes ! i"
    using i length_dag_bytes [OF o] by (simp add: nodes_of_def node_words_bytes)
qed

text \<open>The contents that \<open>ethash_io_prepare\<close> does not take for a DAG, and the DAG.\<close>

definition safe_content :: "u64 \<Rightarrow> ethash_light \<Rightarrow> u8 list \<Rightarrow> bool" where
  "safe_content fsize light c \<longleftrightarrow> (accepted fsize c \<longrightarrow> c = magic @ dag_bytes (dag_of fsize light))"

lemma low_bytes_not_magic: "length xs = 8 \<Longrightarrow> le_val xs < 256 ^ 7 \<Longrightarrow> word_of_int (le_val xs) \<noteq> ETHASH_DAG_MAGIC_NUM"
proof
  assume a: "length xs = 8" "le_val xs < 256 ^ 7" "word_of_int (le_val xs) = ETHASH_DAG_MAGIC_NUM"
  have "uint (word_of_int (le_val xs) :: u64) = le_val xs" using a(2) by (simp add: unsigned_of_int take_bit_int_eq_self)
  then show False using a(2,3) by (simp add: ETHASH_DAG_MAGIC_NUM_def)
qed

lemma le_val_zeros: "le_val (replicate n 0) = 0"
  by (induction n) simp_all

lemma blank_safe: "blank c \<Longrightarrow> safe_content fsize light c"
  using low_bytes_not_magic [of "replicate 8 0"] by (simp add: safe_content_def accepted_def blank_def le_val_zeros)

lemma magic_prefix_safe:
  assumes "blank c" "c = replicate 8 0 @ dag_bytes (dag_of fsize light)"
  shows "safe_content fsize light (overlay 0 (take j magic) c)"
proof (cases "j < 8")
  case False
  then show ?thesis by (simp add: assms(2) overlay_magic safe_content_def)
next
  case True
  show ?thesis
  proof (cases "j = 0")
    case True
    then show ?thesis using blank_safe [OF assms(1)] by (simp add: overlay_def)
  next
    case False
    let ?t = "take 8 (overlay 0 (take j magic) c)"
    note m = magic_nonempty
    have t: "?t = take j magic @ replicate (8 - j) 0"
      using True False m by (simp add: overlay_def assms(2) min_def)
    have "le_val ?t = le_val (take j magic)" unfolding t le_val_append le_val_zeros by simp
    also have "\<dots> < 256 ^ j" using le_val_less [of "take j magic"] True by simp
    also have "\<dots> \<le> 256 ^ 7" using True by (intro power_increasing) simp_all
    finally have "word_of_int (le_val ?t) \<noteq> ETHASH_DAG_MAGIC_NUM"
      using True by (intro low_bytes_not_magic) (simp_all add: t)
    then show ?thesis by (simp add: safe_content_def accepted_def)
  qed
qed

lemma magic_accepted: "length D = unat fsize \<Longrightarrow> accepted fsize (magic @ D)"
  by (simp add: accepted_def magic_def le_val_le_bytes ETHASH_DAG_MAGIC_NUM_def)

lemma wp_run: "wp m Q s \<Longrightarrow> run_state m s = (x, s') \<Longrightarrow> Q x s'"
  by (simp add: wp_def)

text \<open>Runs with a well-formed light client.\<close>

lemma run_outcome:
  assumes "dag_size_ok fsize" "light_ok light" "trace s = []"
    "\<And>c. files s (dag_path dirname seed) = Some c \<Longrightarrow> safe_content fsize light c"
  shows "wp (ethash_full_new_internal dirname seed fsize light callback M torn)
    (outcome M (dag_path dirname seed) (\<lambda>c. M \<or> safe_content fsize light c) fsize (ethash_compute_full_data fsize light callback = None)
      (\<lambda>c D. c = magic @ D \<and> D = dag_bytes (dag_of fsize light)) (held s)) s"
proof (rule wp_full_new_internal [OF _ refl], goal_cases)
  case 1
  then show ?case using assms(3) by (simp add: traced_def)
next
  case (4)
  then show ?case by (simp add: safe_content_def accepted_def)
next
  case (5 c)
  then show ?case by (simp add: blank_safe)
next
  case (7 nodes j c)
  note d = computed_dag [OF assms(1,2) 7(1)]
  have "0 < unat fsize" using assms(1) by (simp add: dag_size_ok_def word_less_nat_alt)
  with overlay_dag d have "overlay 8 (dag_bytes nodes) (new_content fsize) = replicate 8 0 @ dag_bytes nodes" by blast
  moreover have "c = overlay 8 (dag_bytes nodes) (new_content fsize)" using 7(3) d by blast
  ultimately have "c = replicate 8 0 @ dag_bytes (dag_of fsize light)" using d by simp
  then show ?case using magic_prefix_safe [OF 7(2)] by simp
next
  case (8 nodes)
  then show ?case using computed_dag [OF assms(1,2) 8(1)] by simp
next
  case (9 nodes)
  show ?case using computed_dag [OF assms(1,2) 9] by blast
next
  case (10 c)
  then have "c = magic @ dag_bytes (dag_of fsize light)" using assms(4) by (simp add: safe_content_def)
  moreover have "length (dag_bytes (dag_of fsize light)) = unat fsize"
  proof -
    have "callback_ok None (ucast (fsize div 64))" by (simp add: callback_ok_def)
    from computed_dag [OF assms(1,2) full_data_ok [OF assms(1,2) this]] show ?thesis by metis
  qed
  ultimately show ?case by simp
qed (use assms(1) in \<open>auto simp: dag_size_ok_def\<close>)


section \<open>The name of the file\<close>

definition hex_byte :: "u8 \<Rightarrow> string" where
  "hex_byte b = [digit (unat b div 16), digit (unat b mod 16)]"

lemma filename_value: "filename dirname name = dirname @ ''/'' @ name"
  by (simp add: filename_def c_char_def strncat_to_def ethash_strncat_def Let_def)

lemma nibble_steps:
  fixes x v :: nat
  shows "(x + 256 * v) mod 16 = x mod 16" "x < 256 \<Longrightarrow> (x + 256 * v) div 16 mod 16 = x div 16"
    "x < 256 \<Longrightarrow> (x + 256 * v) div 256 = v"
proof -
  have e: "x + 256 * v = x + 16 * (16 * v)" by simp
  show "(x + 256 * v) mod 16 = x mod 16" unfolding e by (rule mod_mult_self2)
  have "(x + 256 * v) div 16 = 16 * v + x div 16" unfolding e by (rule div_mult_self2) simp
  then show "x < 256 \<Longrightarrow> (x + 256 * v) div 16 mod 16 = x div 16" by (simp add: less_mult_imp_div_less)
  show "x < 256 \<Longrightarrow> (x + 256 * v) div 256 = v" by simp
qed

lemma nibbles_of_le:
  "map (\<lambda>i. digit (nat (le_val l) div 16 ^ i mod 16)) [0..<2 * length l] = concat (map (\<lambda>b. rev (hex_byte b)) l)"
proof (induction l)
  case (Cons b l)
  define V where "V = nat (le_val l)"
  have N: "nat (le_val (b # l)) = unat b + 256 * V"
    by (simp add: V_def nat_add_distrib nat_mult_distrib)
  have b: "unat b < 256" using unsigned_less [of b] by simp
  have up: "[0..<2 * length (b # l)] = 0 # 1 # map (\<lambda>i. i + 2) [0..<2 * length l]"
  proof -
    have "[0..<Suc (Suc n)] = 0 # 1 # map (\<lambda>i. i + 2) [0..<n]" for n by (induction n) simp_all
    from this [of "2 * length l"] show ?thesis by simp
  qed
  define X where "X = unat b + 256 * V"
  have e0: "X mod 16 = unat b mod 16" unfolding X_def by (rule nibble_steps)
  have e1: "X div 16 mod 16 = unat b div 16" unfolding X_def by (rule nibble_steps(2) [OF b])
  have e2: "(unat b + 256 * V) div 16 ^ (i + 2) = V div 16 ^ i" for i
  proof -
    have "(unat b + 256 * V) div 16 ^ (i + 2) = (unat b + 256 * V) div 256 div 16 ^ i"
      by (simp only: power_add mult.commute [of "16 ^ i"] div_mult2_eq) simp
    also have "(unat b + 256 * V) div 256 = V" by (rule nibble_steps(3) [OF b])
    finally show ?thesis .
  qed
  have "map (\<lambda>i. digit (X div 16 ^ i mod 16)) (0 # 1 # map (\<lambda>i. i + 2) xs) =
      digit (unat b mod 16) # digit (unat b div 16) # map (\<lambda>i. digit (V div 16 ^ i mod 16)) xs" for xs
    by (simp only: list.map map_map comp_def power_0 div_by_1 power_one_right e0 e1 e2 [folded X_def])
  then show ?case
    unfolding N up X_def [symmetric] using Cons.IH by (simp only: V_def) (simp add: hex_byte_def)
qed simp

lemma hex16_rev: "hex16 w = rev (map (\<lambda>i. digit (unat w div 16 ^ i mod 16)) [0..<16])"
proof (rule nth_equalityI)
  fix i assume "i < length (hex16 w)"
  then have i: "i < 16" by (simp add: hex16_def)
  then have "[0..<16] ! (15 - i) = 15 - i" using nth_upt [of 0 "15 - i" 16] by simp
  then show "hex16 w ! i = rev (map (\<lambda>i. digit (unat w div 16 ^ i mod 16)) [0..<16]) ! i"
    using i by (simp add: hex16_def rev_nth)
qed (simp add: hex16_def)

lemma hex_bytes:
  assumes "length bs = 8"
  shows "hex16 (ethash_swap_u64 (word_of_int (le_val bs))) = concat (map hex_byte bs)"
proof -
  have v: "le_bytes 8 (uint (word_of_int (le_val bs) :: u64)) = bs"
  proof -
    have "le_val bs < 2 ^ 64" using le_val_less [of bs] assms by simp
    then show ?thesis using le_bytes_le_val [OF assms] by (simp add: unsigned_of_int take_bit_int_eq_self)
  qed
  have "le_val (rev bs) < 2 ^ 64" using le_val_less [of "rev bs"] assms by simp
  then have u: "unat (ethash_swap_u64 (word_of_int (le_val bs))) = nat (le_val (rev bs))"
    unfolding ethash_swap_u64_def v by (simp add: unat_eq_nat_uint unsigned_of_int take_bit_int_eq_self)
  show ?thesis
    unfolding hex16_rev u using nibbles_of_le [of "rev bs"] assms by (simp add: rev_concat comp_def rev_map)
qed

lemma concat_hex_inject: "length bs = length cs \<Longrightarrow> concat (map hex_byte bs) = concat (map hex_byte cs) \<Longrightarrow> bs = cs"
proof (induction bs cs rule: list_induct2)
  case (Cons b bs c cs)
  have inj: "i = j" if "digit i = digit j" "i < 16" "j < 16" for i j
  proof -
    have "distinct ''0123456789abcdef''" by simp
    then show ?thesis using that unfolding digit_def by (subst (asm) nth_eq_iff_index_eq) simp_all
  qed
  have "unat x < 256" for x :: u8 using unsigned_less [of x] by simp
  then have l: "unat x div 16 < 16" for x :: u8 by (simp add: less_mult_imp_div_less)
  have "unat b div 16 = unat c div 16" "unat b mod 16 = unat c mod 16" "bs = cs"
    using Cons.prems Cons.IH inj [of "unat b div 16" "unat c div 16"] inj [of "unat b mod 16" "unat c mod 16"] l
    by (auto simp: hex_byte_def)
  then show ?case by (metis div_mult_mod_eq word_unat_eq_iff)
qed simp

lemma mutable_name: "8 \<le> length seed \<Longrightarrow> ethash_io_mutable_name ETHASH_REVISION seed = ''full-R23-'' @ concat (map hex_byte (take 8 seed))"
proof -
  assume "8 \<le> length seed"
  then have l: "length (take 8 seed) = 8" by simp
  have d: "decimal 23 = ''23''" by (simp add: decimal.simps digit_def)
  have "length (hex16 w) = 16" for w by (simp add: hex16_def)
  then show ?thesis
    using hex_bytes [OF l] by (simp add: ethash_io_mutable_name_def Let_def DAG_MUTABLE_NAME_MAX_SIZE_def ETHASH_REVISION_def d)
qed

lemmas os_defs = ask_def succeeds_def push_def fwrite_def fflush_def fseek_def fclose_def fread_def malloc_def free_def mmap_def
  munmap_def ethash_fopen_rb_def ethash_fopen_wb_def ethash_mkdir_def ethash_fileno_def ethash_file_size_def
  ethash_io_create_filename_def State_Monad.update_def drop_pending_def

lemma write_out_others [simp]: "answers (write_out p b bs s) = answers s" "streams (write_out p b bs s) = streams s"
  "blocks (write_out p b bs s) = blocks s" "maps (write_out p b bs s) = maps s"
  by (induction p b bs s rule: write_out.induct) (simp_all add: store_def)

lemma store_others [simp]: "answers (store p c s) = answers s" "streams (store p c s) = streams s"
  "blocks (store p c s) = blocks s" "maps (store p c s) = maps s" "files (store p c s) = (files s)(p \<mapsto> c)"
  by (simp_all add: store_def)

lemma run_update: "run_state (State_Monad.update f) s = ((), f s)"
  by (simp add: State_Monad.update_def)

lemma prepare_quiet:
  assumes "answers s = replicate 7 Done @ as" "files s (dag_path dirname seed) = None" "fsize < 2 ^ 38"
  shows "\<exists>t. run_state (ethash_io_prepare dirname seed fsize False) s =
      ((ETHASH_IO_MEMO_MISMATCH, Some \<lparr>st_path = dag_path dirname seed, st_pos = unat fsize + 8, st_pending = []\<rparr>), t) \<and>
    answers t = as \<and> files t (dag_path dirname seed) = Some (new_content fsize)"
proof -
  have r: "replicate 7 Done = [Done, Done, Done, Done, Done, Done, Done]" by (simp add: numeral_eq_Suc)
  show ?thesis
    using assms file_end [OF assms(3)] 
    by (simp add: ethash_io_prepare_def io_create_def r os_defs dag_path_def [symmetric] run_update Let_def content_def overlay_new)
qed

lemma write_out_content: "files s p = Some c \<Longrightarrow> files (write_out p b bs s) p = Some (overlay b bs c)"
proof (induction p b bs s arbitrary: c rule: write_out.induct)
  case (2 p pos b bs s)
  have "files (store p (overlay pos [b] (content p s)) s) p = Some (overlay pos [b] c)"
    using 2(2) by (simp add: content_def)
  from 2(1) [OF this] show ?case using overlay_overlay [of pos "[b]" bs c] by simp
qed (simp add: overlay_def)

lemma length_new [simp]: "length (new_content fsize) = unat fsize + 8"
  by (simp add: new_content_def)

lemma magic_over_new: "0 < unat fsize \<Longrightarrow> overlay 0 magic (new_content fsize) = magic @ replicate (unat fsize - 1) 0 @ [10]"
  by (simp add: overlay_def new_content_def magic_nonempty)

lemma file_size_back: "of_nat (unat fsize + 8) - 8 = (fsize :: u64)"
  by simp

lemma memory_create:
  assumes "answers s = replicate 6 Done @ [Cut 8]" "files s p = Some (new_content fsize)"
    "ethash_compute_full_data fsize light callback = Some (True, nodes)" "0 < unat fsize"
    "length (dag_bytes nodes) = unat fsize"
  shows "\<exists>t. run_state (full_create True fsize light callback torn \<lparr>st_path = p, st_pos = unat fsize + 8, st_pending = []\<rparr>) s =
      ((Null, Some dfeNoError), t) \<and> answers t = [] \<and> files t p = Some (magic @ replicate (unat fsize - 1) 0 @ [10])"
proof -
  have r: "replicate 6 Done = [Done, Done, Done, Done, Done, Done]" by (simp add: numeral_eq_Suc)
  have w: "files (write_out p 0 magic u) p = Some (magic @ replicate (unat fsize - 1) 0 @ [10])" 
    if "files u p = Some (new_content fsize)" for u
    using write_out_content [OF that, of 0 magic] magic_over_new [OF assms(4)] by simp
  show ?thesis
    using assms
    by (simp add: full_create_def full_load_def ethash_full_read_def full_finish_def r os_defs run_update Let_def content_def
       write_data_def fill_def dag_bytes_def [symmetric] magic_def [symmetric] fail_free_full_data_def fail_close_file_def fail_free_full_def
       min_def w)
qed


lemma fresh_match:
  assumes "answers s = []" "files s (dag_path dirname seed) = Some (magic @ D)" "length D = unat fsize" "0 < unat fsize"
  shows "\<exists>h t. run_state (ethash_full_new_internal dirname seed fsize light callback M torn) s = ((Full h, Some dfeNoError), t) \<and>
    handle_bytes h t = D"
proof -
  have a: "accepted fsize (magic @ D)" by (rule magic_accepted [OF assms(3)])
  show ?thesis
    using assms a
    by (simp add: ethash_full_new_internal_def ethash_io_prepare_def io_check_def os_defs run_update Let_def content_def accepted_def
      dag_path_def [symmetric] full_match_def full_load_def ethash_full_read_def ethash_mmap_def handle_bytes_def min_def)
qed

definition fresh :: "answer list \<Rightarrow> os" where
  "fresh as = \<lparr>files = (\<lambda>_. None), answers = as, streams = 0, blocks = 0, maps = 0, trace = []\<rparr>"

section \<open>Runs in which no call fails\<close>

lemma prepare_all_done:
  assumes "answers s = []" "files s (dag_path dirname seed) = None" "fsize < 2 ^ 38"
  shows "\<exists>t. run_state (ethash_io_prepare dirname seed fsize False) s =
      ((ETHASH_IO_MEMO_MISMATCH, Some \<lparr>st_path = dag_path dirname seed, st_pos = unat fsize + 8, st_pending = []\<rparr>), t) \<and>
    answers t = []"
  using assms file_end [OF assms(3)]
  by (simp add: ethash_io_prepare_def io_create_def os_defs dag_path_def [symmetric] run_update Let_def)

lemma fill_mapping_answers [simp]: "answers (fill_mapping p torn i nodes s) = answers s"
  by (induction p torn i nodes s rule: fill_mapping.induct) (simp_all add: Let_def)

lemma create_all_done:
  assumes "answers s = []" "ethash_compute_full_data fsize light callback = Some (True, nodes)"
  shows "\<exists>h t. run_state (full_create False fsize light callback torn \<lparr>st_path = p, st_pos = unat fsize + 8, st_pending = []\<rparr>) s =
      ((Full h, Some dfeNoError), t)"
  using assms
  by (simp add: full_create_def full_load_def ethash_mmap_def full_finish_def os_defs run_update Let_def write_data_def fill_def)

lemma mapped_run_succeeds:
  assumes "dag_size_ok fsize" "light_ok light" "callback_ok callback (ucast (fsize div 64))"
  shows "\<exists>h s. run_state (ethash_full_new_internal dirname seed fsize light callback False torn) (fresh []) = ((Full h, Some dfeNoError), s)"
proof -
  have n: "fsize < 2 ^ 38" using assms(1) by (simp add: dag_size_ok_def)
  obtain nodes where c: "ethash_compute_full_data fsize light callback = Some (True, nodes)"
    using full_data_ok [OF assms] by blast
  let ?s = "(fresh [])\<lparr>blocks := 1\<rparr>"
  obtain t where t: "run_state (ethash_io_prepare dirname seed fsize False) ?s =
      ((ETHASH_IO_MEMO_MISMATCH, Some \<lparr>st_path = dag_path dirname seed, st_pos = unat fsize + 8, st_pending = []\<rparr>), t)" "answers t = []"
    using prepare_all_done [of ?s dirname seed fsize] n by (auto simp: fresh_def)
  obtain h u where u: "run_state (full_create False fsize light callback torn
      \<lparr>st_path = dag_path dirname seed, st_pos = unat fsize + 8, st_pending = []\<rparr>) t = ((Full h, Some dfeNoError), u)"
    using create_all_done [OF t(2) c] by blast
  have "run_state malloc (fresh []) = (True, ?s)" by (simp add: os_defs run_update fresh_def)
  then show ?thesis using t(1) u by (simp add: ethash_full_new_internal_def)
qed

section \<open>The properties of the DAG file\<close>

text \<open>C33: The full client of a tabulated epoch, by \<open>ethash_full_new\<close> from any state of the system in which the file of the
  epoch, if there is one, is not a false DAG: whatever calls fail and whether it works in memory or in a mapping, it
  aborts only where \<open>ethash_compute_full_data\<close> does; where it returns a handle, \<open>ethash_full_compute\<close> with the handle
  succeeds for every header and nonce, reading no object after the end of its block, and gives the result that
  \<open>ethash_quick_hash\<close> recomputes, which is also that of the light client where the storage of its \<open>tmp_node\<close> is kept after
  its block (by the standard that hash is undefined); and the file holds the magic number and the whole DAG.\<close>

theorem full_client_correct:
  assumes "ethash_light_new b True = Some light" "ethash_get_seedhash b = Some seed" "ethash_get_datasize b = Some fsize"
    "0 < length dir" "length dir < 256" "trace s = []"
    "\<And>c. files s (dag_path dir seed) = Some c \<Longrightarrow> safe_content fsize light c" "length header = 32"
    "run_state (ethash_full_new light dir home pwd callback dag_in_memory torn) s = ((r, e), s')"
  shows "case r of
      Aborted \<Rightarrow> ethash_compute_full_data fsize light callback = None
    | Null \<Rightarrow> True
    | Full h \<Rightarrow> files s' (dag_path dir seed) = Some (magic @ dag_bytes (dag_of fsize light)) \<and>
        (\<exists>ret. ethash_full_compute (full_of h s') header nonce = Some ret \<and> success ret \<and>
          ethash_quick_hash header nonce (mix_hash ret) = Some (result ret) \<and>
          ethash_light_compute storage_kept light header nonce = Some ret)"
proof -
  have b: "unat b div 30000 < 2048"
    using assms(3) by (simp add: ethash_get_datasize_def epoch_test split: if_splits)
  have light: "light_ok light" "block_number light = b" using light_new_ok [OF b] assms(1) by auto
  have fs: "dag_size_ok fsize" using datasize_ok [OF b] assms(3) by auto
  have run: "run_state (ethash_full_new_internal dir seed fsize light callback dag_in_memory torn) s = ((r, e), s')"
    using assms(2-5,9) light(2) by (simp add: ethash_full_new_def)
  let ?p = "dag_path dir seed"
  have out: "outcome dag_in_memory ?p (\<lambda>c. dag_in_memory \<or> safe_content fsize light c) fsize
      (ethash_compute_full_data fsize light callback = None) (\<lambda>c D. c = magic @ D \<and> D = dag_bytes (dag_of fsize light)) (held s) (r, e) s'"
    by (rule wp_run [OF run_outcome [OF fs light(1) assms(6,7)] run])
  have nodes: "nodes_ok (dag_of fsize light)" using dag_item(2) [OF light(1)] by (simp add: nodes_ok_def dag_of_def)
  show ?thesis
  proof (cases r)
    case (Full h)
    then have h: "h_file_size h = fsize" "files s' ?p = Some (magic @ dag_bytes (dag_of fsize light))"
      "handle_bytes h s' = dag_bytes (dag_of fsize light)"
      using out by (auto simp: outcome_def holds_def)
    have "full_of h s' = \<lparr>file_size = fsize, data = map (dag_item light) [0..<2 * unat (ucast (fsize div 128) :: u32)]\<rparr>"
      using h nodes_of_bytes [OF nodes] dag_size_facts(4) [OF fs] by (simp add: full_of_def dag_of_def)
    then show ?thesis
      using Full h(2) dag_hash_agrees [OF fs light(1) assms(8), of nonce] assms(3) light(2)
      by (auto simp: ethash_light_compute_def)
  qed (use out in \<open>simp_all add: outcome_def\<close>)
qed

theorem full_client_correct_witness:
  "\<exists>light seed fsize h s' ret. ethash_light_new 0 True = Some light \<and> ethash_get_seedhash 0 = Some seed \<and> ethash_get_datasize 0 = Some fsize \<and>
    run_state (ethash_full_new light ''dag'' None None None False (\<lambda>_. [])) (fresh []) = ((Full h, Some dfeNoError), s') \<and>
    files s' (dag_path ''dag'' seed) = Some (magic @ dag_bytes (dag_of fsize light)) \<and>
    ethash_full_compute (full_of h s') (replicate 32 1) 7 = Some ret \<and> ethash_light_compute storage_kept light (replicate 32 1) 7 = Some ret"
proof -
  have b: "unat (0 :: u64) div 30000 < 2048" by simp
  obtain light seed where l: "ethash_get_seedhash 0 = Some seed" "ethash_light_new 0 True = Some light" "light_ok light" "block_number light = 0"
    using light_new_ok [OF b] by blast
  obtain fsize where f: "ethash_get_datasize 0 = Some fsize" "dag_size_ok fsize" using datasize_ok [OF b] by blast
  obtain h s' where run: "run_state (ethash_full_new_internal ''dag'' seed fsize light None False (\<lambda>_. [])) (fresh []) = ((Full h, Some dfeNoError), s')"
    using mapped_run_succeeds [OF f(2) l(3), of None "''dag''" seed "\<lambda>_. []"] by (auto simp: callback_ok_def)
  then have new: "run_state (ethash_full_new light ''dag'' None None None False (\<lambda>_. [])) (fresh []) = ((Full h, Some dfeNoError), s')"
    using l f by (simp add: ethash_full_new_def)
  have "files (fresh []) p = None" "trace (fresh []) = []" for p by (simp_all add: fresh_def)
  then have "files s' (dag_path ''dag'' seed) = Some (magic @ dag_bytes (dag_of fsize light)) \<and>
      (\<exists>ret. ethash_full_compute (full_of h s') (replicate 32 1) 7 = Some ret \<and> success ret \<and>
        ethash_quick_hash (replicate 32 1) 7 (mix_hash ret) = Some (result ret) \<and>
        ethash_light_compute storage_kept light (replicate 32 1) 7 = Some ret)"
    using full_client_correct [OF l(2,1) f(1) _ _ _ _ _ new, of "replicate 32 1" 7] by simp
  with l f new show ?thesis by blast
qed

text \<open>C34: A crash leaves no false DAG: where the DAG is mapped, every content that any file has from the call of
  \<open>ethash_full_new_internal\<close> to its return, whatever calls fail, whatever part of its output a stream has sent and whatever
  the computation in place holds on the way, is one of the file of the epoch that the next start either rejects or that
  is the magic number and the whole DAG.\<close>

theorem mapped_dag_crash_safe:
  assumes "dag_size_ok fsize" "light_ok light" "callback_ok callback (ucast (fsize div 64))" "trace s = []"
    "\<And>c. files s (dag_path dirname seed) = Some c \<Longrightarrow> safe_content fsize light c"
    "run_state (ethash_full_new_internal dirname seed fsize light callback False torn) s = (r, s')"
  shows "traced (dag_path dirname seed) (safe_content fsize light) s'"
proof -
  obtain nodes where c: "ethash_compute_full_data fsize light callback = Some (True, nodes)"
    using full_data_ok [OF assms(1-3)] by blast
  have "outcome False (dag_path dirname seed) (\<lambda>c. False \<or> safe_content fsize light c) fsize
      (ethash_compute_full_data fsize light callback = None) (\<lambda>c D. c = magic @ D \<and> D = dag_bytes (dag_of fsize light)) (held s) r s'"
    by (rule wp_run [OF run_outcome [OF assms(1,2,4,5)] assms(6)])
  then show ?thesis using c by (auto simp: outcome_def holds_def split: new_result.splits)
qed

theorem mapped_dag_crash_safe_witness:
  "\<exists>r s'. run_state (ethash_full_new_internal ''dag'' (replicate 32 0) 256 \<lparr>cache = [replicate 16 7], cache_size = 64, block_number = 0\<rparr>
      None False (\<lambda>_. [])) (fresh [Done, Done, Done, Done, Done, Sent 1]) = (r, s') \<and>
    traced (dag_path ''dag'' (replicate 32 0)) (safe_content 256 \<lparr>cache = [replicate 16 7], cache_size = 64, block_number = 0\<rparr>) s'"
proof -
  let ?light = "\<lparr>cache = [replicate 16 7], cache_size = 64, block_number = 0\<rparr> :: ethash_light"
  let ?s = "fresh [Done, Done, Done, Done, Done, Sent 1]"
  obtain r s' where run: "run_state (ethash_full_new_internal ''dag'' (replicate 32 0) 256 ?light None False (\<lambda>_. [])) ?s = (r, s')"
    by (cases "run_state (ethash_full_new_internal ''dag'' (replicate 32 0) 256 ?light None False (\<lambda>_. [])) ?s")
  have "dag_size_ok 256" by (simp add: dag_size_ok_def)
  moreover have "light_ok ?light" by (simp add: light_ok_def nodes_ok_def)
  moreover have "callback_ok None x" for x by (simp add: callback_ok_def)
  moreover have "trace ?s = []" "files ?s p = None" for p by (simp_all add: fresh_def)
  ultimately show ?thesis using run mapped_dag_crash_safe [of 256 ?light None ?s "''dag''" "replicate 32 0", OF _ _ _ _ _ run] by auto
qed

text \<open>C35: In memory the order is the other way round, and the damage is possible: for every DAG there is a run with one failing
  call (the data cannot be written, as on a full disk) that returns \<open>NULL\<close> and after which the next call, with no failure at all
  and in either mode, finds the file complete and returns a handle with zeros and a newline for a DAG.\<close>

theorem memory_mode_damage:
  assumes "dag_size_ok fsize" "light_ok light" "callback_ok callback (ucast (fsize div 64))"
  shows "\<exists>as s h s'. run_state (ethash_full_new_internal dirname seed fsize light callback True torn) (fresh as) = ((Null, Some dfeNoError), s) \<and>
    run_state (ethash_full_new_internal dirname seed fsize light' callback' M torn') s = ((Full h, Some dfeNoError), s') \<and>
    handle_bytes h s' = replicate (unat fsize - 1) 0 @ [10]"
proof -
  have n: "0 < unat fsize" "fsize < 2 ^ 38" using assms(1) by (simp_all add: dag_size_ok_def word_less_nat_alt)
  obtain nodes where c: "ethash_compute_full_data fsize light callback = Some (True, nodes)"
    using full_data_ok [OF assms] by blast
  then have l: "length (dag_bytes nodes) = unat fsize" using computed_dag [OF assms(1,2)] by blast
  let ?p = "dag_path dirname seed"
  define as where "as = replicate 8 Done @ replicate 6 Done @ [Cut 8]"
  have as: "as = Done # replicate 7 Done @ replicate 6 Done @ [Cut 8]" by (simp add: as_def numeral_eq_Suc)
  let ?s = "(fresh as)\<lparr>answers := replicate 7 Done @ replicate 6 Done @ [Cut 8], blocks := 1\<rparr>"
  obtain t where t: "run_state (ethash_io_prepare dirname seed fsize False) ?s =
      ((ETHASH_IO_MEMO_MISMATCH, Some \<lparr>st_path = ?p, st_pos = unat fsize + 8, st_pending = []\<rparr>), t)"
    "answers t = replicate 6 Done @ [Cut 8]" "files t ?p = Some (new_content fsize)"
    using prepare_quiet [of ?s "replicate 6 Done @ [Cut 8]" dirname seed fsize] n by (auto simp: fresh_def)
  obtain u where u: "run_state (full_create True fsize light callback torn \<lparr>st_path = ?p, st_pos = unat fsize + 8, st_pending = []\<rparr>) t =
      ((Null, Some dfeNoError), u)" "answers u = []" "files u ?p = Some (magic @ replicate (unat fsize - 1) 0 @ [10])"
    using memory_create [OF t(2,3) c n(1) l] by blast
  have "run_state malloc (fresh as) = (True, ?s)" by (simp add: os_defs run_update as fresh_def)
  then have "run_state (ethash_full_new_internal dirname seed fsize light callback True torn) (fresh as) = ((Null, Some dfeNoError), u)"
    using t(1) u(1) by (simp add: ethash_full_new_internal_def)
  moreover obtain h v where "run_state (ethash_full_new_internal dirname seed fsize light' callback' M torn') u = ((Full h, Some dfeNoError), v)"
    "handle_bytes h v = replicate (unat fsize - 1) 0 @ [10]"
    using fresh_match [OF u(2,3)] n(1) by fastforce
  ultimately show ?thesis by blast
qed

theorem memory_mode_damage_witness:
  "\<exists>as s h s'. run_state (ethash_full_new_internal ''dag'' (replicate 32 0) 256 \<lparr>cache = [replicate 16 7], cache_size = 64, block_number = 0\<rparr>
      None True (\<lambda>_. [])) (fresh as) = ((Null, Some dfeNoError), s) \<and>
    run_state (ethash_full_new_internal ''dag'' (replicate 32 0) 256 \<lparr>cache = [replicate 16 7], cache_size = 64, block_number = 0\<rparr>
      None False (\<lambda>_. [])) s = ((Full h, Some dfeNoError), s') \<and>
    handle_bytes h s' = replicate 255 0 @ [10]"
proof -
  let ?light = "\<lparr>cache = [replicate 16 7], cache_size = 64, block_number = 0\<rparr> :: ethash_light"
  have ok: "dag_size_ok 256" "light_ok ?light" "callback_ok None x" for x
    by (simp_all add: dag_size_ok_def light_ok_def nodes_ok_def callback_ok_def)
  have "unat (256 :: u64) - 1 = 255" by simp
  with memory_mode_damage [OF ok] show ?thesis by metis
qed

lemma wp_full_delete:
  assumes "idle p (h_file h)"
  shows "wp (ethash_full_delete h) (\<lambda>_ s'. held s' = (streams s - 1, blocks s - 1, maps s)) s"
  unfolding ethash_full_delete_def munmap_def wp_simps
  by (rule wp_fclose_idle, use assms in \<open>simp add: idle_def\<close>, rule wp_free)
    (auto simp: held_def split: dag_data.splits)

text \<open>C36: What a call holds when it returns, whatever the file contains and whatever calls fail: \<open>NULL\<close> leaves no stream
  and no block, but for the block whose reading failed and for a mapping that could not be used; a handle is one stream, the handle and
  the data; and \<open>ethash_full_delete\<close> closes the stream and frees the handle, but never frees the data and never unmaps the file.\<close>

theorem dag_resources:
  assumes "dag_size_ok fsize" "light_ok light" "trace s = []"
    "run_state (ethash_full_new_internal dirname seed fsize light callback M torn) s = ((r, e), s')"
  shows "case r of
      Aborted \<Rightarrow> ethash_compute_full_data fsize light callback = None
    | Null \<Rightarrow> null_held M e (held s) (held s')
    | Full h \<Rightarrow> full_held M (held s) (held s') \<and>
        held (snd (run_state (ethash_full_delete h) s')) =
          (streams s, blocks s + (if M then 1 else 0), maps s + (if M then 0 else 1))"
proof -
  have out: "outcome M (dag_path dirname seed) (\<lambda>c. True) fsize (ethash_compute_full_data fsize light callback = None)
      (\<lambda>c D. True) (held s) (r, e) s'"
  proof (rule wp_run [OF wp_full_new_internal [OF _ refl] assms(4)], goal_cases)
    case (9 nodes)
    then show ?case using computed_dag [OF assms(1,2)] by blast
  qed (use assms(1,3) in \<open>auto simp: dag_size_ok_def traced_def\<close>)
  show ?thesis
  proof (cases r)
    case (Full h)
    then have h: "idle (dag_path dirname seed) (h_file h)" "full_held M (held s) (held s')" using out by (auto simp: outcome_def)
    have "held (snd (run_state (ethash_full_delete h) s')) = (streams s' - 1, blocks s' - 1, maps s')"
      using wp_full_delete [OF h(1), of s'] by (simp add: wp_def split: prod.splits)
    with Full h(2) show ?thesis by (auto simp: full_held_def held_def)
  qed (use out in \<open>simp_all add: outcome_def\<close>)
qed

theorem dag_resources_witness:
  "\<exists>h s'. run_state (ethash_full_new_internal ''dag'' (replicate 32 0) 256 \<lparr>cache = [replicate 16 7], cache_size = 64, block_number = 0\<rparr>
      None False (\<lambda>_. [])) (fresh []) = ((Full h, Some dfeNoError), s') \<and>
    held s' = (1, 1, 1) \<and> held (snd (run_state (ethash_full_delete h) s')) = (0, 0, 1)"
proof -
  let ?light = "\<lparr>cache = [replicate 16 7], cache_size = 64, block_number = 0\<rparr> :: ethash_light"
  have ok: "dag_size_ok 256" "light_ok ?light" "callback_ok None x" for x
    by (simp_all add: dag_size_ok_def light_ok_def nodes_ok_def callback_ok_def)
  obtain h s' where run: "run_state (ethash_full_new_internal ''dag'' (replicate 32 0) 256 ?light None False (\<lambda>_. [])) (fresh []) =
      ((Full h, Some dfeNoError), s')" using mapped_run_succeeds [OF ok] by blast
  have z: "held (fresh []) = (0, 0, 0)" "trace (fresh []) = []" "streams (fresh []) = 0" "blocks (fresh []) = 0" "maps (fresh []) = 0"
    by (simp_all add: fresh_def held_def)
  show ?thesis using dag_resources [OF ok(1,2) z(2) run] run by (auto simp: z full_held_def split: prod.splits)
qed

text \<open>The name of the file: the directory, a slash in every case, \<open>full-R23-\<close> and the first 8 bytes of the seed in hexadecimal, in
  their order; it fits its buffer, and seeds have one file exactly if these bytes agree.\<close>

theorem dag_file_name:
  assumes "length seed = 32" "length seed' = 32"
  shows "run_state (ethash_io_create_filename dirname (ethash_io_mutable_name ETHASH_REVISION seed)) (fresh []) =
      (Some (dirname @ ''/full-R23-'' @ concat (map hex_byte (take 8 seed))), (fresh [])\<lparr>blocks := 1\<rparr>) \<and>
    length (ethash_io_mutable_name ETHASH_REVISION seed) = 25 \<and>
    (dag_path dirname seed = dag_path dirname seed' \<longleftrightarrow> take 8 seed = take 8 seed')"
proof -
  have n: "ethash_io_mutable_name ETHASH_REVISION seed = ''full-R23-'' @ concat (map hex_byte (take 8 seed))"
    "ethash_io_mutable_name ETHASH_REVISION seed' = ''full-R23-'' @ concat (map hex_byte (take 8 seed'))"
    using assms by (simp_all add: mutable_name)
  have "length (concat (map hex_byte xs)) = 2 * length xs" for xs by (induction xs) (simp_all add: hex_byte_def)
  then show ?thesis
    using n assms concat_hex_inject [of "take 8 seed" "take 8 seed'"]
    by (auto simp: dag_path_def filename_value ethash_io_create_filename_def malloc_def succeeds_def ask_def run_update fresh_def)
qed

theorem dag_file_name_witness:
  "dag_path ''dag'' (replicate 32 0) = dag_path ''dag'' (replicate 8 0 @ replicate 24 1)"
  using dag_file_name [of "replicate 32 0" "replicate 8 0 @ replicate 24 1" "''dag''"] by simp

end
