(* ===== verification/Spec2Isabelle.thy ===== *)
theory Spec2Isabelle
  imports Scalar_Proofs Scalar_Mult_Proofs Group_Bytes_Proofs Tree_Hash_Proofs Chacha8_Proofs Random_Gen_Proofs Blake256_Proofs
    Ethash_Sizes_Proofs Ethash_Io_Proofs
begin

text \<open>
  Verification library for minergate-cli: the computations in C on which the miner and its wallets rest.

  \<^bold>\<open>The program.\<close> minergate-cli mines CryptoNote and Ethereum coins. Its engine (Qt, C++) receives work from a pool,
  runs a proof of work on it in several threads or on a GPU, and sends shares back. The code whose results have to be
  right bit by bit lies below the engine, in three places under src/sources/: \<open>crypto-lite/src/crypto\<close> (the
  cryptography of CryptoNote: Ed25519 arithmetic for addresses and signatures, Keccak and the hashes over it, the
  cipher of the key files, the random generator), \<open>ethereum/libethash\<close> (the proof of work of Ethereum) and
  \<open>cryptopp/sha3.cpp\<close> (the SHA-3 that libethash calls). These are what is modelled here. The components meet as
  follows: scalars (\<open>sc_*\<close>) and field elements (\<open>fe_*\<close>) are combined by the group operations (\<open>ge_*\<close>); \<open>keccak\<close>
  carries \<open>cn_fast_hash\<close>, which carries \<open>tree_hash\<close>, and its permutation carries the random generator; libethash builds
  its cache, its DAG and its hash from \<open>SHA3_256\<close> and \<open>SHA3_512\<close>, looks sizes up in tables, and keeps the DAG in a file.

  \<^bold>\<open>Conventions.\<close> Unsigned C integers are words (\<open>u8\<close>, \<open>u32\<close>, \<open>u64\<close> of Prelude). Signed ones are \<open>'w cint\<close> of CInt: a
  number, or \<open>UB\<close> once an operation has overflowed, so that a theorem whose result is a number also says that nothing
  overflowed. Buffers are byte lists, read as little-endian numbers by \<open>le_val\<close>. \<open>None\<close> (or \<open>Abort\<close>, \<open>Aborted\<close>) is a
  failed assertion, an access outside a buffer, a division by zero or a loop that does not end; return codes of the
  code are results of their own. Hosts are little-endian with 64-bit \<open>size_t\<close>, \<open>char\<close> is signed, and the compiler is
  GCC where C leaves a choice (conversion to signed types, right shifts of negative numbers). Left shifts of negative
  numbers are given GCC's meaning as well; the places of crypto-ops.c that rely on it are all of its carries. Memory is
  flat inside an object: an index that leaves a member array but not the array of objects around it (\<open>mix->words[w]\<close> of
  internal.c, from 16 on) reaches the next one. The one read of an object whose block has ended, \<open>tmp_node\<close> in
  \<open>ethash_hash\<close>, is not given a meaning but is a parameter: \<open>standard_c\<close> (undefined) or \<open>storage_kept\<close> (the last value).

  \<^bold>\<open>The theories and the code.\<close>
  \<^item> Prelude: bytes, fields of bits, collections of rules. CInt: the signed integers, with an interval calculus by which
    the bounds of long straight-line code are evaluated instead of proved by hand.
  \<^item> Scalars, Scalar\_Proofs: \<open>sc_reduce\<close>, \<open>sc_reduce32\<close>, \<open>sc_add\<close>, \<open>sc_sub\<close>, \<open>sc_mulsub\<close>, \<open>sc_check\<close>, \<open>sc_isnonzero\<close>, \<open>sc_0\<close> of
    crypto-ops.c, limb by limb. Each is the operation modulo the group order, with a canonical result.
  \<^item> Field, Field\_Mul, Field\_Proofs: the field operations. The judgement \<open>fe_is k f x\<close> (the limbs of \<open>f\<close> are within \<open>k\<close> per
    cent of their bounds and stand for \<open>x\<close> modulo \<open>2^255 - 19\<close>) has a rule for each operation; encoding is canonical and
    inverse to decoding; \<open>fe_invert\<close> and \<open>fe_divpowm1\<close> are the powers their addition chains are meant to be.
  \<^item> Group\_Data: every constant and table of crypto-ops-data.c. Group, Group\_Proofs: additions, doublings and changes of
    representation against the addition law of the twisted Edwards curve.
  \<^item> Scalar\_Mult, Recoding, Scalar\_Mult\_Proofs: the recodings of a scalar have its value and bounded digits; table
    selection without branches is selection; the four scalar multiplications stay inside the limb bounds and fail no
    assertion. Group\_Bytes, Group\_Bytes\_Proofs: what \<open>ge_frombytes_vartime\<close> accepts, and that encoding undoes it.
  \<^item> Int\_Util: the products and divisions of int-util.h. Keccak, Keccak\_Proofs: keccak.c and hash.c against the
    permutation and, for rates of whole words, the sponge of FIPS 202, given on byte strings (with the padding of the
    submission); what the code computes for the other rates is stated as well; the locale \<open>fast_hash\<close> is what the tree
    needs of the hash and is interpreted by \<open>cn_fast_hash\<close>. Tree\_Hash, Tree\_Hash\_Proofs: the in-place tree against a
    recursive Merkle tree, and binding: lists with the same root give a collision at a node that both trees hash.
  \<^item> Chacha8, Chacha8\_Proofs: the cipher against the key stream specified from key and nonce on. Random\_Gen, Random\_Gen\_Proofs: random.c as
    functions and as the steps of two threads that interleave (one permutation of the state being one step).
  \<^item> Blake256, Blake256\_Compress, Blake256\_Update, Blake256\_Proofs: blake256.c against the BLAKE of the submission, from the
    compression function over the updates (whatever pieces a message comes in) to the padding made in the buffer; HMAC is
    proved once in the locale \<open>hash_engine\<close>, interpreted for BLAKE-256 and BLAKE-224.
  \<^item> Sha3, Sha3\_Proofs: the unrolled permutation and the object of sha3.cpp, which agree with keccak.c however a message is
    cut into pieces. The locale \<open>sha3_functions\<close> is what libethash needs of them.
  \<^item> Ethash, Ethash\_Proofs: internal.c and fnv.h. The hash takes its nodes through the locale \<open>dag_source\<close>, which the cache
    and the DAG both interpret; so the miner's result is the verifier's, where the compiler keeps the storage of
    \<open>tmp_node\<close>; by the standard the verifier's is undefined (\<open>light_hash_undefined\<close>). Ethash\_Sizes, Ethash\_Sizes\_Proofs: the tables of
    data\_sizes.h and the functions indexed by block numbers; every tabulated size is one the hash works with.
  \<^item> Ethash\_Io: io.c, io\_posix.c and the handling of the DAG file in internal.c as operations on a state of files,
    streams, memory and mappings, in which each call can fail. Ethash\_Io\_Rules: weakest preconditions for them.
    Ethash\_Io\_Proofs: what a handle is worth, what a crash or a failure leaves in the file, what is held at each return.

  \<^bold>\<open>Loops and bounds.\<close> Every loop is a total function: counted loops are folds over their ranges, the others have
  termination proofs (\<open>keccak_absorb\<close>, \<open>chacha8_loop\<close>, \<open>random_loop\<close>, \<open>blake_blocks\<close>, \<open>sha3_Update\<close>, \<open>tree_hash_levels\<close>); no fuel is used.
  \<open>ethash_get_seedhash\<close> is \<open>None\<close> exactly from \<open>2^32\<close> epochs on, where the loop of the code does not end. The bounds on
  messages (\<open>2^31\<close> bytes) are those of the code's \<open>int\<close> lengths, the bound on DAG sizes (\<open>2^38\<close> bytes) that of its 32-bit
  node numbers.

  \<^bold>\<open>Not modelled.\<close> The engine, the stratum clients, the wallet and the daemon are C++ over Qt, boost and sockets, whose
  behaviour is that of their event loops and of remote services; the GPU miners run in the execution models of CUDA and
  OpenCL drivers; Crypto++ (but for SHA-3), bcrypt, epee and miniupnpc are third-party libraries. Of the cryptography,
  three of the four finalists, Groestl, JH and Skein, the slow hash that chooses among them and BLAKE (AES instructions and a
  scratchpad of 2 MB) and the C++ layer of signatures in crypto.cpp are left out, as are the SSE variants of libethash,
  the floating-point percentage its progress callback receives, the Windows variants of system calls, alignment and
  aliasing of pointers, and timing. That the curve's addition law is complete, and hence what the scalar multiplications
  compute as multiples, is not proved: for them safety is.
\<close>

end
